(* ===== verification/Prelude.thy ===== *)
theory Prelude
  imports Main "HOL-Library.Word" "HOL-Library.Multiset"
begin

text \<open>
  Shared vocabulary of the development: the names of Go's machine types, the wrap-around of
  signed arithmetic, results with errors, and the collections of facts (\<open>go_defs\<close>,
  \<open>go_simps\<close>, \<open>chan_simps\<close>, \<open>step_defs\<close>) that the component theories extend and
  hand to \<open>simp\<close> and \<open>auto\<close>.
\<close>

named_theorems go_defs "definitions of Go library operations"
named_theorems go_simps "rewrite rules for Go library operations"
named_theorems chan_simps "rewrite rules for Go channels"
named_theorems step_defs "definitions of the steps of the components"

section \<open>Types\<close>

type_synonym byte = "8 word"
type_synonym bytes = "byte list"
type_synonym uint16 = "16 word"
type_synonym uint32 = "32 word"
type_synonym uint64 = "64 word"

text \<open>
  A Go \<open>int\<close>, \<open>int64\<close> or \<open>time.Duration\<close> is an \<open>int\<close> of the model; where the
  code can leave the range of the type, the operation is followed by \<open>int64\<close> or
  \<open>int32\<close>, which wrap as two's complement does.
\<close>

definition swrap :: "nat \<Rightarrow> int \<Rightarrow> int" where
  "swrap w x = (x + 2 ^ (w - 1)) mod 2 ^ w - 2 ^ (w - 1)"

definition int32 :: "int \<Rightarrow> int" where
  "int32 x = swrap 32 x"

definition int64 :: "int \<Rightarrow> int" where
  "int64 x = swrap 64 x"

lemma swrap_id: "0 < w \<Longrightarrow> - (2 ^ (w - 1)) \<le> x \<Longrightarrow> x < 2 ^ (w - 1) \<Longrightarrow> swrap w x = x"
proof -
  assume w: "0 < w" and lo: "- (2 ^ (w - 1)) \<le> x" and hi: "x < 2 ^ (w - 1)"
  have "(2::int) ^ w = 2 * 2 ^ (w - 1)"
    using w by (cases w) auto
  then have "(x + 2 ^ (w - 1)) mod 2 ^ w = x + 2 ^ (w - 1)"
    using lo hi by (intro mod_pos_pos_trivial) auto
  then show ?thesis by (simp add: swrap_def)
qed

lemma int32_id [go_simps]: "- 2147483648 \<le> x \<Longrightarrow> x \<le> 2147483647 \<Longrightarrow> int32 x = x"
  unfolding int32_def by (rule swrap_id) auto

lemma int64_id [go_simps]:
  "- 9223372036854775808 \<le> x \<Longrightarrow> x \<le> 9223372036854775807 \<Longrightarrow> int64 x = x"
  unfolding int64_def by (rule swrap_id) auto

lemma int32_range: "- 2147483648 \<le> int32 x \<and> int32 x \<le> 2147483647"
proof -
  have "0 \<le> (x + 2 ^ 31) mod 2 ^ 32 \<and> (x + 2 ^ 31) mod 2 ^ 32 < 2 ^ 32"
    by (intro conjI pos_mod_sign pos_mod_bound) simp_all
  then show ?thesis by (simp add: int32_def swrap_def)
qed

lemma swrap_add_left: "swrap w (swrap w a + b) = swrap w (a + b)"
proof -
  let ?m = "2 ^ w :: int" and ?h = "2 ^ (w - 1) :: int"
  have "((a + ?h) mod ?m - ?h) + b + ?h = (a + ?h) mod ?m + b"
    by simp
  moreover have "((a + ?h) mod ?m + b) mod ?m = (a + ?h + b) mod ?m"
    by (rule mod_add_left_eq)
  moreover have "a + ?h + b = a + b + ?h" by simp
  ultimately show ?thesis unfolding swrap_def by presburger
qed

lemma int32_add [go_simps]: "int32 (int32 a + b) = int32 (a + b)"
  by (simp add: int32_def swrap_add_left)

text \<open>Go's integer division truncates towards zero.\<close>

definition go_div :: "int \<Rightarrow> int \<Rightarrow> int" where
  "go_div a b = sgn a * sgn b * (\<bar>a\<bar> div \<bar>b\<bar>)"

lemma go_div_nonneg [go_simps]: "0 \<le> a \<Longrightarrow> 0 < b \<Longrightarrow> go_div a b = a div b"
  by (cases "a = 0") (simp_all add: go_div_def)

lemma go_div_two_mono: "0 \<le> a \<Longrightarrow> a \<le> b \<Longrightarrow> go_div a 2 \<le> go_div b 2"
  by (simp add: go_simps zdiv_mono1)

section \<open>Results\<close>

text \<open>An operation that can fail returns \<open>Inl\<close> of the error or \<open>Inr\<close> of the result.\<close>

definition and_then :: "'e + 'a \<Rightarrow> ('a \<Rightarrow> 'e + 'b) \<Rightarrow> 'e + 'b" where
  "and_then r f = (case r of Inl e \<Rightarrow> Inl e | Inr x \<Rightarrow> f x)"

lemma and_then_simps [simp]:
  "and_then (Inl e) f = Inl e"
  "and_then (Inr x) f = f x"
  by (simp_all add: and_then_def)

lemma and_then_Inr_iff: "and_then r f = Inr y \<longleftrightarrow> (\<exists>x. r = Inr x \<and> f x = Inr y)"
  by (cases r) auto

definition is_ok :: "'e + 'a \<Rightarrow> bool" where
  "is_ok r = (case r of Inl _ \<Rightarrow> False | Inr _ \<Rightarrow> True)"

lemma is_ok_simps [simp]: "\<not> is_ok (Inl e)" "is_ok (Inr x)"
  by (simp_all add: is_ok_def)

section \<open>Case distinctions\<close>

lemma if_eq_cases: "(if b then x else y) = z \<Longrightarrow> (b \<Longrightarrow> x = z \<Longrightarrow> R) \<Longrightarrow> (\<not> b \<Longrightarrow> y = z \<Longrightarrow> R) \<Longrightarrow> R"
  by (simp split: if_split_asm)

section \<open>Lists\<close>

lemma length_le_one_cases: "length xs \<le> 1 \<longleftrightarrow> xs = [] \<or> (\<exists>x. xs = [x])"
  by (cases xs) auto

lemma sum_list_mset_eq: "mset xs = mset ys \<Longrightarrow> sum_list xs = (sum_list ys :: 'a::comm_monoid_add)"
  by (metis sum_mset_sum_list)

lemma sum_list_update:
  fixes f :: "'a \<Rightarrow> nat"
  shows "i < length xs \<Longrightarrow> sum_list (map f (xs[i := y])) + f (xs ! i) = sum_list (map f xs) + f y"
proof (induction xs arbitrary: i)
  case Nil
  then show ?case by simp
next
  case (Cons x xs)
  then show ?case by (cases i) auto
qed

lemma int32_nat_id: "n < 2147483648 \<Longrightarrow> int32 (int n) = int n"
  by (rule int32_id) auto

end
