(* ===== verification/Wire.thy ===== *)
theory Wire
  imports GoStrings
begin

text \<open>
  The wire format of \<open>internal/utils/binary.go\<close> and the signal bytes of
  \<open>internal/utils/signals.go\<close>: a connection is the stream of bytes still to be read with the
  error a read gets when they run out; a send returns its error and the bytes it put on the wire.
  The locale \<open>frame_codec\<close> is the contract of a framing; every pair of functions of the file is
  an interpretation of it.
\<close>

unbundle bit_operations_syntax

section \<open>Signals\<close>

definition SG_HB :: byte where "SG_HB = 0"
definition SG_Chan :: byte where "SG_Chan = 1"
definition SG_Ping :: byte where "SG_Ping = 2"
definition SG_Closed :: byte where "SG_Closed = 3"
definition SG_TCP :: byte where "SG_TCP = 4"
definition SG_UDP :: byte where "SG_UDP = 5"
definition SG_RTT :: byte where "SG_RTT = 6"

lemmas signal_defs = SG_HB_def SG_Chan_def SG_Ping_def SG_Closed_def SG_TCP_def SG_UDP_def SG_RTT_def

definition signals :: "byte list" where
  "signals = [SG_HB, SG_Chan, SG_Ping, SG_Closed, SG_TCP, SG_UDP, SG_RTT]"

lemma signals_distinct: "distinct signals"
  by (simp add: signals_def signal_defs)

section \<open>Streams\<close>

text \<open>What the code distinguishes in a type switch over \<open>conn interface{}\<close>.\<close>

datatype conn_kind = NetConn | QuicStream | OtherConn

datatype io_err = EOF | UnexpectedEOF | TimedOut | ErrClosed | BrokenPipe

datatype wire_err =
    Unsupported
  | SendFailed
  | LengthFailed io_err
  | BodyFailed io_err

record stream =
  pending :: bytes
  fault :: io_err

text \<open>
  \<open>io.ReadFull(c, buf)\<close> for a buffer of \<open>n\<close> bytes: the bytes, or the error when the stream ends
  first (\<open>ErrUnexpectedEOF\<close> when it ends inside the buffer); the bytes before the end are consumed.
\<close>

definition read_full :: "nat \<Rightarrow> stream \<Rightarrow> (io_err + bytes) \<times> stream" where
  "read_full n st =
     (if n \<le> length (pending st)
      then (Inr (take n (pending st)), st\<lparr>pending := drop n (pending st)\<rparr>)
      else (Inl (if pending st \<noteq> [] \<and> fault st = EOF then UnexpectedEOF else fault st),
            st\<lparr>pending := []\<rparr>))"

text \<open>One call of \<open>c.Write(buf)\<close>: it takes the whole buffer, or fails after \<open>k\<close> bytes.\<close>

datatype write_result = WriteOk | WriteErr nat

definition do_write :: "write_result \<Rightarrow> bytes \<Rightarrow> wire_err option \<times> bytes" where
  "do_write w buf =
     (case w of WriteOk \<Rightarrow> (None, buf) | WriteErr k \<Rightarrow> (Some SendFailed, take k buf))"

lemma read_full_exact [go_simps]:
  "n = length bs \<Longrightarrow> pending st = bs @ rest \<Longrightarrow> read_full n st = (Inr bs, st\<lparr>pending := rest\<rparr>)"
  by (simp add: read_full_def)

lemma read_full_Inr_iff:
  "read_full n st = (Inr bs, st') \<longleftrightarrow>
     length bs = n \<and> pending st = bs @ pending st' \<and> st' = st\<lparr>pending := pending st'\<rparr>"
proof (cases "n \<le> length (pending st)")
  case True
  then show ?thesis
    by (cases st, cases st') (auto simp: read_full_def)
next
  case False
  then show ?thesis by (auto simp: read_full_def)
qed

section \<open>Big-endian integers and strings as bytes\<close>

definition put_uint16 :: "uint16 \<Rightarrow> bytes" where
  "put_uint16 v = [ucast (drop_bit 8 v), ucast v]"

fun get_uint16 :: "bytes \<Rightarrow> uint16" where
  "get_uint16 (b0 # b1 # _) = push_bit 8 (ucast b0) OR ucast b1"
| "get_uint16 _ = 0"

definition put_uint32 :: "uint32 \<Rightarrow> bytes" where
  "put_uint32 v = [ucast (drop_bit 24 v), ucast (drop_bit 16 v), ucast (drop_bit 8 v), ucast v]"

fun get_uint32 :: "bytes \<Rightarrow> uint32" where
  "get_uint32 (b0 # b1 # b2 # b3 # _) =
     push_bit 24 (ucast b0) OR push_bit 16 (ucast b1) OR push_bit 8 (ucast b2) OR ucast b3"
| "get_uint32 _ = 0"

lemma length_put_uint [simp]: "length (put_uint16 v) = 2" "length (put_uint32 u) = 4"
  by (simp_all add: put_uint16_def put_uint32_def)

lemma get_put_uint16 [simp]: "get_uint16 (put_uint16 v @ rest) = v"
  by (simp add: put_uint16_def) (rule bit_word_eqI, auto simp: bit_simps)

lemma get_put_uint32 [simp]: "get_uint32 (put_uint32 v @ rest) = v"
proof -
  let ?w = "(push_bit 24 (ucast (ucast (drop_bit 24 v) :: byte)) OR
    push_bit 16 (ucast (ucast (drop_bit 16 v) :: byte)) OR
    push_bit 8 (ucast (ucast (drop_bit 8 v) :: byte)) OR ucast (ucast v :: byte)) :: uint32"
  have "?w = v"
  proof (rule bit_word_eqI)
    fix n assume "n < LENGTH(32)"
    then consider "n < 8" | "8 \<le> n" "n < 16" | "16 \<le> n" "n < 24" | "24 \<le> n" "n < 32"
      by fastforce
    then show "bit ?w n \<longleftrightarrow> bit v n"
      by cases (auto simp: bit_simps)
  qed
  then show ?thesis by (simp add: put_uint32_def)
qed

lemma get_put_uint16' [simp]: "get_uint16 (put_uint16 v) = v"
  using get_put_uint16 [of v "[]"] by simp

lemma get_put_uint32' [simp]: "get_uint32 (put_uint32 v) = v"
  using get_put_uint32 [of v "[]"] by simp

lemma put_get_uint16: "length bs = 2 \<Longrightarrow> put_uint16 (get_uint16 bs) = bs"
proof -
  assume "length bs = 2"
  then obtain b0 b1 where "bs = [b0, b1]"
    by (auto simp: length_Suc_conv numeral_2_eq_2)
  moreover have "ucast (drop_bit 8 (push_bit 8 (ucast b0) OR ucast b1 :: uint16)) = b0"
    by (rule bit_word_eqI) (auto simp: bit_simps dest: bit_imp_le_length)
  moreover have "ucast (push_bit 8 (ucast b0) OR ucast b1 :: uint16) = b1"
    by (rule bit_word_eqI) (auto simp: bit_simps)
  ultimately show ?thesis by (simp add: put_uint16_def)
qed

definition bytes_of :: "string \<Rightarrow> bytes" where
  "bytes_of s = map (\<lambda>c. of_nat (of_char c)) s"

definition string_of :: "bytes \<Rightarrow> string" where
  "string_of bs = map (\<lambda>b. char_of (unat b)) bs"

lemma length_bytes_of [simp]: "length (bytes_of s) = length s"
  by (simp add: bytes_of_def)

lemma length_string_of [simp]: "length (string_of bs) = length bs"
  by (simp add: string_of_def)

lemma string_of_bytes_of [simp]: "string_of (bytes_of s) = s"
proof -
  have "\<And>c :: char. char_of (unat (of_nat (of_char c) :: byte)) = c"
    by (simp add: unat_of_nat)
  then show ?thesis by (simp add: string_of_def bytes_of_def comp_def)
qed

lemma bytes_of_string_of [simp]: "bytes_of (string_of bs) = bs"
proof -
  have "\<And>b :: byte. of_nat (of_char (char_of (unat b))) = b"
  proof -
    fix b :: byte
    have "unat b < 2 ^ LENGTH(8)" by (rule unsigned_less)
    then have "unat b < 256" by simp
    then show "of_nat (of_char (char_of (unat b))) = b" by simp
  qed
  then show ?thesis by (simp add: string_of_def bytes_of_def comp_def)
qed

lemma bytes_of_take: "bytes_of (take n s) = take n (bytes_of s)"
  by (simp add: bytes_of_def take_map)

lemma string_of_take: "string_of (take n bs) = take n (string_of bs)"
  by (simp add: string_of_def take_map)

section \<open>The senders and receivers\<close>

definition SendBinaryString :: "conn_kind \<Rightarrow> write_result \<Rightarrow> string \<Rightarrow> wire_err option \<times> bytes" where
  "SendBinaryString conn w message =
     (let buf = put_uint16 (of_nat (length message)) @ bytes_of message
      in case conn of
           NetConn \<Rightarrow> do_write w buf
         | QuicStream \<Rightarrow> do_write w buf
         | OtherConn \<Rightarrow> (Some Unsupported, []))"

definition ReceiveBinaryString :: "conn_kind \<Rightarrow> stream \<Rightarrow> (string \<times> wire_err option) \<times> stream" where
  "ReceiveBinaryString conn st =
     (if conn = OtherConn then (('''', Some Unsupported), st)
      else case read_full 2 st of
             (Inl e, st1) \<Rightarrow> (('''', Some (LengthFailed e)), st1)
           | (Inr lenBuf, st1) \<Rightarrow>
               (let messageLength = get_uint16 lenBuf
                in case read_full (unat messageLength) st1 of
                     (Inl e, st2) \<Rightarrow> (('''', Some (BodyFailed e)), st2)
                   | (Inr messageBuf, st2) \<Rightarrow> ((string_of messageBuf, None), st2)))"

definition SendBinaryTransportString ::
    "conn_kind \<Rightarrow> write_result \<Rightarrow> string \<Rightarrow> byte \<Rightarrow> wire_err option \<times> bytes" where
  "SendBinaryTransportString conn w message transport =
     (let buf = put_uint16 (of_nat (length message)) @ [transport] @ bytes_of message
      in case conn of
           NetConn \<Rightarrow> do_write w buf
         | QuicStream \<Rightarrow> do_write w buf
         | OtherConn \<Rightarrow> (Some Unsupported, []))"

text \<open>On every error the transport returned is 0, the value of \<open>SG_HB\<close>.\<close>

definition ReceiveBinaryTransportString ::
    "conn_kind \<Rightarrow> stream \<Rightarrow> (string \<times> byte \<times> wire_err option) \<times> stream" where
  "ReceiveBinaryTransportString conn st =
     (if conn = OtherConn then (('''', 0, Some Unsupported), st)
      else case read_full 3 st of
             (Inl e, st1) \<Rightarrow> (('''', 0, Some (LengthFailed e)), st1)
           | (Inr lenBuf, st1) \<Rightarrow>
               (let messageLength = get_uint16 (take 2 lenBuf);
                    transport = lenBuf ! 2
                in case read_full (unat messageLength) st1 of
                     (Inl e, st2) \<Rightarrow> (('''', 0, Some (BodyFailed e)), st2)
                   | (Inr messageBuf, st2) \<Rightarrow> ((string_of messageBuf, transport, None), st2)))"

definition SendBinaryInt :: "write_result \<Rightarrow> uint16 \<Rightarrow> wire_err option \<times> bytes" where
  "SendBinaryInt w port = do_write w (put_uint16 port)"

definition ReceiveBinaryInt :: "stream \<Rightarrow> (uint16 \<times> wire_err option) \<times> stream" where
  "ReceiveBinaryInt st =
     (case read_full 2 st of
        (Inl e, st1) \<Rightarrow> ((0, Some (LengthFailed e)), st1)
      | (Inr b, st1) \<Rightarrow> ((get_uint16 b, None), st1))"

definition SendBinaryByte :: "conn_kind \<Rightarrow> write_result \<Rightarrow> byte \<Rightarrow> wire_err option \<times> bytes" where
  "SendBinaryByte conn w message =
     (case conn of
        NetConn \<Rightarrow> do_write w [message]
      | QuicStream \<Rightarrow> do_write w [message]
      | OtherConn \<Rightarrow> (Some Unsupported, []))"

definition ReceiveBinaryByte :: "conn_kind \<Rightarrow> stream \<Rightarrow> (byte \<times> wire_err option) \<times> stream" where
  "ReceiveBinaryByte conn st =
     (if conn = OtherConn then ((0, Some Unsupported), st)
      else case read_full 1 st of
             (Inl e, st1) \<Rightarrow> ((0, Some (LengthFailed e)), st1)
           | (Inr b, st1) \<Rightarrow> ((b ! 0, None), st1))"

section \<open>The contract of a framing\<close>

text \<open>
  \<open>enc\<close> puts a message on the wire, \<open>dec\<close> takes one off a stream, \<open>ok\<close> says which messages the
  frame can carry. \<open>recv_n\<close> is the receive loop of a peer that reads \<open>n\<close> messages.
\<close>

fun recv_n :: "(stream \<Rightarrow> ('m \<times> stream) option) \<Rightarrow> nat \<Rightarrow> stream \<Rightarrow> ('m list \<times> stream) option" where
  "recv_n dec 0 st = Some ([], st)"
| "recv_n dec (Suc n) st =
     (case dec st of
        None \<Rightarrow> None
      | Some (m, st') \<Rightarrow> map_option (\<lambda>(ms, st''). (m # ms, st'')) (recv_n dec n st'))"

locale frame_codec =
  fixes enc :: "'m \<Rightarrow> bytes"
    and dec :: "stream \<Rightarrow> ('m \<times> stream) option"
    and ok :: "'m \<Rightarrow> bool"
  assumes dec_enc: "ok m \<Longrightarrow> dec (st\<lparr>pending := enc m @ rest\<rparr>) = Some (m, st\<lparr>pending := rest\<rparr>)"
    and enc_dec: "dec st = Some (m, st') \<Longrightarrow>
      ok m \<and> pending st = enc m @ pending st' \<and> st' = st\<lparr>pending := pending st'\<rparr>"
    and enc_nonempty: "enc m \<noteq> []"
begin

lemma recv_n_sent:
  "list_all ok ms \<Longrightarrow>
     recv_n dec (length ms) (st\<lparr>pending := concat (map enc ms) @ rest\<rparr>) = Some (ms, st\<lparr>pending := rest\<rparr>)"
  by (induction ms) (simp_all add: dec_enc)

lemma recv_n_consumed:
  "recv_n dec n st = Some (ms, st') \<Longrightarrow>
     length ms = n \<and> list_all ok ms \<and> pending st = concat (map enc ms) @ pending st'"
proof (induction n arbitrary: st ms)
  case 0
  then show ?case by auto
next
  case (Suc n)
  then obtain m ms' st1 where "dec st = Some (m, st1)" "recv_n dec n st1 = Some (ms', st')" "ms = m # ms'"
    by (auto split: option.splits)
  then show ?case using Suc.IH [of st1 ms'] enc_dec [of st m st1] by auto
qed

lemma unambiguous:
  assumes "ok m" "ok m'" "enc m @ r = enc m' @ r'"
  shows "m = m' \<and> r = r'"
proof -
  let ?st = "\<lparr>pending = [], fault = EOF\<rparr>"
  have "Some (m, ?st\<lparr>pending := r\<rparr>) = Some (m', ?st\<lparr>pending := r'\<rparr>)"
    using assms dec_enc [of m r ?st] dec_enc [of m' r' ?st] by simp
  then show ?thesis by simp
qed

lemma traffic_unambiguous:
  "list_all ok ms \<Longrightarrow> list_all ok ms' \<Longrightarrow> concat (map enc ms) = concat (map enc ms') \<Longrightarrow> ms = ms'"
proof (induction ms arbitrary: ms')
  case Nil
  then show ?case using enc_nonempty by (cases ms') auto
next
  case (Cons m ms)
  obtain m' ns where ms': "ms' = m' # ns"
    using Cons.prems(3) enc_nonempty [of m] by (cases ms') simp_all
  have "m = m' \<and> concat (map enc ms) = concat (map enc ns)"
    by (rule unambiguous) (use Cons.prems ms' in simp_all)
  then show ?case using Cons.IH [of ns] Cons.prems ms' by simp
qed

end

subsection \<open>The framings of the program\<close>

definition frame_result :: "('m \<times> wire_err option) \<times> stream \<Rightarrow> ('m \<times> stream) option" where
  "frame_result r = (case r of ((m, None), st) \<Rightarrow> Some (m, st) | ((m, Some _), st) \<Rightarrow> None)"

definition string_enc :: "conn_kind \<Rightarrow> string \<Rightarrow> bytes" where
  "string_enc conn m = snd (SendBinaryString conn WriteOk m)"

definition string_dec :: "conn_kind \<Rightarrow> stream \<Rightarrow> (string \<times> stream) option" where
  "string_dec conn st = frame_result (ReceiveBinaryString conn st)"

definition transport_enc :: "string \<times> byte \<Rightarrow> bytes" where
  "transport_enc m = snd (SendBinaryTransportString NetConn WriteOk (fst m) (snd m))"

definition transport_dec :: "stream \<Rightarrow> ((string \<times> byte) \<times> stream) option" where
  "transport_dec st =
     (case ReceiveBinaryTransportString NetConn st of
        ((m, t, None), st') \<Rightarrow> Some ((m, t), st')
      | ((m, t, Some _), st') \<Rightarrow> None)"

definition fits16 :: "string \<Rightarrow> bool" where
  "fits16 m \<longleftrightarrow> length m < 65536"

lemma unat_length16: "unat (of_nat (length m) :: uint16) = length m mod 65536"
  by (simp add: unat_of_nat)

lemma of_nat_unat16: "of_nat (unat (v :: uint16)) = v"
  by simp

lemma unat16_less: "unat (v :: uint16) < 65536"
proof -
  have "unat v < 2 ^ LENGTH(16)" by (rule unsigned_less)
  then show ?thesis by simp
qed

lemma string_dec_Some:
  assumes "conn \<noteq> OtherConn" and dec: "string_dec conn st = Some (m, st')"
  shows "fits16 m \<and> pending st = string_enc conn m @ pending st' \<and> st' = st\<lparr>pending := pending st'\<rparr>"
proof -
  obtain lb st1 where lb: "read_full 2 st = (Inr lb, st1)"
    using assms
    by (cases "read_full 2 st"; cases "fst (read_full 2 st)")
       (simp_all add: string_dec_def frame_result_def ReceiveBinaryString_def)
  obtain mb where mb: "read_full (unat (get_uint16 lb)) st1 = (Inr mb, st')" and m: "m = string_of mb"
    using assms lb
    by (cases "read_full (unat (get_uint16 lb)) st1"; cases "fst (read_full (unat (get_uint16 lb)) st1)")
       (simp_all add: string_dec_def frame_result_def ReceiveBinaryString_def)
  have "length lb = 2" "pending st = lb @ pending st1" "st1 = st\<lparr>pending := pending st1\<rparr>"
    using lb by (simp_all add: read_full_Inr_iff)
  moreover have "length mb = unat (get_uint16 lb)" "pending st1 = mb @ pending st'"
    "st' = st1\<lparr>pending := pending st'\<rparr>"
    using mb by (simp_all add: read_full_Inr_iff)
  moreover have "put_uint16 (of_nat (length mb)) = lb"
    using calculation by (simp add: put_get_uint16)
  ultimately show ?thesis
    using m assms(1) unat16_less [of "get_uint16 lb"]
    by (cases conn) (auto simp: string_enc_def SendBinaryString_def do_write_def fits16_def)
qed

lemma string_dec_enc:
  assumes "conn \<noteq> OtherConn" "fits16 m"
  shows "string_dec conn (st\<lparr>pending := string_enc conn m @ rest\<rparr>) = Some (m, st\<lparr>pending := rest\<rparr>)"
proof -
  have "string_enc conn m = put_uint16 (of_nat (length m)) @ bytes_of m"
    using assms(1) by (cases conn) (simp_all add: string_enc_def SendBinaryString_def do_write_def)
  with assms show ?thesis
    by (simp add: string_dec_def frame_result_def ReceiveBinaryString_def fits16_def unat_length16
        read_full_exact [where bs = "put_uint16 _"] read_full_exact [where bs = "bytes_of _"])
qed

interpretation net_string: frame_codec "string_enc NetConn" "string_dec NetConn" fits16
proof
  show "fits16 m \<Longrightarrow> string_dec NetConn (st\<lparr>pending := string_enc NetConn m @ rest\<rparr>) = Some (m, st\<lparr>pending := rest\<rparr>)"
    for m st rest by (rule string_dec_enc) simp
  show "string_dec NetConn st = Some (m, st') \<Longrightarrow>
      fits16 m \<and> pending st = string_enc NetConn m @ pending st' \<and> st' = st\<lparr>pending := pending st'\<rparr>"
    for st m st' by (rule string_dec_Some) simp_all
  show "string_enc NetConn m \<noteq> []" for m
    by (simp add: string_enc_def SendBinaryString_def do_write_def put_uint16_def)
qed

interpretation quic_string: frame_codec "string_enc QuicStream" "string_dec QuicStream" fits16
proof
  show "fits16 m \<Longrightarrow> string_dec QuicStream (st\<lparr>pending := string_enc QuicStream m @ rest\<rparr>) = Some (m, st\<lparr>pending := rest\<rparr>)"
    for m st rest by (rule string_dec_enc) simp
  show "string_dec QuicStream st = Some (m, st') \<Longrightarrow>
      fits16 m \<and> pending st = string_enc QuicStream m @ pending st' \<and> st' = st\<lparr>pending := pending st'\<rparr>"
    for st m st' by (rule string_dec_Some) simp_all
  show "string_enc QuicStream m \<noteq> []" for m
    by (simp add: string_enc_def SendBinaryString_def do_write_def put_uint16_def)
qed

lemma transport_dec_Some:
  assumes dec: "transport_dec st = Some (m, st')"
  shows "fits16 (fst m) \<and> pending st = transport_enc m @ pending st' \<and> st' = st\<lparr>pending := pending st'\<rparr>"
proof -
  obtain lb st1 where lb: "read_full 3 st = (Inr lb, st1)"
    using assms
    by (cases "read_full 3 st"; cases "fst (read_full 3 st)")
       (simp_all add: transport_dec_def ReceiveBinaryTransportString_def)
  obtain mb where mb: "read_full (unat (get_uint16 (take 2 lb))) st1 = (Inr mb, st')"
    and m: "m = (string_of mb, lb ! 2)"
    using assms lb
    by (cases "read_full (unat (get_uint16 (take 2 lb))) st1";
        cases "fst (read_full (unat (get_uint16 (take 2 lb))) st1)")
       (simp_all add: transport_dec_def ReceiveBinaryTransportString_def)
  have l3: "length lb = 3" and p: "pending st = lb @ pending st1" "st1 = st\<lparr>pending := pending st1\<rparr>"
    using lb by (simp_all add: read_full_Inr_iff)
  have q: "length mb = unat (get_uint16 (take 2 lb))" "pending st1 = mb @ pending st'"
    "st' = st1\<lparr>pending := pending st'\<rparr>"
    using mb by (simp_all add: read_full_Inr_iff)
  have "put_uint16 (of_nat (length mb)) = take 2 lb"
    using q l3 by (simp add: put_get_uint16)
  moreover have "take 2 lb @ [lb ! 2] = lb"
    using l3 by (metis Suc_1 Suc_n_not_le_n eval_nat_numeral(3) le_refl lessI take_Suc_conv_app_nth take_all)
  ultimately have "put_uint16 (of_nat (length mb)) @ lb ! 2 # mb = lb @ mb"
    by (metis append.assoc append_Cons append_Nil)
  then have "transport_enc m = lb @ mb"
    using m by (simp add: transport_enc_def SendBinaryTransportString_def do_write_def)
  then show ?thesis
    using m p q unat16_less [of "get_uint16 (take 2 lb)"] by (simp add: fits16_def)
qed

text \<open>
  A frame whose message is longer than its 16-bit length field: the receiver takes the length
  modulo 65536 and leaves the rest of the message in the stream, in front of the next frame.
\<close>

lemma transport_dec_wraps:
  "transport_dec (st\<lparr>pending := transport_enc (m, t) @ rest\<rparr>) =
     Some ((take (length m mod 65536) m, t),
           st\<lparr>pending := drop (length m mod 65536) (bytes_of m) @ rest\<rparr>)"
proof -
  let ?n = "length m mod 65536"
  have n: "?n \<le> length m" by simp
  have h: "read_full 3 (st\<lparr>pending := transport_enc (m, t) @ rest\<rparr>) =
      (Inr (put_uint16 (of_nat (length m)) @ [t]), st\<lparr>pending := bytes_of m @ rest\<rparr>)"
    using read_full_exact [of 3 "put_uint16 (of_nat (length m)) @ [t]"]
    by (simp add: transport_enc_def SendBinaryTransportString_def do_write_def)
  have "read_full ?n (st\<lparr>pending := bytes_of m @ rest\<rparr>) =
      (Inr (take ?n (bytes_of m)), st\<lparr>pending := drop ?n (bytes_of m) @ rest\<rparr>)"
    using n read_full_exact [of ?n "take ?n (bytes_of m)" "st\<lparr>pending := bytes_of m @ rest\<rparr>"
        "drop ?n (bytes_of m) @ rest"]
    by (simp flip: append_assoc)
  with h show ?thesis
    by (simp add: transport_dec_def ReceiveBinaryTransportString_def unat_length16 nth_append
        flip: bytes_of_take)
qed

interpretation transport: frame_codec transport_enc transport_dec "\<lambda>m. fits16 (fst m)"
proof
  show "fits16 (fst m) \<Longrightarrow> transport_dec (st\<lparr>pending := transport_enc m @ rest\<rparr>) = Some (m, st\<lparr>pending := rest\<rparr>)"
    for m st rest by (cases m) (simp add: transport_dec_wraps fits16_def)
  show "transport_dec st = Some (m, st') \<Longrightarrow>
      fits16 (fst m) \<and> pending st = transport_enc m @ pending st' \<and> st' = st\<lparr>pending := pending st'\<rparr>"
    for st m st' by (rule transport_dec_Some)
  show "transport_enc m \<noteq> []" for m
    by (simp add: transport_enc_def SendBinaryTransportString_def do_write_def put_uint16_def)
qed

definition int_enc :: "uint16 \<Rightarrow> bytes" where
  "int_enc v = snd (SendBinaryInt WriteOk v)"

definition int_dec :: "stream \<Rightarrow> (uint16 \<times> stream) option" where
  "int_dec st = frame_result (ReceiveBinaryInt st)"

interpretation port_int: frame_codec int_enc int_dec "\<lambda>_. True"
proof
  show "int_dec (st\<lparr>pending := int_enc m @ rest\<rparr>) = Some (m, st\<lparr>pending := rest\<rparr>)" for m st rest
    by (simp add: int_dec_def int_enc_def frame_result_def SendBinaryInt_def do_write_def
        ReceiveBinaryInt_def read_full_exact [where bs = "put_uint16 m"])
  show "True \<and> pending st = int_enc m @ pending st' \<and> st' = st\<lparr>pending := pending st'\<rparr>"
    if dec: "int_dec st = Some (m, st')" for st m st'
  proof -
    obtain b where b: "read_full 2 st = (Inr b, st')" and m: "m = get_uint16 b"
      using dec
      by (auto simp: int_dec_def frame_result_def ReceiveBinaryInt_def split: prod.splits sum.splits)
    then show ?thesis
      by (simp add: read_full_Inr_iff int_enc_def SendBinaryInt_def do_write_def put_get_uint16)
  qed
  show "int_enc m \<noteq> []" for m
    by (simp add: int_enc_def SendBinaryInt_def do_write_def put_uint16_def)
qed

definition byte_enc :: "byte \<Rightarrow> bytes" where
  "byte_enc b = snd (SendBinaryByte NetConn WriteOk b)"

definition byte_dec :: "stream \<Rightarrow> (byte \<times> stream) option" where
  "byte_dec st = frame_result (ReceiveBinaryByte NetConn st)"

interpretation signal_byte: frame_codec byte_enc byte_dec "\<lambda>_. True"
proof
  show "byte_dec (st\<lparr>pending := byte_enc m @ rest\<rparr>) = Some (m, st\<lparr>pending := rest\<rparr>)" for m st rest
    by (simp add: byte_dec_def byte_enc_def frame_result_def SendBinaryByte_def do_write_def
        ReceiveBinaryByte_def read_full_exact [where bs = "[m]"])
  show "True \<and> pending st = byte_enc m @ pending st' \<and> st' = st\<lparr>pending := pending st'\<rparr>"
    if dec: "byte_dec st = Some (m, st')" for st m st'
  proof -
    obtain b where b: "read_full 1 st = (Inr b, st')" and m: "m = b ! 0"
      using dec
      by (auto simp: byte_dec_def frame_result_def ReceiveBinaryByte_def split: prod.splits sum.splits)
    then have "length b = 1" by (simp add: read_full_Inr_iff)
    then have "b = [m]" using m by (cases b) simp_all
    with b show ?thesis
      by (simp add: read_full_Inr_iff byte_enc_def SendBinaryByte_def do_write_def)
  qed
  show "byte_enc m \<noteq> []" for m
    by (simp add: byte_enc_def SendBinaryByte_def do_write_def)
qed

text \<open>A frame at the front of a stream is read whole.\<close>

lemma received_frame:
  assumes "pending st = snd (SendBinaryTransportString NetConn WriteOk m tr) @ later" "length m < 65536"
  shows "ReceiveBinaryTransportString NetConn st = ((m, tr, None), st\<lparr>pending := later\<rparr>)"
proof -
  have st: "st\<lparr>pending := transport_enc (m, tr) @ later\<rparr> = st"
    using assms(1) by (simp add: transport_enc_def)
  show ?thesis
    using transport_dec_wraps [of m tr later st] assms(2)
    by (auto simp: st transport_dec_def split: prod.splits option.splits)
qed

lemma received_string:
  assumes "pending st = string_enc NetConn m @ later" "length m < 65536"
  shows "ReceiveBinaryString NetConn st = ((m, None), st\<lparr>pending := later\<rparr>) \<and>
         ReceiveBinaryString QuicStream st = ((m, None), st\<lparr>pending := later\<rparr>)"
proof -
  have same: "string_enc QuicStream m = string_enc NetConn m" by (simp add: string_enc_def SendBinaryString_def)
  have st: "st\<lparr>pending := string_enc NetConn m @ later\<rparr> = st" using assms(1) by simp
  have "string_dec NetConn st = Some (m, st\<lparr>pending := later\<rparr>)" "string_dec QuicStream st = Some (m, st\<lparr>pending := later\<rparr>)"
    using string_dec_enc [of NetConn m later st] string_dec_enc [of QuicStream m later st] assms(2)
    by (simp_all add: st same fits16_def)
  then show ?thesis
    by (auto simp: string_dec_def frame_result_def split: prod.splits option.splits)
qed

section \<open>Properties\<close>

text \<open>
  C15. Whatever was sent with \<open>SendBinaryString\<close> over a \<open>net.Conn\<close>, message after message, is what
  \<open>ReceiveBinaryString\<close> reads back, in order and with nothing of the later traffic consumed,
  as long as each message fits the 16-bit length field.
\<close>

theorem binary_strings_round_trip:
  assumes "list_all fits16 ms"
  shows "recv_n (string_dec NetConn) (length ms)
           (st\<lparr>pending := concat (map (string_enc NetConn) ms) @ rest\<rparr>) = Some (ms, st\<lparr>pending := rest\<rparr>)"
  using assms by (rule net_string.recv_n_sent)

theorem binary_strings_round_trip_witness:
  "recv_n (string_dec NetConn) 2
     \<lparr>pending = concat (map (string_enc NetConn) [''443'', ''1.1.1.1:53'']) @ [7], fault = EOF\<rparr> =
   Some ([''443'', ''1.1.1.1:53''], \<lparr>pending = [7], fault = EOF\<rparr>)"
  using binary_strings_round_trip
    [of "[''443'', ''1.1.1.1:53'']" "[7]" "\<lparr>pending = [], fault = EOF\<rparr>"]
  by (simp add: fits16_def numeral_2_eq_2)

text \<open>
  A transport frame of any length: the receiver gets the transport byte and the first
  \<open>length m mod 65536\<close> bytes of the message, and the remaining bytes stay in the stream where
  the next frame is expected. For a message under 65536 bytes this is an exact round trip; a longer
  one silently desynchronises the connection.
\<close>

theorem transport_frame_of_any_length:
  "ReceiveBinaryTransportString NetConn
     (st\<lparr>pending := snd (SendBinaryTransportString NetConn WriteOk m t) @ rest\<rparr>) =
   ((take (length m mod 65536) m, t, None),
    st\<lparr>pending := drop (length m mod 65536) (bytes_of m) @ rest\<rparr>)"
  using transport_dec_wraps [of m t rest st]
  by (auto simp: transport_dec_def transport_enc_def split: prod.splits option.splits)

text \<open>
  A receive that fails, for any reason, reports transport 0 (\<open>SG_HB\<close>) and an empty message,
  so a caller that tests the transport for \<open>SG_Chan\<close>, \<open>SG_TCP\<close> or \<open>SG_UDP\<close> before the error takes
  the branch of a wrong signal.
\<close>

theorem failed_receive_reports_heartbeat:
  assumes "ReceiveBinaryTransportString conn st = ((m, t, Some e), st')"
  shows "m = [] \<and> t = SG_HB \<and> t \<notin> {SG_Chan, SG_TCP, SG_UDP}"
proof -
  have "m = [] \<and> t = 0"
    using assms
    by (auto simp: ReceiveBinaryTransportString_def Let_def split: if_splits prod.splits sum.splits)
  then show ?thesis by (simp add: signal_defs)
qed

theorem failed_receive_reports_heartbeat_witness:
  "ReceiveBinaryTransportString NetConn \<lparr>pending = [0, 5, 1, 104], fault = TimedOut\<rparr> =
     (([], SG_HB, Some (BodyFailed TimedOut)), \<lparr>pending = [], fault = TimedOut\<rparr>)
   \<and> SG_HB \<notin> {SG_Chan, SG_TCP, SG_UDP}"
proof -
  have r: "ReceiveBinaryTransportString NetConn \<lparr>pending = [0, 5, 1, 104], fault = TimedOut\<rparr> =
     (([], 0, Some (BodyFailed TimedOut)), \<lparr>pending = [], fault = TimedOut\<rparr>)"
    by (simp add: ReceiveBinaryTransportString_def read_full_def)
  from failed_receive_reports_heartbeat [OF r] show ?thesis
    using r by simp
qed

end
