(* ===== verification/Chan.thy ===== *)
theory Chan
  imports Prelude
begin

text \<open>
  Go channels as the transports use them: a buffer with a capacity and the closed flag.
  \<open>offer\<close> is \<open>select { case ch <- x: default: }\<close>, \<open>take_chan\<close> the enabled receive of a
  \<open>select\<close>, \<open>send\<close> the plain send with its three outcomes. The locale \<open>bounded_fifo\<close> is the
  contract the transports rely on (order, capacity, nothing lost), its interpretation is the
  channel itself.
\<close>

section \<open>Channels\<close>

record 'a chan =
  buf :: "'a list"
  cap :: nat
  is_closed :: bool

definition make_chan :: "nat \<Rightarrow> 'a chan" where
  "make_chan n = \<lparr>buf = [], cap = n, is_closed = False\<rparr>"

datatype 'a send_result = Sent "'a chan" | WouldBlock | SendPanic

definition send :: "'a \<Rightarrow> 'a chan \<Rightarrow> 'a send_result" where
  "send x ch =
     (if is_closed ch then SendPanic
      else if length (buf ch) < cap ch then Sent (ch\<lparr>buf := buf ch @ [x]\<rparr>)
      else WouldBlock)"

definition close_chan :: "'a chan \<Rightarrow> 'a chan option" where
  "close_chan ch = (if is_closed ch then None else Some (ch\<lparr>is_closed := True\<rparr>))"

text \<open>
  The channels below are never closed, so a send either stores the value or, with no room and a
  \<open>default\<close> case in the \<open>select\<close>, leaves the channel as it is. A channel of capacity 0 takes no
  value without a waiting receiver.
\<close>

definition offer :: "'a \<Rightarrow> 'a chan \<Rightarrow> 'a chan \<times> bool" where
  "offer x ch =
     (if length (buf ch) < cap ch then (ch\<lparr>buf := buf ch @ [x]\<rparr>, True) else (ch, False))"

definition take_chan :: "'a chan \<Rightarrow> ('a \<times> 'a chan) option" where
  "take_chan ch = (case buf ch of [] \<Rightarrow> None | x # xs \<Rightarrow> Some (x, ch\<lparr>buf := xs\<rparr>))"

definition chan_ok :: "'a chan \<Rightarrow> bool" where
  "chan_ok ch \<longleftrightarrow> length (buf ch) \<le> cap ch \<and> \<not> is_closed ch"

lemma make_chan_simps [chan_simps, simp]:
  "buf (make_chan n) = []" "cap (make_chan n) = n" "\<not> is_closed (make_chan n)"
  by (simp_all add: make_chan_def)

lemma chan_ok_make [chan_simps, simp]: "chan_ok (make_chan n)"
  by (simp add: chan_ok_def)

lemma send_offer: "\<not> is_closed ch \<Longrightarrow>
    send x ch = (if snd (offer x ch) then Sent (fst (offer x ch)) else WouldBlock)"
  by (simp add: send_def offer_def)

lemma offer_cases:
  obtains (stored) "length (buf ch) < cap ch" "offer x ch = (ch\<lparr>buf := buf ch @ [x]\<rparr>, True)"
  | (full) "\<not> length (buf ch) < cap ch" "offer x ch = (ch, False)"
  by (cases "length (buf ch) < cap ch") (simp_all add: offer_def)

lemma offer_simps [chan_simps]:
  "length (buf ch) < cap ch \<Longrightarrow> offer x ch = (ch\<lparr>buf := buf ch @ [x]\<rparr>, True)"
  "\<not> length (buf ch) < cap ch \<Longrightarrow> offer x ch = (ch, False)"
  "cap (fst (offer x ch)) = cap ch"
  "is_closed (fst (offer x ch)) = is_closed ch"
  by (simp_all add: offer_def)

lemma offer_empty: "buf ch = [] \<Longrightarrow> 0 < cap ch \<Longrightarrow> offer x ch = (ch\<lparr>buf := [x]\<rparr>, True)"
  by (simp add: offer_def send_def)

lemma offer_buf [chan_simps]:
  "buf (fst (offer x ch)) = buf ch @ (if snd (offer x ch) then [x] else [])"
  by (simp add: offer_def)

lemma chan_ok_offer [chan_simps, intro]: "chan_ok ch \<Longrightarrow> chan_ok (fst (offer x ch))"
  by (simp add: offer_def chan_ok_def)

lemma take_chan_simps [chan_simps]:
  "take_chan ch = None \<longleftrightarrow> buf ch = []"
  "take_chan ch = Some (x, ch') \<longleftrightarrow> (\<exists>xs. buf ch = x # xs \<and> ch' = ch\<lparr>buf := xs\<rparr>)"
  by (auto simp: take_chan_def split: list.splits)

lemma chan_ok_take: "chan_ok ch \<Longrightarrow> take_chan ch = Some (x, ch') \<Longrightarrow> chan_ok ch'"
  by (auto simp: chan_simps chan_ok_def)

text \<open>A step that leaves a channel alone or takes its first value.\<close>

definition shrinks :: "'a chan \<Rightarrow> 'a chan \<Rightarrow> bool" where
  "shrinks ch ch' \<longleftrightarrow> ch' = ch \<or> (\<exists>x. take_chan ch = Some (x, ch'))"

lemma shrinks_refl [chan_simps]: "shrinks ch ch"
  by (simp add: shrinks_def)

lemma shrinks_take: "take_chan ch = Some (x, ch') \<Longrightarrow> shrinks ch ch'"
  by (auto simp: shrinks_def)

lemma shrinks_ok:
  "shrinks ch ch' \<Longrightarrow> chan_ok ch \<Longrightarrow> chan_ok ch' \<and> cap ch' = cap ch \<and> set (buf ch') \<subseteq> set (buf ch)"
  by (auto simp: shrinks_def chan_simps chan_ok_def)

lemma take_chan_len:
  "take_chan ch = Some (x, ch') \<Longrightarrow> length (buf ch) = Suc (length (buf ch'))"
  by (auto simp: chan_simps)

lemma offer_True:
  "offer x ch = (ch', True) \<Longrightarrow> length (buf ch') = Suc (length (buf ch)) \<and>
     cap ch' = cap ch \<and> (chan_ok ch \<longrightarrow> chan_ok ch')"
  by (auto simp: offer_def chan_ok_def split: if_splits)

section \<open>The contract of a bounded queue\<close>

datatype 'a queue_op = Offer 'a | Take

record ('q, 'a) queue_run =
  queue :: 'q
  accepted :: "'a list"
  refused :: "'a list"
  delivered :: "'a list"

locale bounded_fifo =
  fixes content :: "'q \<Rightarrow> 'a list"
    and capacity :: "'q \<Rightarrow> nat"
    and enq :: "'a \<Rightarrow> 'q \<Rightarrow> 'q \<times> bool"
    and deq :: "'q \<Rightarrow> ('a \<times> 'q) option"
  assumes enq_room: "length (content q) < capacity q \<Longrightarrow>
      snd (enq x q) \<and> content (fst (enq x q)) = content q @ [x]"
    and enq_full: "\<not> length (content q) < capacity q \<Longrightarrow>
      \<not> snd (enq x q) \<and> content (fst (enq x q)) = content q"
    and enq_capacity: "capacity (fst (enq x q)) = capacity q"
    and deq_None: "deq q = None \<longleftrightarrow> content q = []"
    and deq_Some: "deq q = Some (x, q') \<Longrightarrow> content q = x # content q' \<and> capacity q' = capacity q"
begin

fun queue_step :: "'a queue_op \<Rightarrow> ('q, 'a) queue_run \<Rightarrow> ('q, 'a) queue_run" where
  "queue_step (Offer x) r =
     (let (q', ok) = enq x (queue r)
      in if ok then r\<lparr>queue := q', accepted := accepted r @ [x]\<rparr>
         else r\<lparr>queue := q', refused := refused r @ [x]\<rparr>)"
| "queue_step Take r =
     (case deq (queue r) of
        None \<Rightarrow> r
      | Some (x, q') \<Rightarrow> r\<lparr>queue := q', delivered := delivered r @ [x]\<rparr>)"

definition run_queue :: "'a queue_op list \<Rightarrow> 'q \<Rightarrow> ('q, 'a) queue_run" where
  "run_queue ops q = fold queue_step ops \<lparr>queue = q, accepted = [], refused = [], delivered = []\<rparr>"

definition offered :: "'a queue_op list \<Rightarrow> 'a list" where
  "offered ops = concat (map (\<lambda>op. case op of Offer x \<Rightarrow> [x] | Take \<Rightarrow> []) ops)"

definition queue_inv :: "'q \<Rightarrow> 'a queue_op list \<Rightarrow> ('q, 'a) queue_run \<Rightarrow> bool" where
  "queue_inv q0 ops r \<longleftrightarrow>
     content q0 @ accepted r = delivered r @ content (queue r) \<and>
     mset (offered ops) = mset (accepted r) + mset (refused r) \<and>
     capacity (queue r) = capacity q0 \<and>
     (length (content q0) \<le> capacity q0 \<longrightarrow> length (content (queue r)) \<le> capacity q0)"

lemma queue_step_inv:
  assumes "queue_inv q0 ops r"
  shows "queue_inv q0 (ops @ [op]) (queue_step op r)"
proof (cases op)
  case (Offer x)
  obtain q' ok where e: "enq x (queue r) = (q', ok)" by fastforce
  have c: "capacity q' = capacity (queue r)" using enq_capacity [of x "queue r"] e by simp
  show ?thesis
  proof (cases "length (content (queue r)) < capacity (queue r)")
    case True
    then have "ok \<and> content q' = content (queue r) @ [x]"
      using enq_room [OF True, of x] e by simp
    then show ?thesis
      using assms True Offer e c by (simp add: queue_inv_def offered_def flip: append_assoc)
  next
    case False
    then have "\<not> ok \<and> content q' = content (queue r)"
      using enq_full [OF False, of x] e by simp
    then show ?thesis
      using assms Offer e c by (simp add: queue_inv_def offered_def)
  qed
next
  case Take
  then show ?thesis
    using assms deq_Some [of "queue r"]
    by (auto simp: queue_inv_def offered_def split: option.split)
qed

lemma run_queue_snoc: "run_queue (ops @ [op]) q = queue_step op (run_queue ops q)"
  by (simp add: run_queue_def)

lemma run_queue_inv: "queue_inv q ops (run_queue ops q)"
proof (induction ops rule: rev_induct)
  case Nil
  show ?case by (simp add: run_queue_def queue_inv_def offered_def)
next
  case (snoc op ops)
  then show ?case by (simp add: run_queue_snoc queue_step_inv)
qed

lemma run_queue_order:
  "content q @ accepted (run_queue ops q) =
     delivered (run_queue ops q) @ content (queue (run_queue ops q))"
  using run_queue_inv [of q ops] by (simp add: queue_inv_def)

lemma run_queue_bounded:
  "length (content q) \<le> capacity q \<Longrightarrow> length (content (queue (run_queue ops q))) \<le> capacity q"
  using run_queue_inv [of q ops] by (simp add: queue_inv_def)

end

interpretation go_chan: bounded_fifo buf cap offer take_chan
  by unfold_locales (auto simp: chan_simps)

section \<open>Rendezvous\<close>

text \<open>
  A channel made without a capacity: a send in a \<open>select\<close> with a \<open>default\<close> succeeds exactly when a
  receiver is blocked on it, and hands the value over.
\<close>

definition offer_sync :: "bool \<Rightarrow> 'a \<Rightarrow> 'a option" where
  "offer_sync receiver_waiting x = (if receiver_waiting then Some x else None)"

section \<open>Properties\<close>

text \<open>
  Any sequence of non-blocking sends and receives on a channel made with capacity \<open>n\<close>: what is
  received is a prefix of what was accepted, in order, the rest is still in the buffer, every value
  offered was either accepted or refused, and the buffer never exceeds \<open>n\<close>.
\<close>

theorem channel_is_bounded_fifo:
  "let r = go_chan.run_queue ops (make_chan n)
   in accepted r = delivered r @ buf (queue r) \<and>
      mset (go_chan.offered ops) = mset (accepted r) + mset (refused r) \<and>
      length (buf (queue r)) \<le> n"
  using go_chan.run_queue_inv [of "make_chan n" ops]
  by (simp add: go_chan.queue_inv_def Let_def)

end
