(* ===== verification/Net.thy ===== *)
theory Net
  imports Wire Chan
begin

text \<open>
  Connections and what the transports do to the outside: a connection is its identity with the
  facts the code reads from it (dynamic type, peer address, local port, the bytes it will deliver);
  closing, writing, handing two connections to a copying goroutine, starting a goroutine and
  sleeping are \<open>effect\<close>s, collected in the order the code performs them. Setting TCP options
  (\<open>SetNoDelay\<close>, \<open>SetKeepAlive\<close>) and logging change nothing that the code reads back.
\<close>

record conn =
  cid :: nat
  is_tcp :: bool
  peer_ip :: string
  local_port :: int
  input :: stream

record LocalTCPConn =
  lconn :: conn
  remoteAddr :: string
  timeCreated :: int

text \<open>\<open>smux.Config\<close> with the fixed keep-alive times of the constructor, in seconds.\<close>

record smux_config =
  Version :: int
  KeepAliveInterval :: int
  KeepAliveTimeout :: int
  sMaxFrameSize :: int
  sMaxReceiveBuffer :: int
  sMaxStreamBuffer :: int

datatype accept_result = AcceptErr | Accepted conn

datatype goroutine =
    GRestart
  | GStart
  | GTunnelDialer
  | GTunnelListener
  | GMonitor
  | GParsePortMappings
  | GChannelHandler
  | GChannelDialer
  | GPoolMaintainer
  | GHandleLoop
  | GChannelHandshake
  | GUdpListener
  | GPoolChecker
  | GHandleSession nat
  | GKeepAlive nat
  | GHandleTunConn
  | GChannelListener

datatype effect =
    Close nat
  | Wrote nat bytes
  | Piped nat nat int bool
  | PipedUDP nat nat int bool int
  | PipedStream nat nat int bool
  | PipedWS nat nat int bool
  | PipedStreamLocal nat nat int bool
  | CloseStream nat
  | DialedUDP nat string int bool
  | WroteText nat string
  | WroteBinary nat bytes
  | Go goroutine
  | Call goroutine
  | Sleep int
  | Fatal

text \<open>The connections an effect ends the transport's ownership of.\<close>

fun taken :: "effect \<Rightarrow> nat list" where
  "taken (Close c) = [c]"
| "taken (Piped a b _ _) = [a, b]"
| "taken (PipedUDP _ t _ _ _) = [t]"
| "taken (PipedStream _ c _ _) = [c]"
| "taken (PipedWS a b _ _) = [a, b]"
| "taken (PipedStreamLocal _ l _ _) = [l]"
| "taken (DialedUDP t _ _ _) = [t]"
| "taken _ = []"

definition gone :: "effect list \<Rightarrow> nat list" where
  "gone es = concat (map taken es)"

lemma gone_simps [simp]:
  "gone [] = []"
  "gone (e # es) = taken e @ gone es"
  "gone (es @ fs) = gone es @ gone fs"
  by (simp_all add: gone_def)

text \<open>The queued connections of the channels.\<close>

definition conn_ids :: "conn list \<Rightarrow> nat list" where
  "conn_ids cs = map cid cs"

definition local_ids :: "LocalTCPConn list \<Rightarrow> nat list" where
  "local_ids ls = map (\<lambda>l. cid (lconn l)) ls"

lemma ids_simps [simp]:
  "conn_ids [] = []" "conn_ids (c # cs) = cid c # conn_ids cs"
  "conn_ids (cs @ ds) = conn_ids cs @ conn_ids ds"
  "local_ids [] = []" "local_ids (l # ls) = cid (lconn l) # local_ids ls"
  "local_ids (ls @ ms) = local_ids ls @ local_ids ms"
  by (simp_all add: conn_ids_def local_ids_def)

text \<open>
  A write of one signal byte on a control channel: the effect, and whether it succeeded. A partial
  write of a one-byte buffer is no byte.
\<close>

definition send_signal :: "write_result \<Rightarrow> conn \<Rightarrow> byte \<Rightarrow> effect list \<times> bool" where
  "send_signal w c b =
     (case SendBinaryByte NetConn w b of
        (None, bs) \<Rightarrow> ([Wrote (cid c) bs], True)
      | (Some _, bs) \<Rightarrow> ([Wrote (cid c) bs], False))"

lemma send_signal_simps [simp]:
  "send_signal WriteOk c b = ([Wrote (cid c) [b]], True)"
  "snd (send_signal (WriteErr k) c b) = False"
  "gone (fst (send_signal w c b)) = []"
  by (simp_all add: send_signal_def SendBinaryByte_def do_write_def split: write_result.splits)

lemma snd_send_signal: "snd (send_signal w c b) \<longleftrightarrow> w = WriteOk"
  by (cases w) simp_all

lemma written_signal: "Wrote n bs \<in> set (fst (send_signal w cc b)) \<Longrightarrow> bs \<in> {[], [b]}"
  by (cases w) (auto simp: send_signal_def SendBinaryByte_def do_write_def take_Cons' split: if_splits)

lemma send_signal_es: "send_signal w cc b = (es, ok) \<Longrightarrow> Wrote n bs \<in> set es \<Longrightarrow> bs \<in> {[], [b]}"
  using written_signal [of n bs w cc b] by simp

text \<open>\<open>utils.SendBinaryTransportString\<close> on a connection.\<close>

definition send_transport :: "write_result \<Rightarrow> conn \<Rightarrow> string \<Rightarrow> byte \<Rightarrow> effect list \<times> bool" where
  "send_transport w c m t =
     (case SendBinaryTransportString NetConn w m t of
        (None, bs) \<Rightarrow> ([Wrote (cid c) bs], True)
      | (Some _, bs) \<Rightarrow> ([Wrote (cid c) bs], False))"

lemma send_transport_simps [simp]:
  "snd (send_transport w c m t) \<longleftrightarrow> w = WriteOk"
  "gone (fst (send_transport w c m t)) = []"
  by (simp_all add: send_transport_def SendBinaryTransportString_def do_write_def Let_def
      split: write_result.splits)

lemma send_transport_cases:
  "send_transport WriteOk c m t =
     ([Wrote (cid c) (snd (SendBinaryTransportString NetConn WriteOk m t))], True)"
  "send_transport (WriteErr k) c m t =
     ([Wrote (cid c) (snd (SendBinaryTransportString NetConn (WriteErr k) m t))], False)"
  by (simp_all add: send_transport_def SendBinaryTransportString_def do_write_def Let_def)

text \<open>\<open>utils.SendBinaryString\<close> on a connection or stream.\<close>

definition send_string :: "write_result \<Rightarrow> nat \<Rightarrow> string \<Rightarrow> effect list \<times> bool" where
  "send_string w c m =
     (case SendBinaryString NetConn w m of
        (None, bs) \<Rightarrow> ([Wrote c bs], True)
      | (Some _, bs) \<Rightarrow> ([Wrote c bs], False))"

lemma send_string_simps [simp]:
  "snd (send_string w c m) \<longleftrightarrow> w = WriteOk"
  "gone (fst (send_string w c m)) = []"
  by (simp_all add: send_string_def SendBinaryString_def do_write_def Let_def split: write_result.splits)

lemma send_string_Ok: "send_string WriteOk c m = ([Wrote c (string_enc NetConn m)], True)"
  by (simp add: send_string_def string_enc_def SendBinaryString_def do_write_def)

end
