(* ===== verification/Control.thy ===== *)
theory Control
  imports Net
begin

text \<open>
  The parts every control channel shares: the reading goroutine of \<open>channelHandler\<close> with its
  retries, and the guard of \<open>Restart\<close>. The goroutine reads a message, waits a growing time
  after an error and asks for a restart after \<open>maxRetries\<close> errors in a row; a message it cannot
  put into the full \<open>messageChan\<close> is held until there is room.
\<close>

section \<open>The reading goroutine\<close>

definition maxRetries :: nat where "maxRetries = 3"

definition baseBackoff :: int where "baseBackoff = 1"

datatype 'm read_outcome = ReadOk 'm | ReadErr

record 'm reader =
  retries :: nat
  running :: bool
  held :: "'m option"

definition new_reader :: "'m reader" where
  "new_reader = \<lparr>retries = 0, running = True, held = None\<rparr>"

text \<open>\<open>cancel\<close> is set by the constructors and by \<open>Restart\<close>, so the test for nil always passes.\<close>

definition reader_read :: "'m read_outcome \<Rightarrow> 'm reader \<Rightarrow> 'm reader \<times> effect list" where
  "reader_read out r =
     (case out of
        ReadErr \<Rightarrow>
          (let n = retries r + 1
           in if maxRetries \<le> n
              then (r\<lparr>retries := n, running := False\<rparr>, [Go GRestart])
              else (r\<lparr>retries := n\<rparr>, [Sleep (baseBackoff * int n)]))
      | ReadOk m \<Rightarrow> (r\<lparr>retries := 0, held := Some m\<rparr>, []))"

text \<open>\<open>messageChan <- message\<close>: it completes when the channel has room.\<close>

definition reader_deliver :: "'m reader \<Rightarrow> 'm chan \<Rightarrow> ('m reader \<times> 'm chan) option" where
  "reader_deliver r ch =
     (case held r of
        None \<Rightarrow> None
      | Some m \<Rightarrow> (case offer m ch of
                     (ch', True) \<Rightarrow> Some (r\<lparr>held := None\<rparr>, ch')
                   | (_, False) \<Rightarrow> None))"

text \<open>A run of reads, each message delivered before the next read.\<close>

fun run_reader :: "'m read_outcome list \<Rightarrow> 'm reader \<Rightarrow> 'm reader \<times> effect list" where
  "run_reader [] r = (r, [])"
| "run_reader (out # outs) r =
     (if \<not> running r then (r, [])
      else let (r1, es) = reader_read out r;
               (r2, fs) = run_reader outs (r1\<lparr>held := None\<rparr>)
           in (r2, es @ fs))"

definition three_errors :: "'m read_outcome list \<Rightarrow> bool" where
  "three_errors outs \<longleftrightarrow> (\<exists>pre post. outs = pre @ [ReadErr, ReadErr, ReadErr] @ post)"

lemma three_errors_Nil: "\<not> three_errors []"
  by (simp add: three_errors_def)

lemma three_errors_Cons:
  "three_errors (x # outs) \<longleftrightarrow> (\<exists>post. x # outs = [ReadErr, ReadErr, ReadErr] @ post) \<or> three_errors outs"
proof
  assume "three_errors (x # outs)"
  then obtain pre post where p: "x # outs = pre @ [ReadErr, ReadErr, ReadErr] @ post"
    unfolding three_errors_def by blast
  then show "(\<exists>post. x # outs = [ReadErr, ReadErr, ReadErr] @ post) \<or> three_errors outs"
    by (cases pre) (auto simp: three_errors_def)
next
  assume "(\<exists>post. x # outs = [ReadErr, ReadErr, ReadErr] @ post) \<or> three_errors outs"
  then show "three_errors (x # outs)"
    unfolding three_errors_def by (metis append_Cons append_Nil)
qed

lemma three_errors_ok [simp]: "three_errors (ReadOk m # outs) \<longleftrightarrow> three_errors outs"
  by (simp add: three_errors_Cons)

lemma three_errors_prefix:
  "n < 3 \<Longrightarrow> three_errors (replicate n ReadErr @ ReadOk m # outs) \<longleftrightarrow> three_errors outs"
proof -
  assume "n < 3"
  then have "n = 0 \<or> n = 1 \<or> n = 2" by arith
  then show ?thesis by (auto simp: three_errors_Cons numeral_2_eq_2)
qed

lemma three_errors_short: "n < 3 \<Longrightarrow> \<not> three_errors (replicate n ReadErr)"
  by (auto simp: three_errors_def dest: arg_cong [of _ _ length])

lemma run_reader_stopped:
  assumes "running r" "retries r < 3"
  shows "(\<not> running (fst (run_reader outs r)) \<longleftrightarrow>
           three_errors (replicate (retries r) ReadErr @ outs)) \<and>
         (Go GRestart \<in> set (snd (run_reader outs r)) \<longleftrightarrow>
           three_errors (replicate (retries r) ReadErr @ outs))"
  using assms
proof (induction outs arbitrary: r)
  case Nil
  then show ?case by (simp add: three_errors_short)
next
  case (Cons out outs)
  note r = Cons.prems
  show ?case
  proof (cases out)
    case (ReadOk m)
    then show ?thesis
      using Cons.IH [of "r\<lparr>retries := 0, held := None\<rparr>"] r
      by (simp add: reader_read_def three_errors_prefix split: prod.split)
  next
    case ReadErr

    show ?thesis
    proof (cases "retries r = 2")
      case True
      have t: "three_errors (ReadErr # ReadErr # ReadErr # outs)"
        unfolding three_errors_def by (metis append_Cons append_Nil)
      have "run_reader outs (r\<lparr>retries := 3, running := False, held := None\<rparr>) =
          (r\<lparr>retries := 3, running := False, held := None\<rparr>, [])"
        by (cases outs) simp_all
      then show ?thesis
        using ReadErr True r t by (simp add: reader_read_def maxRetries_def numeral_2_eq_2 numeral_3_eq_3)
    next
      case False
      then have "Suc (retries r) < 3" using r by simp
      then show ?thesis
        using ReadErr r Cons.IH [of "r\<lparr>retries := Suc (retries r), held := None\<rparr>"]
        by (auto simp: reader_read_def maxRetries_def replicate_app_Cons_same split: prod.split)
    qed
  qed
qed

lemma retries_bounded:
  "running r \<Longrightarrow> retries r < maxRetries \<Longrightarrow>
     retries (fst (run_reader outs r)) \<le> maxRetries \<and>
     (running (fst (run_reader outs r)) \<longrightarrow> retries (fst (run_reader outs r)) < maxRetries)"
proof (induction outs arbitrary: r)
  case Nil
  then show ?case by simp
next
  case (Cons out outs)
  show ?case
  proof (cases "out = ReadErr \<and> maxRetries \<le> retries r + 1")
    case True
    moreover have "run_reader outs (r\<lparr>retries := retries r + 1, running := False, held := None\<rparr>) =
          (r\<lparr>retries := retries r + 1, running := False, held := None\<rparr>, [])"
      by (cases outs) simp_all
    ultimately show ?thesis using Cons.prems by (simp add: reader_read_def)
  next
    case False
    then show ?thesis
      using Cons.prems Cons.IH [of "r\<lparr>retries := 0, held := None\<rparr>"]
        Cons.IH [of "r\<lparr>retries := retries r + 1, held := None\<rparr>"]
      by (cases out) (auto simp: reader_read_def maxRetries_def split: prod.split)
  qed
qed

section \<open>The handshake of the server side\<close>

text \<open>
  What \<open>channelHandshake\<close> of the TCP, TCPMux and UDP servers does with one connection: read a transport frame under
  a deadline, ask for \<open>SG_Chan\<close> and the token, answer with the token. \<open>deadline_ok\<close> and \<open>w\<close> are
  what setting the deadline and writing return. The connection that becomes the control channel is
  returned without the bytes of the frame; any other connection is closed.
\<close>

definition server_handshake ::
    "string \<Rightarrow> bool \<Rightarrow> write_result \<Rightarrow> conn \<Rightarrow> conn option \<times> effect list" where
  "server_handshake token deadline_ok w c =
     (if \<not> deadline_ok then (None, [Close (cid c)])
      else case ReceiveBinaryTransportString NetConn (input c) of
             ((msg, transport, err), rest) \<Rightarrow>
               if transport \<noteq> SG_Chan then (None, [Close (cid c)])
               else if err \<noteq> None then (None, [Close (cid c)])
               else if msg \<noteq> token then (None, [Close (cid c)])
               else case send_transport w c token SG_Chan of
                      (es, True) \<Rightarrow> (Some (c\<lparr>input := rest\<rparr>), es)
                    | (es, False) \<Rightarrow> (None, es @ [Close (cid c)]))"

text \<open>The connections that present the token in a frame marked \<open>SG_Chan\<close>.\<close>

definition presents_token :: "string \<Rightarrow> conn \<Rightarrow> bool" where
  "presents_token token c \<longleftrightarrow>
     fst (ReceiveBinaryTransportString NetConn (input c)) = (token, SG_Chan, None)"

lemma presents_token_frame:
  "pending (input c) = transport_enc (token, SG_Chan) @ rest \<Longrightarrow> length token < 65536 \<Longrightarrow>
     presents_token token c"
  using transport_dec_wraps [of token SG_Chan rest "input c"]
  by (cases "input c")
     (auto simp: presents_token_def transport_dec_def split: prod.splits option.splits)

lemma server_handshake_eq:
  "server_handshake token ok w c =
     (if ok \<and> presents_token token c
      then case w of
             WriteOk \<Rightarrow> (Some (c\<lparr>input := snd (ReceiveBinaryTransportString NetConn (input c))\<rparr>),
                         [Wrote (cid c) (snd (SendBinaryTransportString NetConn WriteOk token SG_Chan))])
           | WriteErr k \<Rightarrow>
               (None, [Wrote (cid c) (snd (SendBinaryTransportString NetConn (WriteErr k) token SG_Chan)),
                       Close (cid c)])
      else (None, [Close (cid c)]))"
proof -
  obtain msg tr err rest where r: "ReceiveBinaryTransportString NetConn (input c) = ((msg, tr, err), rest)"
    by (metis surj_pair)
  show ?thesis
    by (cases w) (auto simp: server_handshake_def presents_token_def r send_transport_cases)
qed

lemma server_handshake_Some:
  "server_handshake token ok w c = (Some c', es) \<longleftrightarrow>
     ok \<and> w = WriteOk \<and> presents_token token c \<and>
     c' = c\<lparr>input := snd (ReceiveBinaryTransportString NetConn (input c))\<rparr> \<and>
     es = [Wrote (cid c) (snd (SendBinaryTransportString NetConn WriteOk token SG_Chan))]"
  by (auto simp: server_handshake_eq split: write_result.split)

lemma server_handshake_None:
  "server_handshake token ok w c = (None, es) \<Longrightarrow>
     gone es = [cid c] \<and> \<not> (ok \<and> w = WriteOk \<and> presents_token token c)"
  by (auto simp: server_handshake_eq split: if_splits write_result.splits)

section \<open>The control channel of a server\<close>

text \<open>
  The two goroutines of \<open>channelHandler\<close>: the reader above and the main loop, with the channel
  between them. An event is one thing a \<open>select\<close> can pick, with what the write it leads to
  returns.
\<close>

record ctl =
  rd :: "byte reader"
  messageChan :: "byte chan"
  main_running :: bool
  rtt_sent :: int

datatype ctl_event =
    ReaderCtxDone
  | ReaderReads "byte read_outcome"
  | ReaderSends
  | MainCtxDone write_result
  | MainReqNewConn write_result
  | MainTick write_result
  | MainMessage int

definition new_ctl :: "nat \<Rightarrow> ctl" where
  "new_ctl n = \<lparr>rd = new_reader, messageChan = make_chan n, main_running = True, rtt_sent = 0\<rparr>"

text \<open>The reading goroutine; it only touches its own fields and \<open>messageChan\<close>.\<close>

definition ctl_reader :: "ctl_event \<Rightarrow> bool \<Rightarrow> ctl \<Rightarrow> (ctl \<times> effect list) option" where
  "ctl_reader ev ctx_done c =
     (if \<not> running (rd c) then None
      else case ev of
        ReaderCtxDone \<Rightarrow>
          if ctx_done \<and> held (rd c) = None then Some (c\<lparr>rd := (rd c)\<lparr>running := False\<rparr>\<rparr>, []) else None
      | ReaderReads out \<Rightarrow>
          if held (rd c) = None then (let (r, es) = reader_read out (rd c) in Some (c\<lparr>rd := r\<rparr>, es)) else None
      | ReaderSends \<Rightarrow>
          (case reader_deliver (rd c) (messageChan c) of
             None \<Rightarrow> None
           | Some (r, ch) \<Rightarrow> Some (c\<lparr>rd := r, messageChan := ch\<rparr>, []))
      | _ \<Rightarrow> None)"

lemma ctl_reader_gone: "ctl_reader ev d c = Some (c', es) \<Longrightarrow> gone es = []"
  by (auto simp: ctl_reader_def reader_read_def Let_def
      split: if_splits ctl_event.splits option.splits prod.splits read_outcome.splits)

lemma reader_writes_nothing: "ctl_reader ev d k = Some (k', es) \<Longrightarrow> Wrote n bs \<notin> set es"
  by (auto simp: ctl_reader_def reader_read_def Let_def
      split: if_splits ctl_event.splits option.splits prod.splits read_outcome.splits)

section \<open>Restarting\<close>

text \<open>
  The contract of \<open>Restart\<close> in every transport: it is guarded by a mutex taken with \<open>TryLock\<close>, so
  calls made while one is running return at once. \<open>request\<close> is the part before the sleep, \<open>finish\<close>
  the part after it.
\<close>

locale restartable =
  fixes locked :: "'s \<Rightarrow> bool"
    and request :: "'s \<Rightarrow> 's \<times> effect list"
    and finish :: "'s \<Rightarrow> 's \<times> effect list"
  assumes skip: "locked s \<Longrightarrow> request s = (s, [])"
    and locks: "locked (fst (request s))"
    and unlocks: "\<not> locked (fst (finish s))"
    and starts: "snd (finish s) = [Go GStart]"
begin

fun requests :: "nat \<Rightarrow> 's \<Rightarrow> 's \<times> effect list" where
  "requests 0 s = (s, [])"
| "requests (Suc n) s =
     (let (s1, es) = request s; (s2, fs) = requests n s1 in (s2, es @ fs))"

lemma requests_locked: "locked s \<Longrightarrow> requests n s = (s, [])"
  by (induction n) (simp_all add: skip)

lemma requests_once: "0 < n \<Longrightarrow> requests n s = request s"
proof (cases n)
  case (Suc m)
  obtain s1 es where r: "request s = (s1, es)" by fastforce
  then have "locked s1" using locks [of s] by simp
  then show ?thesis using Suc r by (simp add: requests_locked)
qed simp

definition restart_with :: "nat \<Rightarrow> 's \<Rightarrow> 's \<times> effect list" where
  "restart_with n s =
     (let (s1, es) = requests n s; (s2, fs) = finish s1 in (s2, es @ fs))"

lemma restart_with_once: "0 < n \<Longrightarrow> restart_with n s = restart_with 1 s"
  by (simp add: restart_with_def requests_once split: prod.split)

lemma restart_with_starts_once:
  "Go GStart \<notin> set (snd (request s)) \<Longrightarrow> 0 < n \<Longrightarrow>
     filter (\<lambda>e. e = Go GStart) (snd (restart_with n s)) = [Go GStart] \<and>
     \<not> locked (fst (restart_with n s))"
proof -
  assume a: "Go GStart \<notin> set (snd (request s))" and n: "0 < n"
  obtain s1 es where r: "request s = (s1, es)" by fastforce
  obtain s2 fs where f: "finish s1 = (s2, fs)" by fastforce
  have "filter (\<lambda>e. e = Go GStart) es = []" using a r by (auto simp: filter_empty_conv)
  then show ?thesis
    using n r f starts [of s1] unlocks [of s1] by (simp add: restart_with_def requests_once)
qed

end

section \<open>Properties\<close>

text \<open>
  C25. The reader of a control channel stops, and starts a restart, exactly when three reads in a
  row failed; any successful read in between keeps the connection alive, whatever the number of
  failures before it.
\<close>

theorem reader_restarts_after_three_errors:
  "(\<not> running (fst (run_reader outs new_reader)) \<longleftrightarrow> three_errors outs) \<and>
   (Go GRestart \<in> set (snd (run_reader outs new_reader)) \<longleftrightarrow> three_errors outs)"
  using run_reader_stopped [of new_reader outs] by (simp add: new_reader_def)

end
