(* ===== verification/PortMap.thy ===== *)
theory PortMap
  imports GoStrings
begin

text \<open>
  The port mappings of the server configuration: \<open>parsePortMappings\<close>, which the five listening
  transports of \<open>internal/server/transport\<close> repeat line for line and which differ only in the
  goroutine they start for a mapping, and the older \<open>portConfigReader\<close> of the QUIC transport. A call
  of \<open>logger.Fatalf\<close> ends the process: the result holds the listeners started before it and the
  message.
\<close>

section \<open>One mapping\<close>

datatype fatal =
    InvalidRangeFormat string
  | InvalidStartPort string
  | InvalidEndPort string
  | InvalidPortFormat string
  | InvalidMappingFormat string

definition colon_port :: "int \<Rightarrow> string" where
  "colon_port port = CHR '':'' # itoa port"

definition bad_port :: "int option \<Rightarrow> bool" where
  "bad_port r = (case r of None \<Rightarrow> True | Some port \<Rightarrow> port < 1 \<or> 65535 < port)"

definition parse_range :: "string \<Rightarrow> fatal + int \<times> int" where
  "parse_range localPortOrRange =
     (let rangeParts = split_on CHR ''-'' localPortOrRange in
      if length rangeParts \<noteq> 2 then Inl (InvalidRangeFormat localPortOrRange)
      else
        let startPort = atoi (trim_space (rangeParts ! 0)) in
        if bad_port startPort then Inl (InvalidStartPort (rangeParts ! 0))
        else
          let endPort = atoi (trim_space (rangeParts ! 1)) in
          if bad_port endPort \<or> the endPort < the startPort then Inl (InvalidEndPort (rangeParts ! 1))
          else Inr (the startPort, the endPort))"

definition parse_mapping :: "string \<Rightarrow> fatal + (string \<times> string) list" where
  "parse_mapping portMapping =
     (let parts = split_on CHR ''='' portMapping in
      if length parts = 1 then
        let localPortOrRange = trim_space (parts ! 0) in
        if contains_char localPortOrRange CHR ''-'' then
          and_then (parse_range localPortOrRange) (\<lambda>(startPort, endPort).
            Inr (map (\<lambda>port. (colon_port port, itoa port)) [startPort..endPort]))
        else
          let port = atoi localPortOrRange in
          if bad_port port then Inl (InvalidPortFormat localPortOrRange)
          else Inr [(colon_port (the port), localPortOrRange)]
      else if length parts = 2 then
        let localPortOrRange = trim_space (parts ! 0); remoteAddr = trim_space (parts ! 1) in
        if contains_char localPortOrRange CHR ''-'' then
          and_then (parse_range localPortOrRange) (\<lambda>(startPort, endPort).
            Inr (map (\<lambda>port. (colon_port port, remoteAddr)) [startPort..endPort]))
        else
          (case atoi localPortOrRange of
             Some port \<Rightarrow>
               if 1 < port \<and> port < 65535 then Inr [(colon_port port, remoteAddr)]
               else Inr [(localPortOrRange, remoteAddr)]
           | None \<Rightarrow> Inr [(localPortOrRange, remoteAddr)])
      else Inl (InvalidMappingFormat portMapping))"

section \<open>The whole list\<close>

text \<open>The loop over \<open>s.config.Ports\<close>: it stops at the first fatal mapping.\<close>

fun walk_mappings :: "(string \<Rightarrow> fatal + (string \<times> string) list) \<Rightarrow> string list
    \<Rightarrow> (string \<times> string) list \<times> fatal option" where
  "walk_mappings parse [] = ([], None)"
| "walk_mappings parse (m # ms) =
     (case parse m of
        Inl e \<Rightarrow> ([], Some e)
      | Inr ls \<Rightarrow> (case walk_mappings parse ms of (ls', f) \<Rightarrow> (ls @ ls', f)))"

text \<open>The goroutines a transport starts for a mapping.\<close>

datatype listener = TcpListener string string | UdpListener string string

definition tcp_startListeners :: "bool \<Rightarrow> string \<times> string \<Rightarrow> listener list" where
  "tcp_startListeners acceptUDP lr =
     TcpListener (fst lr) (snd lr) # (if acceptUDP then [UdpListener (fst lr) (snd lr)] else [])"

definition start_all :: "(string \<times> string \<Rightarrow> listener list) \<Rightarrow> (string \<Rightarrow> fatal + (string \<times> string) list)
    \<Rightarrow> string list \<Rightarrow> listener list \<times> fatal option" where
  "start_all start parse ports =
     (case walk_mappings parse ports of (ls, f) \<Rightarrow> (concat (map start ls), f))"

definition tcp_parsePortMappings :: "bool \<Rightarrow> string list \<Rightarrow> listener list \<times> fatal option" where
  "tcp_parsePortMappings acceptUDP = start_all (tcp_startListeners acceptUDP) parse_mapping"

definition tcpmux_parsePortMappings :: "string list \<Rightarrow> listener list \<times> fatal option" where
  "tcpmux_parsePortMappings = start_all (\<lambda>(l, r). [TcpListener l r]) parse_mapping"

definition ws_parsePortMappings :: "string list \<Rightarrow> listener list \<times> fatal option" where
  "ws_parsePortMappings = start_all (\<lambda>(l, r). [TcpListener l r]) parse_mapping"

definition wsmux_parsePortMappings :: "string list \<Rightarrow> listener list \<times> fatal option" where
  "wsmux_parsePortMappings = start_all (\<lambda>(l, r). [TcpListener l r]) parse_mapping"

definition udp_parsePortMappings :: "string list \<Rightarrow> listener list \<times> fatal option" where
  "udp_parsePortMappings = start_all (\<lambda>(l, r). [UdpListener l r]) parse_mapping"

text \<open>
  The QUIC transport: no ranges and no bounds; with more than one \<open>=\<close> the parts after the second
  are dropped.
\<close>

definition quic_parse_mapping :: "string \<Rightarrow> fatal + (string \<times> string) list" where
  "quic_parse_mapping portMapping =
     (let parts = split_on CHR ''='' portMapping in
      if length parts < 2 then
        (case atoi (parts ! 0) of
           None \<Rightarrow> Inl (InvalidMappingFormat portMapping)
         | Some port \<Rightarrow> Inr [(colon_port port, trim_space (itoa port))])
      else
        let localAddr = trim_space (parts ! 0);
            localAddr' = (case atoi localAddr of Some _ \<Rightarrow> CHR '':'' # localAddr | None \<Rightarrow> localAddr)
        in Inr [(localAddr', trim_space (parts ! 1))])"

definition quic_portConfigReader :: "string list \<Rightarrow> listener list \<times> fatal option" where
  "quic_portConfigReader = start_all (\<lambda>(l, r). [TcpListener l r]) quic_parse_mapping"

section \<open>Lemmas\<close>

definition valid_port :: "int \<Rightarrow> bool" where
  "valid_port p \<longleftrightarrow> 1 \<le> p \<and> p \<le> 65535"

lemma valid_port_int64: "valid_port p \<Longrightarrow> in_int64 p"
  by (simp add: valid_port_def in_int64_def)

lemma atoi_port [simp]: "valid_port p \<Longrightarrow> atoi (itoa p) = Some p"
  by (simp add: atoi_itoa valid_port_int64)

lemma length_itoa_port: "valid_port p \<Longrightarrow> length (itoa p) < 65536"
  using length_nat_digits [of "nat p"] by (auto simp: valid_port_def itoa_def max_def split: if_splits)

lemma bad_port_iff: "bad_port r \<longleftrightarrow> \<not> (\<exists>p. r = Some p \<and> valid_port p)"
  by (cases r) (auto simp: bad_port_def valid_port_def)

lemma port_chars:
  assumes "valid_port p"
  shows "CHR ''-'' \<notin> set (itoa p)" "CHR ''='' \<notin> set (itoa p)" "CHR '':'' \<notin> set (itoa p)"
    "trim_space (itoa p) = itoa p"
  using assms itoa_plain [of p] trim_itoa [of p] by (simp_all add: valid_port_def)

lemma no_space_range:
  assumes "valid_port a" "valid_port b"
  shows "trim_space (itoa a @ CHR ''-'' # itoa b) = itoa a @ CHR ''-'' # itoa b"
proof (rule trim_space_id)
  have d: "valid_port p \<Longrightarrow> x \<in> set (itoa p) \<Longrightarrow> \<not> is_space x" for p x
    using itoa_nonneg_digits [of p x] digit_not_special [of x] by (simp add: valid_port_def)
  show "\<forall>x\<in>set (itoa a @ CHR ''-'' # itoa b). \<not> is_space x"
    using d [OF assms(1)] d [OF assms(2)] by (auto simp: is_space_def)
qed

lemma parse_range_ports:
  "valid_port a \<Longrightarrow> valid_port b \<Longrightarrow> a \<le> b \<Longrightarrow> parse_range (itoa a @ CHR ''-'' # itoa b) = Inr (a, b)"
  by (simp add: parse_range_def split_on_app split_on_absent port_chars bad_port_iff)

lemma parse_range_Inr:
  "parse_range s = Inr (a, b) \<Longrightarrow> valid_port a \<and> valid_port b \<and> a \<le> b"
  by (auto simp: parse_range_def Let_def bad_port_iff split: if_splits)

lemma colon_port_inj: "valid_port p \<Longrightarrow> valid_port q \<Longrightarrow> colon_port p = colon_port q \<Longrightarrow> p = q"
  by (simp add: colon_port_def itoa_inj valid_port_int64)

text \<open>The walk over the list: success means every mapping parsed, and the first failure stops it.\<close>

lemma walk_mappings_ok:
  "snd (walk_mappings parse ms) = None \<longleftrightarrow> (\<forall>m\<in>set ms. is_ok (parse m))"
  by (induction ms) (auto split: sum.splits prod.splits)

lemma walk_mappings_stops:
  "list_all (\<lambda>m. is_ok (parse m)) ms \<Longrightarrow> parse m = Inl e \<Longrightarrow>
     walk_mappings parse (ms @ m # ms') = (fst (walk_mappings parse ms), Some e)"
  by (induction ms) (auto split: sum.splits prod.splits)

lemma walk_mappings_listeners:
  "lr \<in> set (fst (walk_mappings parse ms)) \<Longrightarrow> \<exists>m\<in>set ms. \<exists>ls. parse m = Inr ls \<and> lr \<in> set ls"
  by (induction ms) (auto split: sum.splits prod.splits)


lemma parse_mapping_range:
  "valid_port a \<Longrightarrow> valid_port b \<Longrightarrow> a \<le> b \<Longrightarrow>
     parse_mapping (itoa a @ CHR ''-'' # itoa b) = Inr (map (\<lambda>p. (colon_port p, itoa p)) [a..b])"
  by (simp add: parse_mapping_def split_on_absent port_chars no_space_range contains_char_def
      parse_range_ports)

lemma parse_mapping_range_to:
  "valid_port a \<Longrightarrow> valid_port b \<Longrightarrow> a \<le> b \<Longrightarrow> CHR ''='' \<notin> set r \<Longrightarrow>
     parse_mapping (itoa a @ CHR ''-'' # itoa b @ CHR ''='' # r)
       = Inr (map (\<lambda>p. (colon_port p, trim_space r)) [a..b])"
proof -
  assume h: "valid_port a" "valid_port b" "a \<le> b" "CHR ''='' \<notin> set r"
  have "split_on CHR ''='' ((itoa a @ CHR ''-'' # itoa b) @ CHR ''='' # r)
      = [itoa a @ CHR ''-'' # itoa b, r]"
    using h by (subst split_on_app) (simp_all add: split_on_absent port_chars)
  with h show ?thesis
    by (simp add: parse_mapping_def no_space_range contains_char_def parse_range_ports)
qed

lemma parse_mapping_port:
  "valid_port p \<Longrightarrow> parse_mapping (itoa p) = Inr [(colon_port p, itoa p)]"
  by (simp add: parse_mapping_def split_on_absent port_chars contains_char_def bad_port_iff)

lemma parse_mapping_port_to:
  "valid_port p \<Longrightarrow> CHR ''='' \<notin> set r \<Longrightarrow>
     parse_mapping (itoa p @ CHR ''='' # r)
       = Inr [(if 1 < p \<and> p < 65535 then colon_port p else itoa p, trim_space r)]"
  by (simp add: parse_mapping_def Let_def split_on_app split_on_absent port_chars contains_char_def)

lemma parse_mapping_addr_to:
  assumes "CHR ''='' \<notin> set l" "CHR ''-'' \<notin> set l" "CHR ''='' \<notin> set r" "atoi (trim_space l) = None"
  shows "parse_mapping (l @ CHR ''='' # r) = Inr [(trim_space l, trim_space r)]"
  using assms set_trim_space [of l]
  by (auto simp: parse_mapping_def Let_def split_on_app split_on_absent contains_char_def)

text \<open>Every listener of a parsed mapping: a port within the bounds, or the local side verbatim.\<close>

definition port_listener :: "string \<Rightarrow> bool" where
  "port_listener l \<longleftrightarrow> (\<exists>p. valid_port p \<and> l = colon_port p)"

lemma port_listenerI: "valid_port p \<Longrightarrow> port_listener (colon_port p)"
  by (auto simp: port_listener_def)

lemma range_listener:
  "parse_range s = Inr (a, b) \<Longrightarrow> a \<le> p \<Longrightarrow> p \<le> b \<Longrightarrow> port_listener (colon_port p)"
  using parse_range_Inr [of s a b] by (auto simp: valid_port_def intro: port_listenerI)

definition local_side :: "string \<Rightarrow> string" where
  "local_side m = trim_space (split_on CHR ''='' m ! 0)"

lemma parse_mapping_sound:
  assumes "parse_mapping m = Inr ls" "(l, r) \<in> set ls"
  shows "port_listener l \<or>
    (length (split_on CHR ''='' m) = 2 \<and> l = local_side m \<and> CHR ''-'' \<notin> set l)"
proof (cases "CHR ''-'' \<in> set (local_side m)")
  case True
  with assms have "port_listener l"
    by (auto simp: parse_mapping_def Let_def contains_char_def and_then_Inr_iff
        local_side_def split: if_splits) (rule range_listener, assumption+)+
  then show ?thesis ..
next
  case False
  have "1 < p \<Longrightarrow> p < 65535 \<Longrightarrow> port_listener (colon_port p)" for p
    by (auto simp: valid_port_def intro: port_listenerI)
  with False assms show ?thesis
    by (auto simp: parse_mapping_def Let_def contains_char_def bad_port_iff local_side_def
        split: if_splits option.splits intro: port_listenerI)
qed

lemma parse_mapping_distinct:
  assumes "parse_mapping m = Inr ls"
  shows "distinct (map fst ls) \<and> ls \<noteq> [] \<and> length ls \<le> 65535"
proof -
  have r: "distinct (map colon_port [a..b]) \<and> a \<le> b \<and> length [a..b] \<le> 65535"
    if "parse_range s = Inr (a, b)" for s a b
  proof -
    have ab: "valid_port a" "valid_port b" "a \<le> b"
      using parse_range_Inr [OF that] by simp_all
    have "inj_on colon_port (set [a..b])"
      by (rule inj_onI) (use ab in \<open>auto simp: valid_port_def intro: colon_port_inj\<close>)
    then show ?thesis using ab by (simp add: distinct_map valid_port_def)
  qed
  show ?thesis
    using assms r
    by (fastforce simp: parse_mapping_def Let_def and_then_Inr_iff comp_def
        split: if_splits option.splits)
qed

section \<open>Properties\<close>

lemma start_all_single:
  "start_all start parse [m] =
     (case parse m of Inl e \<Rightarrow> ([], Some e) | Inr ls \<Rightarrow> (concat (map start ls), None))"
  by (simp add: start_all_def split: sum.split)

lemma start_all_stops:
  "list_all (\<lambda>m. is_ok (parse m)) ms \<Longrightarrow> parse m = Inl e \<Longrightarrow>
     start_all start parse (ms @ m # ms') = (fst (start_all start parse ms), Some e)"
  by (simp add: start_all_def walk_mappings_stops split: prod.splits)

lemma start_all_listeners:
  "x \<in> set (fst (start_all start parse ms)) \<Longrightarrow>
     \<exists>m\<in>set ms. \<exists>ls lr. parse m = Inr ls \<and> lr \<in> set ls \<and> x \<in> set (start lr)"
proof -
  assume "x \<in> set (fst (start_all start parse ms))"
  then obtain lr where "lr \<in> set (fst (walk_mappings parse ms))" "x \<in> set (start lr)"
    by (auto simp: start_all_def split: prod.splits)
  then show ?thesis using walk_mappings_listeners by blast
qed



text \<open>
  C17. No listener outside the valid ports is ever derived from a number: each address the TCP
  transport listens on is \<open>:p\<close> with \<open>p\<close> in 1..65535, or is, character for character, the trimmed
  left side of a mapping \<open>l=r\<close> of the configuration, without a hyphen.
\<close>

theorem listeners_within_bounds:
  assumes "TcpListener l r \<in> set (fst (tcp_parsePortMappings acceptUDP ports))"
  shows "port_listener l \<or>
    (\<exists>m\<in>set ports. length (split_on CHR ''='' m) = 2 \<and> l = local_side m \<and> CHR ''-'' \<notin> set l)"
proof -
  obtain m ls where m: "m \<in> set ports" "parse_mapping m = Inr ls" "(l, r) \<in> set ls"
    using start_all_listeners [OF assms [unfolded tcp_parsePortMappings_def]]
    by (auto simp: tcp_startListeners_def split: if_splits)
  from parse_mapping_sound [OF m(2,3)] m(1) show ?thesis by blast
qed

theorem listeners_within_bounds_witness:
  "TcpListener '':8080'' ''8080'' \<in> set (fst (tcp_parsePortMappings True [''8080''])) \<and>
   (port_listener '':8080'' \<or>
    (\<exists>m\<in>set [''8080'']. length (split_on CHR ''='' m) = 2 \<and> '':8080'' = local_side m
       \<and> CHR ''-'' \<notin> set '':8080''))"
proof -
  have "itoa 8080 = ''8080''" by (simp add: itoa_eval)
  then have m: "TcpListener '':8080'' ''8080'' \<in> set (fst (tcp_parsePortMappings True [''8080'']))"
    using parse_mapping_port [of 8080]
    by (simp add: tcp_parsePortMappings_def tcp_startListeners_def start_all_single valid_port_def colon_port_def)
  from m listeners_within_bounds [OF m] show ?thesis by blast
qed

text \<open>
  The mapping of a single boundary port to a remote address is not recognised as a port: for 1
  and 65535 the left side is passed on as an address without a colon, although the same port is
  accepted alone and in a range.
\<close>

theorem boundary_port_mapping:
  assumes "p = 1 \<or> p = 65535" "CHR ''='' \<notin> set r"
  shows "tcp_parsePortMappings False [itoa p @ CHR ''='' # r] = ([TcpListener (itoa p) (trim_space r)], None)
    \<and> CHR '':'' \<notin> set (itoa p)
    \<and> tcp_parsePortMappings False [itoa p] = ([TcpListener (colon_port p) (itoa p)], None)
    \<and> tcp_parsePortMappings False [itoa p @ CHR ''-'' # itoa p @ CHR ''='' # r] =
      ([TcpListener (colon_port p) (trim_space r)], None)"
proof -
  have v: "valid_port p" using assms(1) by (auto simp: valid_port_def)
  then show ?thesis
    using assms
    by (auto simp: tcp_parsePortMappings_def tcp_startListeners_def start_all_single port_chars
        parse_mapping_port parse_mapping_port_to parse_mapping_range_to)
qed

theorem boundary_port_mapping_witness:
  "tcp_parsePortMappings False [itoa 65535 @ CHR ''='' # ''10.0.0.1:80''] =
     ([TcpListener (itoa 65535) ''10.0.0.1:80''], None)"
proof -
  have "trim_space ''10.0.0.1:80'' = ''10.0.0.1:80''" by code_simp
  then show ?thesis using boundary_port_mapping [of 65535 "''10.0.0.1:80''"] by simp
qed

text \<open>
  The server example of the README (\<open>443-600\<close>, \<open>443-600:5201\<close>, \<open>443-600=1.1.1.1:5201\<close>): the
  first mapping starts its 158 listeners, the second ends the process, because \<open>600:5201\<close> is read
  as the end of the range.
\<close>

theorem readme_example_is_fatal:
  "wsmux_parsePortMappings [''443-600'', ''443-600:5201'', ''443-600=1.1.1.1:5201''] =
     (map (\<lambda>p. TcpListener (colon_port p) (itoa p)) [443..600], Some (InvalidEndPort ''600:5201''))"
proof -
  have "parse_mapping ''443-600'' = Inr (map (\<lambda>p. (colon_port p, itoa p)) [443..600])"
  proof -
    have "itoa 443 = ''443''" "itoa 600 = ''600''" by (simp_all add: itoa_eval)
    then show ?thesis using parse_mapping_range [of 443 600] by (simp add: valid_port_def)
  qed
  moreover have "parse_mapping ''443-600:5201'' = Inl (InvalidEndPort ''600:5201'')"
    by code_simp
  ultimately show ?thesis
    using start_all_stops [where ms = "[''443-600'']" and m = "''443-600:5201''"
        and start = "\<lambda>(l, r). [TcpListener l r]" and ms' = "[''443-600=1.1.1.1:5201'']"]
    by (simp add: wsmux_parsePortMappings_def start_all_single comp_def case_prod_beta)
qed

end
