(* ===== verification/SrvTcp.thy ===== *)
theory SrvTcp
  imports Control PortMap
begin

text \<open>
  The TCP server, \<open>internal/server/transport/tcp.go\<close>: its struct as the record \<open>TcpServer\<close>, one
  definition per method. A method that loops is given as one pass of its loop; a \<open>select\<close> with
  several ready cases is a choice of the caller (the event, or the branch), and what the network
  returns is an argument. Every definition returns the effects in the order of the code.
\<close>

section \<open>State\<close>

record TcpConfig =
  BindAddr :: string
  Token :: string
  SnifferLog :: string
  TunnelStatus :: string
  Ports :: "string list"
  Nodelay :: bool
  Sniffer :: bool
  KeepAlive :: int
  Heartbeat :: int
  ChannelSize :: nat
  WebPort :: int
  AcceptUDP :: bool

text \<open>
  \<open>ctx_done\<close> is \<open>ctx.Err() != nil\<close> of the current context, \<open>monitor\<close> counts the calls of
  \<open>NewDataStore\<close> (which store the transport reports to), \<open>locked\<close> is \<open>restartMutex\<close>.
\<close>

record TcpServer =
  config :: TcpConfig
  ctx_done :: bool
  tunnelChannel :: "conn chan"
  localChannel :: "LocalTCPConn chan"
  reqNewConnChan :: "unit chan"
  controlChannel :: "conn option"
  locked :: bool
  monitor :: nat
  rtt :: int

definition NewTCPServer :: "TcpConfig \<Rightarrow> TcpServer" where
  "NewTCPServer cfg =
     \<lparr>config = cfg, ctx_done = False, tunnelChannel = make_chan (ChannelSize cfg),
      localChannel = make_chan (ChannelSize cfg), reqNewConnChan = make_chan (ChannelSize cfg),
      controlChannel = None, locked = False, monitor = 0, rtt = 0\<rparr>"

definition tcp_set_status :: "string \<Rightarrow> TcpServer \<Rightarrow> TcpServer" where
  "tcp_set_status st s = s\<lparr>config := (config s)\<lparr>TunnelStatus := st\<rparr>\<rparr>"

section \<open>Start and Restart\<close>

text \<open>\<open>Start\<close> up to the call of \<open>channelHandshake\<close>, and after it returned.\<close>

definition tcp_Start :: "TcpServer \<Rightarrow> TcpServer \<times> effect list" where
  "tcp_Start s =
     (tcp_set_status ''Disconnected (TCP)'' s,
      (if 0 < WebPort (config s) then [Go GMonitor] else []) @ [Go GTunnelListener])"

definition tcp_Start_connected :: "nat \<Rightarrow> TcpServer \<Rightarrow> TcpServer \<times> effect list" where
  "tcp_Start_connected cpus s =
     (if controlChannel s \<noteq> None
      then (tcp_set_status ''Connected (TCP)'' s,
            [Go GParsePortMappings, Go GChannelHandler] @
            replicate (if 4 < cpus then 4 else cpus) (Go GHandleLoop))
      else (s, []))"

text \<open>
  \<open>Restart\<close>: the guard and what happens before the two seconds of sleep (\<open>tcp_Restart\<close>), and what
  happens after it (\<open>tcp_Restart_finish\<close>); the other goroutines run in between.
\<close>

definition tcp_Restart :: "TcpServer \<Rightarrow> TcpServer \<times> effect list" where
  "tcp_Restart s =
     (if locked s then (s, [])
      else (s\<lparr>locked := True, ctx_done := True\<rparr>,
            (case controlChannel s of None \<Rightarrow> [] | Some c \<Rightarrow> [Close (cid c)]) @ [Sleep 2]))"

definition tcp_Restart_finish :: "TcpServer \<Rightarrow> TcpServer \<times> effect list" where
  "tcp_Restart_finish s =
     (tcp_set_status '''' s
        \<lparr>ctx_done := False,
         tunnelChannel := make_chan (ChannelSize (config s)),
         localChannel := make_chan (ChannelSize (config s)),
         reqNewConnChan := make_chan (ChannelSize (config s)),
         monitor := monitor s + 1,
         controlChannel := None,
         locked := False\<rparr>,
      [Go GStart])"

interpretation tcp_restart: restartable locked tcp_Restart tcp_Restart_finish
  by unfold_locales (auto simp: tcp_Restart_def tcp_Restart_finish_def tcp_set_status_def)

section \<open>The control channel\<close>

text \<open>One pass of \<open>channelHandshake\<close> that picks a connection; \<open>True\<close> when it returns.\<close>

definition tcp_channelHandshake ::
    "bool \<Rightarrow> write_result \<Rightarrow> TcpServer \<Rightarrow> (TcpServer \<times> bool \<times> effect list) option" where
  "tcp_channelHandshake deadline_ok w s =
     (case take_chan (tunnelChannel s) of
        None \<Rightarrow> None
      | Some (c, ch) \<Rightarrow>
          (let s' = s\<lparr>tunnelChannel := ch\<rparr>
           in case server_handshake (Token (config s)) deadline_ok w c of
                (None, es) \<Rightarrow> Some (s', False, es)
              | (Some c', es) \<Rightarrow> Some (s'\<lparr>controlChannel := Some c'\<rparr>, True, es)))"

text \<open>
  \<open>channelHandler\<close>: it sends the RTT signal (\<open>tcp_channelHandler_begin\<close>) and then runs its loop and
  the reader; \<open>None\<close> when the event cannot happen. Without a control channel the sends would panic;
  \<open>Start\<close> calls it only with one.
\<close>

definition tcp_channelHandler_begin ::
    "write_result \<Rightarrow> int \<Rightarrow> TcpServer \<Rightarrow> (ctl \<times> effect list) option" where
  "tcp_channelHandler_begin w now s =
     (case controlChannel s of
        None \<Rightarrow> None
      | Some cc \<Rightarrow>
          (case send_signal w cc SG_RTT of
             (es, True) \<Rightarrow> Some ((new_ctl 1)\<lparr>rtt_sent := now\<rparr>, es)
           | (es, False) \<Rightarrow> Some ((new_ctl 1)\<lparr>rtt_sent := now, main_running := False\<rparr>, es @ [Go GRestart])))"

definition tcp_channelHandler ::
    "ctl_event \<Rightarrow> TcpServer \<times> ctl \<Rightarrow> ((TcpServer \<times> ctl) \<times> effect list) option" where
  "tcp_channelHandler ev sc =
     (case sc of (s, c) \<Rightarrow> case controlChannel s of None \<Rightarrow> None | Some cc \<Rightarrow>
        (case ev of
           MainCtxDone w \<Rightarrow>
             if main_running c \<and> ctx_done s
             then Some ((s, c\<lparr>main_running := False\<rparr>), fst (send_signal w cc SG_Closed))
             else None
         | MainReqNewConn w \<Rightarrow>
             if \<not> main_running c then None
             else (case take_chan (reqNewConnChan s) of
                None \<Rightarrow> None
              | Some (_, ch) \<Rightarrow>
                  (case send_signal w cc SG_Chan of
                     (es, True) \<Rightarrow> Some ((s\<lparr>reqNewConnChan := ch\<rparr>, c), es)
                   | (es, False) \<Rightarrow>
                       Some ((s\<lparr>reqNewConnChan := ch\<rparr>, c\<lparr>main_running := False\<rparr>), es @ [Go GRestart])))
         | MainTick w \<Rightarrow>
             if \<not> main_running c then None
             else (case send_signal w cc SG_HB of
                (es, True) \<Rightarrow> Some ((s, c), es)
              | (es, False) \<Rightarrow> Some ((s, c\<lparr>main_running := False\<rparr>), es @ [Go GRestart]))
         | MainMessage now \<Rightarrow>
             if \<not> main_running c then None
             else (case take_chan (messageChan c) of
                None \<Rightarrow> None
              | Some (m, ch) \<Rightarrow>
                  if m = SG_Closed
                  then Some ((s, c\<lparr>messageChan := ch, main_running := False\<rparr>), [Go GRestart])
                  else if m = SG_RTT
                  then Some ((s\<lparr>rtt := now - rtt_sent c\<rparr>, c\<lparr>messageChan := ch\<rparr>), [])
                  else Some ((s, c\<lparr>messageChan := ch\<rparr>), []))
         | _ \<Rightarrow>
             (case ctl_reader ev (ctx_done s) c of
                None \<Rightarrow> None
              | Some (c', es) \<Rightarrow> Some ((s, c'), es))))"

section \<open>Accepting connections\<close>

text \<open>One pass of the loop of \<open>acceptTunnelConn\<close> whose context is not done.\<close>

definition tcp_acceptTunnelConn :: "accept_result \<Rightarrow> TcpServer \<Rightarrow> TcpServer \<times> effect list" where
  "tcp_acceptTunnelConn r s =
     (case r of
        AcceptErr \<Rightarrow> (s, [])
      | Accepted c \<Rightarrow>
          if \<not> is_tcp c then (s, [Close (cid c)])
          else if (case controlChannel s of None \<Rightarrow> False | Some cc \<Rightarrow> peer_ip cc \<noteq> peer_ip c)
          then (s, [Close (cid c)])
          else case offer c (tunnelChannel s) of
                 (ch, True) \<Rightarrow> (s\<lparr>tunnelChannel := ch\<rparr>, [])
               | (_, False) \<Rightarrow> (s, [Close (cid c)]))"

text \<open>One pass of the loop of \<open>acceptLocalConn\<close>, for the listener with target \<open>remote\<close>.\<close>

definition tcp_acceptLocalConn ::
    "string \<Rightarrow> int \<Rightarrow> accept_result \<Rightarrow> TcpServer \<Rightarrow> TcpServer \<times> effect list" where
  "tcp_acceptLocalConn remote now r s =
     (case r of
        AcceptErr \<Rightarrow> (s, [])
      | Accepted c \<Rightarrow>
          if \<not> is_tcp c then (s, [Close (cid c)])
          else case offer \<lparr>lconn = c, remoteAddr = remote, timeCreated = now\<rparr> (localChannel s) of
                 (ch, True) \<Rightarrow>
                   (s\<lparr>localChannel := ch, reqNewConnChan := fst (offer () (reqNewConnChan s))\<rparr>, [])
               | (_, False) \<Rightarrow> (s, [Close (cid c)]))"

section \<open>Pairing\<close>

text \<open>
  Where a \<open>handleLoop\<close> goroutine is: at the outer \<open>select\<close>, at the head of the inner loop with a
  local connection (where the age is checked), at the inner \<open>select\<close>, or returned.
\<close>

datatype handle_loop = Idle | AtCheck LocalTCPConn | AtSelect LocalTCPConn | Returned

datatype loop_event = LoopCtxDone | LoopTakeLocal | LoopCheck int | LoopTakeTunnel write_result

definition tcp_handleLoop ::
    "loop_event \<Rightarrow> TcpServer \<times> handle_loop \<Rightarrow> ((TcpServer \<times> handle_loop) \<times> effect list) option" where
  "tcp_handleLoop ev sl =
     (case (ev, sl) of
        (LoopCtxDone, (s, Idle)) \<Rightarrow> if ctx_done s then Some ((s, Returned), []) else None
      | (LoopCtxDone, (s, AtSelect l)) \<Rightarrow> if ctx_done s then Some ((s, Returned), []) else None
      | (LoopTakeLocal, (s, Idle)) \<Rightarrow>
          (case take_chan (localChannel s) of
             None \<Rightarrow> None
           | Some (l, ch) \<Rightarrow> Some ((s\<lparr>localChannel := ch\<rparr>, AtCheck l), []))
      | (LoopCheck now, (s, AtCheck l)) \<Rightarrow>
          if 3000 < now - timeCreated l then Some ((s, Idle), [Close (cid (lconn l))])
          else Some ((s, AtSelect l), [])
      | (LoopTakeTunnel w, (s, AtSelect l)) \<Rightarrow>
          (case take_chan (tunnelChannel s) of
             None \<Rightarrow> None
           | Some (t, ch) \<Rightarrow>
               (let s' = s\<lparr>tunnelChannel := ch\<rparr>
                in case send_transport w t (remoteAddr l) SG_TCP of
                     (es, False) \<Rightarrow> Some ((s', AtCheck l), es @ [Close (cid t)])
                   | (es, True) \<Rightarrow>
                       Some ((s', Idle),
                             es @ [Piped (cid (lconn l)) (cid t) (local_port (lconn l)) (Sniffer (config s))])))
      | _ \<Rightarrow> None)"

end
