(* ===== verification/SrvAcceptUdp.thy ===== *)
theory SrvAcceptUdp
  imports SrvTcp
begin

text \<open>
  UDP accepted by the TCP server, \<open>internal/server/transport/accept_udp.go\<close>: the bookkeeping of
  one \<open>udpListener\<close>, its \<open>handleUDPLoop\<close> and the \<open>UDPConnectionHandler\<close>s. The connections are
  shared through pointers, so they live in a heap: a \<open>LocalAcceptUDPConn\<close> is an index of
  \<open>uconns\<close>. A send on a closed payload channel and a second close of it are panics, the result
  \<open>None\<close>.
\<close>

section \<open>State\<close>

record LocalAcceptUDPConn =
  u_timeCreated :: int
  payload :: "bytes chan"
  u_remoteAddr :: string
  clientAddr :: string
  IsCongested :: bool

datatype udp_loop = UIdle | UWaiting nat | UReturned

text \<open>\<open>handling\<close> holds the connections with a running \<open>UDPConnectionHandler\<close>.\<close>

record udp_listener =
  uport :: int
  uconns :: "LocalAcceptUDPConn list"
  activeConnections :: "string \<rightharpoonup> nat"
  udpChan :: "nat chan"
  uloop :: udp_loop
  handling :: "nat list"

definition payloadCap :: nat where "payloadCap = 100000"

definition new_listener :: "int \<Rightarrow> nat \<Rightarrow> udp_listener" where
  "new_listener port n = \<lparr>uport = port, uconns = [], activeConnections = Map.empty, udpChan = make_chan n,
     uloop = UIdle, handling = []\<rparr>"

definition upd_conn :: "nat \<Rightarrow> (LocalAcceptUDPConn \<Rightarrow> LocalAcceptUDPConn) \<Rightarrow> udp_listener \<Rightarrow> udp_listener" where
  "upd_conn i f u = u\<lparr>uconns := (uconns u)[i := f (uconns u ! i)]\<rparr>"

section \<open>One packet\<close>

text \<open>The branch for a key that has no usable connection: a new one, offered to \<open>udpChan\<close>.\<close>

definition udp_new_conn ::
    "string \<Rightarrow> int \<Rightarrow> string \<Rightarrow> bytes \<Rightarrow> unit chan \<times> udp_listener \<Rightarrow> unit chan \<times> udp_listener" where
  "udp_new_conn remote now key data ru =
     (case ru of (req, u) \<Rightarrow>
        let i = length (uconns u);
            c = \<lparr>u_timeCreated = now, payload = make_chan payloadCap, u_remoteAddr = remote,
                 clientAddr = key, IsCongested = False\<rparr>;
            u1 = u\<lparr>uconns := uconns u @ [c], activeConnections := (activeConnections u)(key \<mapsto> i)\<rparr>
        in case offer i (udpChan u1) of
             (ch, True) \<Rightarrow>
               (fst (offer () req),
                upd_conn i (\<lambda>c. c\<lparr>payload := fst (offer data (payload c))\<rparr>) (u1\<lparr>udpChan := ch\<rparr>))
           | (_, False) \<Rightarrow> (req, u1))"

text \<open>
  One pass of the reading loop of \<open>udpListener\<close>: \<open>key\<close> is \<open>addr.String()\<close>, \<open>data\<close> the bytes read
  (at most \<open>BufferSize - 2\<close>).
\<close>

definition udp_packet ::
    "string \<Rightarrow> int \<Rightarrow> string \<Rightarrow> bytes \<Rightarrow> unit chan \<times> udp_listener \<Rightarrow> (unit chan \<times> udp_listener) option" where
  "udp_packet remote now key data ru =
     (case ru of (req, u) \<Rightarrow>
        (case activeConnections u key of
           Some i \<Rightarrow>
             if IsCongested (uconns u ! i) then Some (udp_new_conn remote now key data ru)
             else (case send data (payload (uconns u ! i)) of
                     Sent ch \<Rightarrow> Some (req, upd_conn i (\<lambda>c. c\<lparr>payload := ch\<rparr>) u)
                   | WouldBlock \<Rightarrow> Some (req, u)
                   | SendPanic \<Rightarrow> None)
         | None \<Rightarrow> Some (udp_new_conn remote now key data ru)))"

section \<open>Handling\<close>

datatype udp_event =
    UCtxDone
  | UTakeConn
  | UTakeTunnel write_result

text \<open>\<open>handleUDPLoop\<close>; the tunnel connections come from the server's \<open>tunnelChannel\<close>.\<close>

definition handleUDPLoop ::
    "udp_event \<Rightarrow> TcpServer \<times> udp_listener \<Rightarrow> ((TcpServer \<times> udp_listener) \<times> effect list) option" where
  "handleUDPLoop ev su =
     (case su of (s, u) \<Rightarrow>
        (case (ev, uloop u) of
           (UCtxDone, UIdle) \<Rightarrow> if ctx_done s then Some ((s, u\<lparr>uloop := UReturned\<rparr>), []) else None
         | (UCtxDone, UWaiting i) \<Rightarrow> if ctx_done s then Some ((s, u\<lparr>uloop := UReturned\<rparr>), []) else None
         | (UTakeConn, UIdle) \<Rightarrow>
             (case take_chan (udpChan u) of
                None \<Rightarrow> None
              | Some (i, ch) \<Rightarrow> Some ((s, u\<lparr>udpChan := ch, uloop := UWaiting i\<rparr>), []))
         | (UTakeTunnel w, UWaiting i) \<Rightarrow>
             (case take_chan (tunnelChannel s) of
                None \<Rightarrow> None
              | Some (t, ch) \<Rightarrow>
                  (let s' = s\<lparr>tunnelChannel := ch\<rparr>
                   in case send_transport w t (u_remoteAddr (uconns u ! i)) SG_UDP of
                        (es, False) \<Rightarrow> Some ((s', u), es @ [Close (cid t)])
                      | (es, True) \<Rightarrow> Some ((s', u\<lparr>uloop := UIdle, handling := i # handling u\<rparr>),
                              es @ [PipedUDP i (cid t) (uport u) (Sniffer (config s)) (rtt s)])))
         | _ \<Rightarrow> None))"

text \<open>
  \<open>UDPConnectionHandler\<close>: while it runs, one direction drains the payload channel
  (\<open>udp_drain\<close>) and the other may set \<open>IsCongested\<close> (\<open>udp_congest\<close>); when both are done it closes
  the payload channel and, unless congested, forgets the client (\<open>udp_finish\<close>).
\<close>

definition udp_drain :: "nat \<Rightarrow> udp_listener \<Rightarrow> (udp_listener \<times> bytes) option" where
  "udp_drain i u =
     (if i \<in> set (handling u)
      then (case take_chan (payload (uconns u ! i)) of
              None \<Rightarrow> None
            | Some (data, ch) \<Rightarrow> Some (upd_conn i (\<lambda>c. c\<lparr>payload := ch\<rparr>) u, data))
      else None)"

definition udp_congest :: "nat \<Rightarrow> udp_listener \<Rightarrow> udp_listener" where
  "udp_congest i u = upd_conn i (\<lambda>c. c\<lparr>IsCongested := True\<rparr>) u"

definition udp_finish :: "nat \<Rightarrow> udp_listener \<Rightarrow> udp_listener option" where
  "udp_finish i u =
     (case close_chan (payload (uconns u ! i)) of
        None \<Rightarrow> None
      | Some ch \<Rightarrow>
          (let u1 = upd_conn i (\<lambda>c. c\<lparr>payload := ch\<rparr>) (u\<lparr>handling := removeAll i (handling u)\<rparr>)
           in Some (if \<not> IsCongested (uconns u ! i)
                    then u1\<lparr>activeConnections := (activeConnections u1)(clientAddr (uconns u ! i) := None)\<rparr>
                    else u1)))"

section \<open>The listener as a state machine\<close>

text \<open>
  One step of the listener with its handlers; \<open>None\<close> is a panic of the process. The loop is seen
  from the listener's side: it takes a connection and, later, starts its handler.
\<close>

inductive udp_step :: "udp_listener \<Rightarrow> udp_listener option \<Rightarrow> bool" where
  packet: "udp_packet remote now key data (req, u) = Some (req', u') \<Longrightarrow> udp_step u (Some u')"
| packet_panic: "udp_packet remote now key data (req, u) = None \<Longrightarrow> udp_step u None"
| loop: "handleUDPLoop ev (s, u) = Some ((s', u'), es) \<Longrightarrow> udp_step u (Some u')"
| drain: "udp_drain i u = Some (u', data) \<Longrightarrow> udp_step u (Some u')"
| congest: "i \<in> set (handling u) \<Longrightarrow> udp_step u (Some (udp_congest i u))"
| finish: "i \<in> set (handling u) \<Longrightarrow> udp_finish i u = Some u' \<Longrightarrow> udp_step u (Some u')"
| finish_panic: "i \<in> set (handling u) \<Longrightarrow> udp_finish i u = None \<Longrightarrow> udp_step u None"

inductive udp_reach :: "int \<Rightarrow> nat \<Rightarrow> udp_listener option \<Rightarrow> bool" for port n where
  start: "udp_reach port n (Some (new_listener port n))"
| step: "udp_reach port n (Some u) \<Longrightarrow> udp_step u r \<Longrightarrow> udp_reach port n r"

inductive_cases udp_stepE: "udp_step u r"

text \<open>The connections on their way to a handler, each with the payload channel open.\<close>

definition pending_conns :: "udp_listener \<Rightarrow> nat list" where
  "pending_conns u = buf (udpChan u) @ (case uloop u of UWaiting i \<Rightarrow> [i] | _ \<Rightarrow> []) @ handling u"

definition conn_open :: "udp_listener \<Rightarrow> nat \<Rightarrow> bool" where
  "conn_open u i \<longleftrightarrow> \<not> is_closed (payload (uconns u ! i))"

definition udp_inv :: "udp_listener \<Rightarrow> bool" where
  "udp_inv u \<longleftrightarrow>
     (\<forall>key i. activeConnections u key = Some i \<longrightarrow>
        i < length (uconns u) \<and> clientAddr (uconns u ! i) = key \<and>
        (IsCongested (uconns u ! i) \<or> conn_open u i)) \<and>
     distinct (pending_conns u) \<and>
     (\<forall>i\<in>set (pending_conns u). i < length (uconns u) \<and> conn_open u i \<and>
        (\<not> IsCongested (uconns u ! i) \<longrightarrow> activeConnections u (clientAddr (uconns u ! i)) = Some i))"

lemma udp_invD:
  assumes "udp_inv u"
  shows "activeConnections u key = Some i \<Longrightarrow>
      i < length (uconns u) \<and> clientAddr (uconns u ! i) = key \<and> (IsCongested (uconns u ! i) \<or> conn_open u i)"
    and "distinct (pending_conns u)"
    and "i \<in> set (pending_conns u) \<Longrightarrow> i < length (uconns u) \<and> conn_open u i \<and>
        (\<not> IsCongested (uconns u ! i) \<longrightarrow> activeConnections u (clientAddr (uconns u ! i)) = Some i)"
  using assms unfolding udp_inv_def by blast+

lemma udp_inv_new: "udp_inv (new_listener port n)"
  by (simp add: udp_inv_def new_listener_def pending_conns_def)

lemma upd_conn_simps [simp]:
  "length (uconns (upd_conn i f u)) = length (uconns u)"
  "activeConnections (upd_conn i f u) = activeConnections u"
  "udpChan (upd_conn i f u) = udpChan u"
  "uloop (upd_conn i f u) = uloop u"
  "handling (upd_conn i f u) = handling u"
  "pending_conns (upd_conn i f u) = pending_conns u"
  by (simp_all add: upd_conn_def pending_conns_def)

lemma nth_upd_conn [simp]:
  "uconns (upd_conn i f u) ! j =
     (if j = i \<and> i < length (uconns u) then f (uconns u ! i) else uconns u ! j)"
  by (cases "i < length (uconns u)") (auto simp: upd_conn_def nth_list_update list_update_beyond)

text \<open>Changing only the content of an open payload channel, or the flag, keeps the invariant.\<close>

lemma udp_inv_upd:
  assumes "udp_inv u"
    and "\<And>c. clientAddr (f c) = clientAddr c"
    and "\<And>c. is_closed (payload (f c)) = is_closed (payload c)"
    and "\<And>c. IsCongested c \<Longrightarrow> IsCongested (f c)"
  shows "udp_inv (upd_conn i f u)"
  unfolding udp_inv_def
proof (intro conjI allI impI ballI)
  show "distinct (pending_conns (upd_conn i f u))"
    using udp_invD(2) [OF assms(1)] by simp
next
  fix key j assume "activeConnections (upd_conn i f u) key = Some j"
  then have "activeConnections u key = Some j" by simp
  from udp_invD(1) [OF assms(1) this]
  show "j < length (uconns (upd_conn i f u))"
    "clientAddr (uconns (upd_conn i f u) ! j) = key"
    "IsCongested (uconns (upd_conn i f u) ! j) \<or> conn_open (upd_conn i f u) j"
    using assms(2-4) by (auto simp: conn_open_def)
next
  fix j assume "j \<in> set (pending_conns (upd_conn i f u))"
  then have "j \<in> set (pending_conns u)" by simp
  from udp_invD(3) [OF assms(1) this]
  show "j < length (uconns (upd_conn i f u))" "conn_open (upd_conn i f u) j"
    "\<not> IsCongested (uconns (upd_conn i f u) ! j) \<Longrightarrow>
      activeConnections (upd_conn i f u) (clientAddr (uconns (upd_conn i f u) ! j)) = Some j"
    using assms(2-4) by (auto simp: conn_open_def split: if_splits)
qed

lemma udp_inv_payload:
  assumes inv: "udp_inv u" and ch: "is_closed ch = is_closed (payload (uconns u ! i))"
  shows "udp_inv (upd_conn i (\<lambda>c. c\<lparr>payload := ch\<rparr>) u)"
proof -
  have "upd_conn i (\<lambda>c. c\<lparr>payload := ch\<rparr>) u =
      upd_conn i (\<lambda>c. if is_closed (payload c) = is_closed ch then c\<lparr>payload := ch\<rparr> else c) u"
    using ch by (simp add: upd_conn_def)
  then show ?thesis using udp_inv_upd [OF inv] by simp
qed

lemma udp_inv_congest: "udp_inv u \<Longrightarrow> udp_inv (udp_congest i u)"
  unfolding udp_congest_def by (rule udp_inv_upd) simp_all

lemma udp_inv_cong:
  assumes "udp_inv u" "uconns u' = uconns u" "activeConnections u' = activeConnections u"
    "mset (pending_conns u') = mset (pending_conns u)"
  shows "udp_inv u'"
proof -
  have "set (pending_conns u') = set (pending_conns u)"
    using assms(4) by (rule mset_eq_setD)
  moreover have "distinct (pending_conns u')"
    using assms(1,4) by (metis udp_invD(2) mset_eq_imp_distinct_iff)
  ultimately show ?thesis
    using assms by (simp add: udp_inv_def conn_open_def)
qed

lemma udp_inv_new_conn:
  assumes inv: "udp_inv u"
    and free: "\<And>i. activeConnections u key = Some i \<Longrightarrow> IsCongested (uconns u ! i)"
    and res: "udp_new_conn remote now key data (req, u) = (req', u')"
  shows "udp_inv u'"
proof -
  let ?i = "length (uconns u)"
  let ?c = "\<lparr>u_timeCreated = now, payload = make_chan payloadCap, u_remoteAddr = remote,
                 clientAddr = key, IsCongested = False\<rparr>"
  let ?u1 = "u\<lparr>uconns := uconns u @ [?c], activeConnections := (activeConnections u)(key \<mapsto> ?i)\<rparr>"
  have p1: "pending_conns ?u1 = pending_conns u"
    by (simp add: pending_conns_def)
  have n: "\<And>j. j < ?i \<Longrightarrow> (uconns u @ [?c]) ! j = uconns u ! j"
    by (simp add: nth_append)
  have fresh: "?i \<notin> set (pending_conns u)"
    using udp_invD(3) [OF inv] by blast
  have act: "activeConnections u k = Some j \<Longrightarrow> j < ?i \<and> j < Suc ?i \<and> clientAddr (uconns u ! j) = k \<and>
      (IsCongested (uconns u ! j) \<or> conn_open u j)" for k j
    using udp_invD(1) [OF inv] less_SucI by blast
  have pend: "j \<in> set (pending_conns u) \<Longrightarrow> j < ?i \<and> j < Suc ?i \<and> conn_open u j \<and>
      (\<not> IsCongested (uconns u ! j) \<longrightarrow>
         activeConnections u (clientAddr (uconns u ! j)) = Some j \<and> clientAddr (uconns u ! j) \<noteq> key)" for j
    using udp_invD(3) [OF inv, of j] free by auto
  have i1: "udp_inv ?u1"
    unfolding udp_inv_def p1
    using act pend udp_invD(2) [OF inv] by (auto simp: conn_open_def n)
  show ?thesis
  proof (cases rule: offer_cases [of "udpChan u" ?i])
    case full
    then show ?thesis using res i1 by (simp add: udp_new_conn_def Let_def)
  next
    case stored
    let ?u2 = "?u1\<lparr>udpChan := (udpChan u)\<lparr>buf := buf (udpChan u) @ [?i]\<rparr>\<rparr>"
    have p2: "mset (pending_conns ?u2) = mset (?i # pending_conns u)"
      by (simp add: pending_conns_def)
    then have s2: "set (pending_conns ?u2) = insert ?i (set (pending_conns u))"
      by (metis list.simps(15) mset_eq_setD)
    have d2: "distinct (pending_conns ?u2)"
      using p2 fresh udp_invD(2) [OF inv] by (metis distinct.simps(2) mset_eq_imp_distinct_iff)
    have "udp_inv ?u2"
      unfolding udp_inv_def s2
      using act pend d2 by (auto simp: conn_open_def n)
    then have "udp_inv (upd_conn ?i (\<lambda>c. c\<lparr>payload := fst (offer data (payload c))\<rparr>) ?u2)"
      by (rule udp_inv_upd) (simp_all add: chan_simps)
    then show ?thesis using res stored by (simp add: udp_new_conn_def Let_def)
  qed
qed

text \<open>Every step keeps the invariant.\<close>

lemma udp_packet_inv:
  assumes inv: "udp_inv u" and res: "udp_packet remote now key data (req, u) = Some (req', u')"
  shows "udp_inv u'"
proof (cases "activeConnections u key")
  case None
  then show ?thesis
    using res inv udp_inv_new_conn [of u key remote now data req req' u'] by (simp add: udp_packet_def)
next
  case (Some i)
  show ?thesis
  proof (cases "IsCongested (uconns u ! i)")
    case True
    then show ?thesis
      using res inv Some udp_inv_new_conn [of u key remote now data req req' u'] by (simp add: udp_packet_def)
  next
    case False
    show ?thesis
      using res Some False inv
      by (auto simp: udp_packet_def send_def intro: udp_inv_payload split: if_splits)
  qed
qed

lemma udp_packet_no_panic: "udp_inv u \<Longrightarrow> udp_packet remote now key data (req, u) \<noteq> None"
  using udp_invD(1) [of u key]
  by (auto simp: udp_packet_def conn_open_def send_def split: option.split)

lemma handleUDPLoop_inv:
  assumes inv: "udp_inv u" and res: "handleUDPLoop ev (s, u) = Some ((s', u'), es)"
  shows "udp_inv u'"
proof -
  have "uconns u' = uconns u \<and> activeConnections u' = activeConnections u \<and>
      (mset (pending_conns u') = mset (pending_conns u) \<or>
       (\<exists>i. uloop u = UWaiting i \<and> uloop u' = UReturned \<and> udpChan u' = udpChan u \<and> handling u' = handling u))"
    using res
    by (auto simp: handleUDPLoop_def pending_conns_def chan_simps Let_def
        split: udp_event.splits udp_loop.splits option.splits prod.splits if_splits bool.splits)
  moreover have "udp_inv u'" if "uconns u' = uconns u" "activeConnections u' = activeConnections u"
    "uloop u = UWaiting i" "uloop u' = UReturned" "udpChan u' = udpChan u" "handling u' = handling u" for i
  proof -
    have "distinct (pending_conns u')" "set (pending_conns u') \<subseteq> set (pending_conns u)"
      using that udp_invD(2) [OF inv] by (auto simp: pending_conns_def)
    then show ?thesis using that inv unfolding udp_inv_def conn_open_def by auto
  qed
  ultimately show ?thesis using inv udp_inv_cong by metis
qed

lemma udp_drain_inv: "udp_inv u \<Longrightarrow> udp_drain i u = Some (u', data) \<Longrightarrow> udp_inv u'"
proof -
  assume inv: "udp_inv u" and res: "udp_drain i u = Some (u', data)"
  then obtain xs where "u' = upd_conn i (\<lambda>c. c\<lparr>payload := (payload (uconns u ! i))\<lparr>buf := xs\<rparr>\<rparr>) u"
    by (auto simp: udp_drain_def chan_simps split: if_splits option.splits)
  then show ?thesis by (simp add: udp_inv_payload [OF inv])
qed

lemma handling_pending: "i \<in> set (handling u) \<Longrightarrow> i \<in> set (pending_conns u)"
  by (simp add: pending_conns_def)

lemma udp_finish_no_panic: "udp_inv u \<Longrightarrow> i \<in> set (handling u) \<Longrightarrow> udp_finish i u \<noteq> None"
  using udp_invD(3) [of u i] handling_pending [of i u]
  by (simp add: udp_finish_def conn_open_def close_chan_def Let_def)

lemma udp_finish_inv:
  assumes inv: "udp_inv u" and i: "i \<in> set (handling u)" and res: "udp_finish i u = Some u'"
  shows "udp_inv u'"
proof -
  have ip: "i < length (uconns u)" "conn_open u i"
    "\<not> IsCongested (uconns u ! i) \<Longrightarrow> activeConnections u (clientAddr (uconns u ! i)) = Some i"
    using udp_invD(3) [OF inv handling_pending [OF i]] by auto
  let ?u1 = "upd_conn i (\<lambda>c. c\<lparr>payload := (payload (uconns u ! i))\<lparr>is_closed := True\<rparr>\<rparr>)
               (u\<lparr>handling := removeAll i (handling u)\<rparr>)"
  have u': "u' = (if \<not> IsCongested (uconns u ! i)
      then ?u1\<lparr>activeConnections := (activeConnections ?u1)(clientAddr (uconns u ! i) := None)\<rparr> else ?u1)"
    using res ip by (simp add: udp_finish_def conn_open_def close_chan_def Let_def)
  have d: "distinct (pending_conns u)" using udp_invD(2) [OF inv] .
  then have "i \<notin> set (buf (udpChan u))" "uloop u \<noteq> UWaiting i"
    using i by (auto simp: pending_conns_def)
  then have pu: "pending_conns u' = removeAll i (pending_conns u)"
    unfolding u' by (cases "uloop u") (simp_all add: pending_conns_def)
  have len: "length (uconns u') = length (uconns u)" unfolding u' by simp
  have other: "j \<noteq> i \<Longrightarrow> uconns u' ! j = uconns u ! j" for j unfolding u' by simp
  have same: "clientAddr (uconns u' ! i) = clientAddr (uconns u ! i)"
    "IsCongested (uconns u' ! i) = IsCongested (uconns u ! i)" unfolding u' by simp_all
  have act: "activeConnections u' k = (if \<not> IsCongested (uconns u ! i) \<and> k = clientAddr (uconns u ! i)
      then None else activeConnections u k)" for k
    unfolding u' by simp
  show ?thesis
    unfolding udp_inv_def pu len
  proof (intro conjI allI impI ballI)
    fix k j assume "activeConnections u' k = Some j"
    then have a: "activeConnections u k = Some j"
      "IsCongested (uconns u ! i) \<or> k \<noteq> clientAddr (uconns u ! i)"
      by (auto simp: act split: if_splits)
    note b = udp_invD(1) [OF inv a(1)]
    show "j < length (uconns u)" using b by simp
    show "clientAddr (uconns u' ! j) = k" using b other [of j] same by (cases "j = i") auto
    show "IsCongested (uconns u' ! j) \<or> conn_open u' j"
      using a b other [of j] same by (cases "j = i") (auto simp: conn_open_def)
  next
    show "distinct (removeAll i (pending_conns u))" using d by (simp add: distinct_removeAll)
  next
    fix j assume "j \<in> set (removeAll i (pending_conns u))"
    then have j: "j \<in> set (pending_conns u)" "j \<noteq> i" by auto
    note b = udp_invD(3) [OF inv j(1)]
    show "j < length (uconns u)" "conn_open u' j" using b other [OF j(2)] by (auto simp: conn_open_def)
    show "activeConnections u' (clientAddr (uconns u' ! j)) = Some j"
      if "\<not> IsCongested (uconns u' ! j)"
      using that b other [OF j(2)] ip(3) j(2) by (auto simp: act)
  qed
qed

lemma udp_step_inv: "udp_inv u \<Longrightarrow> udp_step u r \<Longrightarrow> \<exists>u'. r = Some u' \<and> udp_inv u'"
  by (erule udp_stepE)
     (auto intro: udp_packet_inv handleUDPLoop_inv udp_drain_inv udp_inv_congest udp_finish_inv
       dest: udp_packet_no_panic udp_finish_no_panic)

lemma udp_reach_inv: "udp_reach port n r \<Longrightarrow> \<exists>u. r = Some u \<and> udp_inv u"
proof (induction rule: udp_reach.induct)
  case start
  then show ?case by (simp add: udp_inv_new)
next
  case (step u r)
  then show ?case using udp_step_inv by auto
qed

text \<open>
  A client whose entry points to a connection that is in no queue and has no handler.
\<close>

definition orphaned :: "udp_listener \<Rightarrow> string \<Rightarrow> nat \<Rightarrow> bool" where
  "orphaned u key i \<longleftrightarrow> activeConnections u key = Some i \<and> i < length (uconns u) \<and>
     \<not> IsCongested (uconns u ! i) \<and> i \<notin> set (pending_conns u)"

lemma udp_new_conn_full:
  assumes "\<not> length (buf (udpChan u)) < cap (udpChan u)" "udp_inv u"
    and "udp_new_conn remote now key data (req, u) = (req', u')"
  shows "req' = req \<and> orphaned u' key (length (uconns u))"
proof -
  have "length (uconns u) \<notin> set (pending_conns u)"
    using udp_invD(3) [OF assms(2)] by blast
  then show ?thesis
    using assms by (auto simp: udp_new_conn_def chan_simps Let_def orphaned_def pending_conns_def)
qed

lemma udp_new_conn_other:
  assumes "udp_new_conn remote now k data (req, u) = (req', u')"
    and "orphaned u key i" "k \<noteq> key"
  shows "orphaned u' key i"
  using assms
  by (cases rule: offer_cases [of "udpChan u" "length (uconns u)"])
     (auto simp: udp_new_conn_def Let_def orphaned_def pending_conns_def nth_append upd_conn_def
       nth_list_update)

lemma orphaned_packet:
  assumes "orphaned u key i" "udp_packet remote now k data (req, u) = Some (req', u')"
  shows "orphaned u' key i"
proof (cases "activeConnections u k")
  case None
  then have "k \<noteq> key" using assms(1) by (auto simp: orphaned_def)
  then show ?thesis using assms None udp_new_conn_other by (auto simp: udp_packet_def)
next
  case (Some j)
  show ?thesis
  proof (cases "IsCongested (uconns u ! j)")
    case True
    then have "k \<noteq> key" using assms(1) Some by (auto simp: orphaned_def)
    then show ?thesis using assms Some True udp_new_conn_other by (auto simp: udp_packet_def)
  next
    case False
    then show ?thesis
      using assms Some by (auto simp: udp_packet_def send_def orphaned_def split: if_splits)
  qed
qed

lemma orphaned_step:
  assumes inv: "udp_inv u" and o: "orphaned u key i" and st: "udp_step u (Some u')"
  shows "orphaned u' key i"
  using st
proof (cases rule: udp_step.cases)
  case (packet remote now k data req req')
  then show ?thesis using orphaned_packet [OF o] by simp
next
  case (loop ev s s' es)
  then show ?thesis
    using o
    by (auto simp: orphaned_def handleUDPLoop_def pending_conns_def chan_simps Let_def
        split: udp_event.splits udp_loop.splits option.splits prod.splits if_splits bool.splits)
next
  case (drain j data)
  then show ?thesis
    using o by (auto simp: udp_drain_def orphaned_def chan_simps split: if_splits option.splits)
next
  case (congest j)
  then have "j \<noteq> i" using o handling_pending [of j u] by (auto simp: orphaned_def)
  then show ?thesis using congest o by (auto simp: udp_congest_def orphaned_def)
next
  case (finish j)
  then have j: "j \<in> set (pending_conns u)" "j \<noteq> i"
    using o handling_pending [of j u] by (auto simp: orphaned_def)
  then have "\<not> IsCongested (uconns u ! j) \<Longrightarrow> clientAddr (uconns u ! j) \<noteq> key"
    using udp_invD(3) [OF inv j(1)] o by (auto simp: orphaned_def)
  then show ?thesis
    using finish o j by (auto simp: udp_finish_def close_chan_def orphaned_def pending_conns_def Let_def split: if_splits)
qed

definition udp_next :: "udp_listener \<Rightarrow> udp_listener \<Rightarrow> bool" where
  "udp_next u u' \<longleftrightarrow> udp_step u (Some u')"

lemma orphaned_forever:
  assumes "udp_next\<^sup>*\<^sup>* u u'" "udp_inv u" "orphaned u key i"
  shows "udp_inv u' \<and> orphaned u' key i"
  using assms
proof (induction rule: rtranclp_induct)
  case base
  then show ?case by simp
next
  case (step v w)
  then have v: "udp_inv v" "orphaned v key i" and st: "udp_step v (Some w)"
    by (simp_all add: udp_next_def)
  then show ?case using udp_step_inv [OF v(1) st] orphaned_step [OF v st] by auto
qed

section \<open>Properties\<close>



text \<open>
  C40. A client whose first packet arrives while \<open>udpChan\<close> is full is entered in
  \<open>activeConnections\<close> all the same and never gets a handler: in every later state its entry is
  there, its packets go to a channel nobody reads, and no connection is requested for it.
\<close>

theorem full_queue_black_holes_client:
  assumes "udp_reach port n (Some u)" "activeConnections u key = None"
    and "\<not> length (buf (udpChan u)) < cap (udpChan u)"
    and "udp_packet remote now key data (req, u) = Some (req', u1)"
    and "udp_next\<^sup>*\<^sup>* u1 u2"
  shows "req' = req \<and>
         (\<exists>i. activeConnections u2 key = Some i \<and> \<not> IsCongested (uconns u2 ! i) \<and>
              i \<notin> set (buf (udpChan u2)) \<and> uloop u2 \<noteq> UWaiting i \<and> i \<notin> set (handling u2))"
proof -
  have inv: "udp_inv u" using udp_reach_inv [OF assms(1)] by simp
  have new: "udp_new_conn remote now key data (req, u) = (req', u1)"
    using assms(2,4) by (simp add: udp_packet_def)
  from udp_new_conn_full [OF assms(3) inv this]
  have r: "req' = req" "orphaned u1 key (length (uconns u))" by auto
  have "udp_inv u1" using udp_packet_inv [OF inv assms(4)] .
  from orphaned_forever [OF assms(5) this r(2)] r(1)
  show ?thesis by (auto simp: orphaned_def pending_conns_def)
qed

theorem full_queue_black_holes_client_witness:
  "\<exists>u1. udp_packet ''80'' 5 ''10.0.0.9:4000'' [1, 2] (make_chan 3, new_listener 443 0) = Some (make_chan 3, u1) \<and>
        activeConnections u1 ''10.0.0.9:4000'' = Some 0 \<and> handling u1 = []"
proof -
  obtain u1 where u1: "udp_packet ''80'' 5 ''10.0.0.9:4000'' [1, 2] (make_chan 3, new_listener 443 0) =
      Some (make_chan 3, u1)" "u1 = u1" "activeConnections u1 ''10.0.0.9:4000'' = Some 0" "handling u1 = []"
    by (simp add: udp_packet_def udp_new_conn_def new_listener_def offer_def Let_def)
  have "\<not> length (buf (udpChan (new_listener 443 0))) < cap (udpChan (new_listener 443 0))"
    "activeConnections (new_listener 443 0) ''10.0.0.9:4000'' = None"
    by (simp_all add: new_listener_def)
  from full_queue_black_holes_client [OF udp_reach.start this(2,1) u1(1) rtranclp.rtrancl_refl]
  show ?thesis using u1 by blast
qed

end
