(* ===== verification/TcpWorld.thy ===== *)
theory TcpWorld
  imports SrvAcceptUdp
begin

text \<open>
  The TCP server with its goroutines between \<open>Start\<close> and the next \<open>Restart\<close>: a step relation whose
  steps are the definitions of \<open>SrvTcp\<close> and \<open>SrvAcceptUdp\<close> in any order. \<open>utargets\<close> holds the
  targets the UDP listeners were started with. Ghost fields record the
  connections that arrived, those that were closed or handed to a copying goroutine, those a
  cancelled context left behind, and those that arrived before there was a control channel.
\<close>

section \<open>The relation\<close>

record tcp_world =
  srv :: TcpServer
  shaking :: bool
  hloops :: "handle_loop list"
  uls :: "udp_listener list"
  utargets :: "string list"
  ctls :: "ctl option"
  arrived :: "nat list"
  done_ids :: "nat list"
  leaked :: "nat list"
  early :: "nat list"

definition tcp_init :: "TcpConfig \<Rightarrow> tcp_world" where
  "tcp_init cfg = \<lparr>srv = fst (tcp_Start (NewTCPServer cfg)), shaking = True, hloops = [], uls = [], utargets = [],
     ctls = None, arrived = [], done_ids = [], leaked = [], early = []\<rparr>"

fun holds :: "handle_loop \<Rightarrow> nat list" where
  "holds (AtCheck l) = [cid (lconn l)]"
| "holds (AtSelect l) = [cid (lconn l)]"
| "holds _ = []"

definition started_loops :: "effect list \<Rightarrow> nat" where
  "started_loops es = length (filter (\<lambda>e. e = Go GHandleLoop) es)"

text \<open>
  A step is labelled with its event, which names the operation and its arguments, and with the effects the
  operation had.
\<close>

datatype tcp_event =
    EvArrive conn
  | EvHandshake
  | EvConnected
  | EvBegin
  | EvControl ctl_event
  | EvLocal conn string
  | EvLoop nat loop_event
  | EvUdpListen string int
  | EvUdpPacket nat string
  | EvUdpLoop nat udp_event
  | EvCancelled

inductive tcp_step :: "tcp_world \<Rightarrow> tcp_event \<Rightarrow> effect list \<Rightarrow> tcp_world \<Rightarrow> bool" where
  tunnel: "\<lbrakk>\<not> ctx_done (srv w); cid c \<notin> set (arrived w);
            tcp_acceptTunnelConn (Accepted c) (srv w) = (s', es)\<rbrakk> \<Longrightarrow>
     tcp_step w (EvArrive c) es (w\<lparr>srv := s', arrived := arrived w @ [cid c], done_ids := done_ids w @ gone es,
       early := (if controlChannel (srv w) = None then early w @ [cid c] else early w)\<rparr>)"
| handshake: "\<lbrakk>shaking w; tcp_channelHandshake dl wr (srv w) = Some (s', stop, es)\<rbrakk> \<Longrightarrow>
     tcp_step w EvHandshake es (w\<lparr>srv := s', shaking := \<not> stop, done_ids := done_ids w @ gone es\<rparr>)"
| connected: "\<lbrakk>\<not> shaking w; hloops w = []; tcp_Start_connected cpus (srv w) = (s', es)\<rbrakk> \<Longrightarrow>
     tcp_step w EvConnected es (w\<lparr>srv := s', hloops := replicate (started_loops es) Idle\<rparr>)"
| begin_control: "\<lbrakk>\<not> shaking w; ctls w = None; tcp_channelHandler_begin wr now (srv w) = Some (k, es)\<rbrakk> \<Longrightarrow>
     tcp_step w EvBegin es (w\<lparr>ctls := Some k\<rparr>)"
| control: "\<lbrakk>ctls w = Some k; tcp_channelHandler ev (srv w, k) = Some ((s', k'), es)\<rbrakk> \<Longrightarrow>
     tcp_step w (EvControl ev) es (w\<lparr>srv := s', ctls := Some k'\<rparr>)"
| local: "\<lbrakk>\<not> shaking w; \<not> ctx_done (srv w); cid c \<notin> set (arrived w);
           tcp_acceptLocalConn remote now (Accepted c) (srv w) = (s', es)\<rbrakk> \<Longrightarrow>
     tcp_step w (EvLocal c remote) es
       (w\<lparr>srv := s', arrived := arrived w @ [cid c], done_ids := done_ids w @ gone es\<rparr>)"
| loop: "\<lbrakk>i < length (hloops w); tcp_handleLoop ev (srv w, hloops w ! i) = Some ((s', l'), es)\<rbrakk> \<Longrightarrow>
     tcp_step w (EvLoop i ev) es
      (w\<lparr>srv := s', hloops := (hloops w)[i := l'], done_ids := done_ids w @ gone es,
       leaked := leaked w @ (if ev = LoopCtxDone then holds (hloops w ! i) else [])\<rparr>)"
| udp_listen: "\<not> shaking w \<Longrightarrow> AcceptUDP (config (srv w)) \<Longrightarrow>
     tcp_step w (EvUdpListen remote port) []
       (w\<lparr>uls := uls w @ [new_listener port (ChannelSize (config (srv w)))], utargets := utargets w @ [remote]\<rparr>)"
| udp_receive: "\<lbrakk>i < length (uls w);
           udp_packet (utargets w ! i) now key data (reqNewConnChan (srv w), uls w ! i) = Some (req', u')\<rbrakk> \<Longrightarrow>
     tcp_step w (EvUdpPacket i key) [] (w\<lparr>srv := (srv w)\<lparr>reqNewConnChan := req'\<rparr>, uls := (uls w)[i := u']\<rparr>)"
| udp_handle: "\<lbrakk>i < length (uls w); handleUDPLoop uev (srv w, uls w ! i) = Some ((s', u'), es)\<rbrakk> \<Longrightarrow>
     tcp_step w (EvUdpLoop i uev) es (w\<lparr>srv := s', uls := (uls w)[i := u'], done_ids := done_ids w @ gone es\<rparr>)"
| cancelled: "tcp_step w EvCancelled [] (w\<lparr>srv := (srv w)\<lparr>ctx_done := True\<rparr>\<rparr>)"

inductive tcp_reach :: "TcpConfig \<Rightarrow> tcp_world \<Rightarrow> bool" for cfg where
  init: "tcp_reach cfg (tcp_init cfg)"
| step: "tcp_reach cfg w \<Longrightarrow> tcp_step w ev es w' \<Longrightarrow> tcp_reach cfg w'"

section \<open>Where a connection is\<close>

definition control_ids :: "conn option \<Rightarrow> nat list" where
  "control_ids cc = (case cc of None \<Rightarrow> [] | Some c \<Rightarrow> [cid c])"

definition srv_ids :: "TcpServer \<Rightarrow> nat multiset" where
  "srv_ids s = mset (conn_ids (buf (tunnelChannel s))) + mset (local_ids (buf (localChannel s))) +
               mset (control_ids (controlChannel s))"

definition loop_ids :: "handle_loop list \<Rightarrow> nat multiset" where
  "loop_ids ls = mset (concat (map holds ls))"

lemma loop_ids_update:
  "i < length ls \<Longrightarrow> loop_ids (ls[i := l]) + mset (holds (ls ! i)) = loop_ids ls + mset (holds l)"
proof (induction ls arbitrary: i)
  case Nil
  then show ?case by simp
next
  case (Cons x xs)
  then show ?case by (cases i) (auto simp: loop_ids_def ac_simps)
qed

lemma loop_ids_idle [simp]: "loop_ids (replicate n Idle) = {#}"
  by (induction n) (auto simp: loop_ids_def)

lemma control_ids_simps [simp]: "control_ids None = []" "control_ids (Some c) = [cid c]"
  by (simp_all add: control_ids_def)

lemma tunnel_ids:
  "tcp_acceptTunnelConn (Accepted c) s = (s', es) \<Longrightarrow>
     srv_ids s' + mset (gone es) = srv_ids s + {#cid c#}"
  by (auto simp: tcp_acceptTunnelConn_def srv_ids_def offer_def split: if_splits option.splits)

lemma local_ids_step:
  "tcp_acceptLocalConn remote now (Accepted c) s = (s', es) \<Longrightarrow>
     srv_ids s' + mset (gone es) = srv_ids s + {#cid c#}"
  by (auto simp: tcp_acceptLocalConn_def srv_ids_def offer_def split: if_splits)

lemma handshake_ids:
  assumes "tcp_channelHandshake dl wr s = Some (s', stop, es)" "controlChannel s = None"
  shows "srv_ids s' + mset (gone es) = srv_ids s \<and> (stop \<longleftrightarrow> controlChannel s' \<noteq> None)"
proof -
  obtain c ch where t: "take_chan (tunnelChannel s) = Some (c, ch)"
    using assms(1) by (auto simp: tcp_channelHandshake_def split: option.splits)
  then obtain cs where cs: "buf (tunnelChannel s) = c # cs" "ch = (tunnelChannel s)\<lparr>buf := cs\<rparr>"
    by (auto simp: chan_simps)
  show ?thesis
  proof (cases "server_handshake (Token (config s)) dl wr c")
    case (Pair r fs)
    show ?thesis
    proof (cases r)
      case None
      then show ?thesis
        using assms t cs Pair server_handshake_None [of "Token (config s)" dl wr c fs]
        by (auto simp: tcp_channelHandshake_def srv_ids_def)
    next
      case (Some c')
      then show ?thesis
        using assms t cs Pair
        by (auto simp: tcp_channelHandshake_def srv_ids_def server_handshake_Some)
    qed
  qed
qed

lemma loop_ids_step:
  assumes "tcp_handleLoop ev (s, l) = Some ((s', l'), es)"
  shows "srv_ids s' + mset (holds l') + mset (gone es) + (if ev = LoopCtxDone then mset (holds l) else {#}) =
         srv_ids s + mset (holds l)"
proof (cases ev)
  case (LoopTakeTunnel wr)
  then show ?thesis
    using assms
    by (cases l; cases wr)
       (auto simp: tcp_handleLoop_def srv_ids_def chan_simps Let_def send_transport_cases
         split: option.splits)
qed (use assms in \<open>cases l; force simp: tcp_handleLoop_def srv_ids_def chan_simps
        split: option.splits if_splits\<close>)+

lemma udp_ids_step:
  assumes "handleUDPLoop ev (s, u) = Some ((s', u'), es)"
  shows "srv_ids s' + mset (gone es) = srv_ids s"
proof (cases ev)
  case (UTakeTunnel wr)
  then show ?thesis
    using assms
    by (cases "uloop u"; cases wr)
       (auto simp: handleUDPLoop_def srv_ids_def chan_simps Let_def send_transport_cases
         split: option.splits)
qed (use assms in \<open>cases "uloop u"; force simp: handleUDPLoop_def srv_ids_def chan_simps
        split: option.splits if_splits\<close>)+

lemma control_step:
  assumes "tcp_channelHandler ev (s, k) = Some ((s', k'), es)"
  shows "tunnelChannel s' = tunnelChannel s \<and> localChannel s' = localChannel s \<and>
         controlChannel s' = controlChannel s \<and> config s' = config s \<and> ctx_done s' = ctx_done s"
  using assms
  by (cases ev)
     (auto simp: tcp_channelHandler_def split: option.splits if_splits prod.splits bool.splits)

lemma connected_step:
  "tcp_Start_connected cpus s = (s', es) \<Longrightarrow>
     tunnelChannel s' = tunnelChannel s \<and> localChannel s' = localChannel s \<and>
     reqNewConnChan s' = reqNewConnChan s \<and> controlChannel s' = controlChannel s \<and>
     ctx_done s' = ctx_done s \<and>
     (controlChannel s \<noteq> None \<longrightarrow> started_loops es = min 4 cpus) \<and> started_loops es \<le> 4"
  by (auto simp: tcp_Start_connected_def tcp_set_status_def started_loops_def split: if_splits)

section \<open>The invariant\<close>

definition tcp_inv :: "tcp_world \<Rightarrow> bool" where
  "tcp_inv w \<longleftrightarrow>
     mset (arrived w) = srv_ids (srv w) + loop_ids (hloops w) + mset (done_ids w) + mset (leaked w) \<and>
     distinct (arrived w) \<and>
     (shaking w \<longleftrightarrow> controlChannel (srv w) = None) \<and>
     (\<not> ctx_done (srv w) \<longrightarrow> leaked w = [])"

lemma tcp_init_inv: "tcp_inv (tcp_init cfg)"
  by (simp add: tcp_inv_def tcp_init_def tcp_Start_def tcp_set_status_def NewTCPServer_def srv_ids_def
      loop_ids_def)

lemma srv_ids_req [simp]: "srv_ids (s\<lparr>reqNewConnChan := ch\<rparr>) = srv_ids s"
  "srv_ids (s\<lparr>ctx_done := b\<rparr>) = srv_ids s"
  by (simp_all add: srv_ids_def)

lemma handshake_keeps:
  "tcp_channelHandshake dl wr s = Some (s', stop, es) \<Longrightarrow>
     ctx_done s' = ctx_done s \<and> config s' = config s"
  by (auto simp: tcp_channelHandshake_def Let_def split: option.splits prod.splits)

lemma accept_keeps:
  "tcp_acceptTunnelConn r s = (s', es) \<Longrightarrow>
     ctx_done s' = ctx_done s \<and> config s' = config s \<and> controlChannel s' = controlChannel s"
  "tcp_acceptLocalConn remote now r s = (s', es) \<Longrightarrow>
     ctx_done s' = ctx_done s \<and> config s' = config s \<and> controlChannel s' = controlChannel s \<and>
     tunnelChannel s' = tunnelChannel s"
  by (auto simp: tcp_acceptTunnelConn_def tcp_acceptLocalConn_def
      split: accept_result.splits if_splits option.splits prod.splits bool.splits)

lemma loop_keeps:
  "tcp_handleLoop ev (s, l) = Some ((s', l'), es) \<Longrightarrow>
     ctx_done s' = ctx_done s \<and> config s' = config s \<and> controlChannel s' = controlChannel s \<and>
     (ev = LoopCtxDone \<longrightarrow> ctx_done s)"
  by (auto simp: tcp_handleLoop_def Let_def
      split: loop_event.splits handle_loop.splits option.splits if_splits prod.splits bool.splits)

lemma udp_keeps:
  "handleUDPLoop ev (s, u) = Some ((s', u'), es) \<Longrightarrow>
     ctx_done s' = ctx_done s \<and> config s' = config s \<and> controlChannel s' = controlChannel s"
  by (auto simp: handleUDPLoop_def Let_def
      split: udp_event.splits udp_loop.splits option.splits if_splits prod.splits bool.splits)

lemma tcp_step_inv: "tcp_step w ev es w' \<Longrightarrow> tcp_inv w \<Longrightarrow> tcp_inv w'"
proof (induction rule: tcp_step.induct)
  case (tunnel w c s' es)
  then show ?case
    using tunnel_ids [OF tunnel(3)] accept_keeps(1) [OF tunnel(3)]
    by (auto simp: tcp_inv_def ac_simps)
next
  case (handshake w dl wr s' stop es)
  then show ?case
    using handshake_ids [OF handshake(2)] handshake_keeps [OF handshake(2)]
    by (auto simp: tcp_inv_def ac_simps)
next
  case (connected w cpus s' es)
  then show ?case
    using connected_step [OF connected(3)] by (simp add: tcp_inv_def srv_ids_def loop_ids_def)
next
  case (begin_control w wr now k es)
  then show ?case by (simp add: tcp_inv_def)
next
  case (control w k ev s' k' es)
  then show ?case using control_step [OF control(2)] by (simp add: tcp_inv_def srv_ids_def)
next
  case (local w c remote now s' es)
  then show ?case
    using local_ids_step [OF local(4)] accept_keeps(2) [OF local(4)]
    by (auto simp: tcp_inv_def ac_simps)
next
  case (loop i w ev s' l' es)
  let ?old = "mset (holds (hloops w ! i))"
  let ?leak = "if ev = LoopCtxDone then ?old else {#}"
  have a: "srv_ids s' + mset (holds l') + mset (gone es) + ?leak = srv_ids (srv w) + ?old"
    using loop_ids_step [OF loop(2)] .
  have b: "loop_ids ((hloops w)[i := l']) + ?old = loop_ids (hloops w) + mset (holds l')"
    using loop_ids_update [OF loop(1)] .
  have "srv_ids s' + loop_ids ((hloops w)[i := l']) + (mset (gone es) + ?leak) + ?old =
      (srv_ids s' + mset (holds l') + mset (gone es) + ?leak) + loop_ids (hloops w)"
    using b by (simp add: ac_simps)
  also have "\<dots> = srv_ids (srv w) + loop_ids (hloops w) + ?old"
    using a by (simp add: ac_simps)
  finally have "srv_ids s' + loop_ids ((hloops w)[i := l']) + (mset (gone es) + ?leak) =
      srv_ids (srv w) + loop_ids (hloops w)"
    by simp
  then show ?case
    using loop loop_keeps [OF loop(2)]
    by (auto simp: tcp_inv_def ac_simps)
next
  case (udp_listen w remote port)
  then show ?case by (simp add: tcp_inv_def)
next
  case (udp_receive i w now key data req' u')
  then show ?case by (simp add: tcp_inv_def)
next
  case (udp_handle i w uev s' u' es)
  then show ?case
    using udp_ids_step [OF udp_handle(2)] udp_keeps [OF udp_handle(2)]
    by (auto simp: tcp_inv_def ac_simps)
next
  case (cancelled w)
  then show ?case by (simp add: tcp_inv_def)
qed

lemma done_distinct:
  assumes "tcp_inv w"
  shows "distinct (done_ids w)"
proof -
  obtain xs where "mset xs = srv_ids (srv w) + loop_ids (hloops w) + mset (leaked w)"
    by (metis ex_mset)
  then have "mset (arrived w) = mset (xs @ done_ids w)"
    using assms by (simp add: tcp_inv_def)
  moreover have "distinct (arrived w)" using assms by (simp add: tcp_inv_def)
  ultimately show ?thesis by (metis distinct_append mset_eq_imp_distinct_iff)
qed

lemma tcp_reach_inv: "tcp_reach cfg w \<Longrightarrow> tcp_inv w"
  by (induction rule: tcp_reach.induct) (auto intro: tcp_init_inv tcp_step_inv)

section \<open>Peers and bounds\<close>

text \<open>
  The channels stay within \<open>channel_size\<close>, the token is that of the configuration, at most four
  handle loops run, and a queued tunnel connection that arrived when there was a control channel has its
  address.
\<close>

definition tcp_safe :: "TcpConfig \<Rightarrow> tcp_world \<Rightarrow> bool" where
  "tcp_safe cfg w \<longleftrightarrow>
     chan_ok (tunnelChannel (srv w)) \<and> cap (tunnelChannel (srv w)) = ChannelSize cfg \<and>
     chan_ok (localChannel (srv w)) \<and> cap (localChannel (srv w)) = ChannelSize cfg \<and>
     Token (config (srv w)) = Token cfg \<and> length (hloops w) \<le> 4 \<and>
     (\<forall>cc. controlChannel (srv w) = Some cc \<longrightarrow>
        (\<forall>c\<in>set (buf (tunnelChannel (srv w))). peer_ip c = peer_ip cc \<or> cid c \<in> set (early w))) \<and>
     (controlChannel (srv w) = None \<longrightarrow>
        (\<forall>c\<in>set (buf (tunnelChannel (srv w))). cid c \<in> set (early w)))"

lemma tcp_init_safe: "tcp_safe cfg (tcp_init cfg)"
  by (simp add: tcp_safe_def tcp_init_def tcp_Start_def tcp_set_status_def NewTCPServer_def)

lemma tunnel_safe:
  assumes "tcp_acceptTunnelConn (Accepted c) s = (s', es)"
  shows "localChannel s' = localChannel s \<and>
         (s' = s \<or> (\<exists>ch. offer c (tunnelChannel s) = (ch, True) \<and> s' = s\<lparr>tunnelChannel := ch\<rparr> \<and>
            is_tcp c \<and> (\<forall>cc. controlChannel s = Some cc \<longrightarrow> peer_ip cc = peer_ip c)))"
  using assms
  by (cases rule: offer_cases [of "tunnelChannel s" c])
     (auto simp: tcp_acceptTunnelConn_def split: if_splits option.splits)

lemma handshake_safe:
  assumes "tcp_channelHandshake dl wr s = Some (s', stop, es)"
  shows "\<exists>c cs. buf (tunnelChannel s) = c # cs \<and> tunnelChannel s' = (tunnelChannel s)\<lparr>buf := cs\<rparr> \<and>
           localChannel s' = localChannel s \<and>
           (controlChannel s' = controlChannel s \<and> \<not> stop \<or>
            stop \<and> controlChannel s' =
              Some (c\<lparr>input := snd (ReceiveBinaryTransportString NetConn (input c))\<rparr>) \<and>
            presents_token (Token (config s)) c)"
  using assms
  by (auto simp: tcp_channelHandshake_def chan_simps Let_def server_handshake_Some
      split: option.splits prod.splits)

lemma loop_shrinks:
  "tcp_handleLoop ev (s, l) = Some ((s', l'), es) \<Longrightarrow>
     shrinks (tunnelChannel s) (tunnelChannel s') \<and> shrinks (localChannel s) (localChannel s')"
  by (cases ev; cases l)
     (auto simp: tcp_handleLoop_def Let_def chan_simps(5-) shrinks_refl shrinks_take
       split: option.splits if_splits prod.splits bool.splits)

lemma udp_shrinks:
  "handleUDPLoop ev (s, u) = Some ((s', u'), es) \<Longrightarrow>
     shrinks (tunnelChannel s) (tunnelChannel s') \<and> localChannel s' = localChannel s"
  by (cases ev; cases "uloop u")
     (auto simp: handleUDPLoop_def Let_def shrinks_refl shrinks_take
       split: option.splits if_splits prod.splits bool.splits)

lemma tcp_safe_shrinks:
  assumes "tcp_safe cfg w" "shrinks (tunnelChannel (srv w)) (tunnelChannel (srv w'))"
    "shrinks (localChannel (srv w)) (localChannel (srv w'))"
    "controlChannel (srv w') = controlChannel (srv w)" "config (srv w') = config (srv w)"
    "length (hloops w') \<le> 4" "early w' = early w"
  shows "tcp_safe cfg w'"
  using assms shrinks_ok [OF assms(2)] shrinks_ok [OF assms(3)] unfolding tcp_safe_def by auto

lemma tcp_step_safe: "tcp_step w ev es w' \<Longrightarrow> tcp_inv w \<Longrightarrow> tcp_safe cfg w \<Longrightarrow> tcp_safe cfg w'"
proof (induction rule: tcp_step.induct)
  case (tunnel w c s' es)
  note safe = tunnel(5)
  from tunnel_safe [OF tunnel(3)] consider "s' = srv w"
    | ch where "offer c (tunnelChannel (srv w)) = (ch, True)" "s' = (srv w)\<lparr>tunnelChannel := ch\<rparr>"
      "\<forall>cc. controlChannel (srv w) = Some cc \<longrightarrow> peer_ip cc = peer_ip c" by blast
  then show ?case
  proof cases
    case 1
    then show ?thesis using safe by (simp add: tcp_safe_def)
  next
    case 2
    have "buf ch = buf (tunnelChannel (srv w)) @ [c] \<and> cap ch = cap (tunnelChannel (srv w)) \<and> chan_ok ch"
      using safe 2(1) by (auto simp: tcp_safe_def offer_def chan_ok_def split: if_splits)
    moreover have "buf (tunnelChannel s') = buf ch \<and> cap (tunnelChannel s') = cap ch \<and>
        chan_ok (tunnelChannel s') = chan_ok ch \<and> localChannel s' = localChannel (srv w) \<and>
        config s' = config (srv w) \<and> controlChannel s' = controlChannel (srv w)"
      using 2(2) by simp
    moreover have "\<exists>cc. controlChannel (srv w) = Some cc \<and> peer_ip c = peer_ip cc"
      if "controlChannel (srv w) \<noteq> None" using that 2(3) by auto
    ultimately show ?thesis
      using safe by (cases "controlChannel (srv w)") (simp_all add: tcp_safe_def)
  qed
next
  case (handshake w dl wr s' stop es)
  from handshake_safe [OF handshake(2)] obtain c cs where
    h: "buf (tunnelChannel (srv w)) = c # cs" "tunnelChannel s' = (tunnelChannel (srv w))\<lparr>buf := cs\<rparr>"
      "localChannel s' = localChannel (srv w)" by blast
  have "controlChannel (srv w) = None" using handshake by (simp add: tcp_inv_def)
  then have e: "\<forall>c\<in>set cs. cid c \<in> set (early w)"
    using handshake(4) h(1) by (simp add: tcp_safe_def)
  have "chan_ok (tunnelChannel s') \<and> cap (tunnelChannel s') = cap (tunnelChannel (srv w))"
    using handshake(4) h by (simp add: tcp_safe_def chan_ok_def)
  moreover have "buf (tunnelChannel s') = cs" using h(2) by simp
  moreover have "config s' = config (srv w)"
    using handshake_keeps [OF handshake(2)] by simp
  ultimately show ?case
    using handshake(4) h(3) e by (simp add: tcp_safe_def)
next
  case (connected w cpus s' es)
  have "Token (config s') = Token (config (srv w))"
    using connected(3) by (auto simp: tcp_Start_connected_def tcp_set_status_def split: if_splits)
  with connected_step [OF connected(3)] connected(5) show ?case
    unfolding tcp_safe_def by simp
next
  case (begin_control w wr now k es)
  then show ?case by (simp add: tcp_safe_def)
next
  case (control w k ev s' k' es)
  then show ?case using control_step [OF control(2)] by (simp add: tcp_safe_def)
next
  case (local w c remote now s' es)
  have "chan_ok (localChannel s') \<and> cap (localChannel s') = cap (localChannel (srv w))"
    using local(4,6)
    by (auto simp: tcp_safe_def tcp_acceptLocalConn_def offer_def chan_ok_def split: if_splits)
  then show ?case
    using accept_keeps(2) [OF local(4)] local(6) by (simp add: tcp_safe_def)
next
  case (loop i w ev s' l' es)
  show ?case
    by (rule tcp_safe_shrinks [OF loop(4)])
       (use loop(4) loop_shrinks [OF loop(2)] loop_keeps [OF loop(2)] in \<open>simp_all add: tcp_safe_def\<close>)
next
  case (udp_listen w remote port)
  then show ?case by (simp add: tcp_safe_def)
next
  case (udp_receive i w now key data req' u')
  then show ?case by (simp add: tcp_safe_def)
next
  case (udp_handle i w uev s' u' es)
  show ?case
    by (rule tcp_safe_shrinks [OF udp_handle(4)])
       (use udp_handle(4) udp_shrinks [OF udp_handle(2)] udp_keeps [OF udp_handle(2)] in
         \<open>simp_all add: tcp_safe_def shrinks_refl\<close>)
next
  case (cancelled w)
  then show ?case by (simp add: tcp_safe_def)
qed

lemma tcp_reach_safe: "tcp_reach cfg w \<Longrightarrow> tcp_inv w \<and> tcp_safe cfg w"
proof (induction rule: tcp_reach.induct)
  case init
  show ?case by (simp add: tcp_init_inv tcp_init_safe)
next
  case (step w ev es w')
  then show ?case using tcp_step_inv tcp_step_safe by blast
qed

section \<open>Properties\<close>

definition sample_config :: TcpConfig where
  "sample_config = \<lparr>BindAddr = ''0.0.0.0:3080'', Token = ''musix'', SnifferLog = ''backhaul.json'',
     TunnelStatus = '''', Ports = [''443=5201''], Nodelay = True, Sniffer = False, KeepAlive = 75,
     Heartbeat = 40, ChannelSize = 2, WebPort = 0, AcceptUDP = False\<rparr>"

definition sample_conn :: "nat \<Rightarrow> string \<Rightarrow> bytes \<Rightarrow> conn" where
  "sample_conn i ip bs = \<lparr>cid = i, is_tcp = True, peer_ip = ip, local_port = 443,
     input = \<lparr>pending = bs, fault = TimedOut\<rparr>\<rparr>"

text \<open>
  C3. The TCP server loses no connection and uses none twice: in every reachable state, each
  connection that arrived is in exactly one place - queued, the control channel, held by a handle
  loop, closed or handed to a copying goroutine - and only a cancelled context leaves some behind.
\<close>

theorem tcp_connections_conserved:
  assumes "tcp_reach cfg w"
  shows "mset (arrived w) = srv_ids (srv w) + loop_ids (hloops w) + mset (done_ids w) + mset (leaked w) \<and>
         distinct (arrived w) \<and> distinct (done_ids w) \<and> (\<not> ctx_done (srv w) \<longrightarrow> leaked w = [])"
  using tcp_reach_inv [OF assms] done_distinct by (simp add: tcp_inv_def)

theorem tcp_connections_conserved_witness:
  "\<exists>w :: tcp_world. arrived w = [7] \<and> mset (arrived w) = srv_ids (srv w) + loop_ids (hloops w) + mset (done_ids w)"
proof -
  let ?c = "(sample_conn 7 ''10.0.0.1'' [])\<lparr>is_tcp := False\<rparr>"
  let ?w = "(tcp_init sample_config)\<lparr>arrived := [7], done_ids := [7], early := [7]\<rparr>"
  have "tcp_step (tcp_init sample_config) (EvArrive ?c) [Close 7] ?w"
    using tcp_step.tunnel [of "tcp_init sample_config" ?c "srv (tcp_init sample_config)" "[Close 7]"]
    by (simp add: tcp_init_def tcp_Start_def tcp_set_status_def NewTCPServer_def sample_conn_def
        tcp_acceptTunnelConn_def)
  from tcp_connections_conserved [OF tcp_reach.step [OF tcp_reach.init this]]
  show ?thesis
    by (intro exI [of _ ?w]) (simp add: tcp_init_def tcp_Start_def tcp_set_status_def NewTCPServer_def)
qed

text \<open>
  C13. Bounds and peers of the TCP server: both queues stay within \<open>channel_size\<close>, at most four handle
  loops run, and once there is a control channel every queued tunnel connection either has the
  control channel's address or arrived before it was established.
\<close>

theorem tcp_queues_bounded_and_filtered:
  assumes "tcp_reach cfg w"
  shows "length (buf (tunnelChannel (srv w))) \<le> ChannelSize cfg \<and>
         length (buf (localChannel (srv w))) \<le> ChannelSize cfg \<and> length (hloops w) \<le> 4 \<and>
         (\<forall>cc. controlChannel (srv w) = Some cc \<longrightarrow>
            (\<forall>c\<in>set (buf (tunnelChannel (srv w))). peer_ip c = peer_ip cc \<or> cid c \<in> set (early w)))"
  using tcp_reach_safe [OF assms] unfolding tcp_safe_def chan_ok_def by simp

theorem tcp_queues_bounded_and_filtered_witness:
  "length (buf (tunnelChannel (srv (tcp_init sample_config)))) \<le> 2"
  using tcp_queues_bounded_and_filtered [OF tcp_reach.init [of sample_config]]
  by (simp add: sample_config_def)

text \<open>
  C24. A restart of the TCP server, however many times it is requested while it runs: the control
  connection is closed, \<open>Start\<close> is called once, and the server is as new but for the last RTT. The
  connections still queued are forgotten without being closed.
\<close>

theorem tcp_restart_is_single_and_clean:
  assumes "0 < n" "\<not> locked s"
  shows "tcp_restart.restart_with n s =
           ((NewTCPServer ((config s)\<lparr>TunnelStatus := []\<rparr>))\<lparr>monitor := monitor s + 1, rtt := rtt s\<rparr>,
            map (\<lambda>c. Close c) (control_ids (controlChannel s)) @ [Sleep 2, Go GStart])"
  unfolding tcp_restart.restart_with_once [OF assms(1)]
  using assms(2)
  by (cases "controlChannel s")
     (simp_all add: tcp_restart.restart_with_def tcp_Restart_def tcp_Restart_finish_def
       tcp_set_status_def NewTCPServer_def Let_def)

theorem tcp_restart_is_single_and_clean_witness:
  "snd (tcp_restart.restart_with 3
     ((NewTCPServer sample_config)\<lparr>controlChannel := Some (sample_conn 1 ''10.0.0.1'' []),
        tunnelChannel := (make_chan 2)\<lparr>buf := [sample_conn 2 ''10.0.0.1'' []]\<rparr>\<rparr>)) =
   [Close 1, Sleep 2, Go GStart]"
  using tcp_restart_is_single_and_clean [of 3 "(NewTCPServer sample_config)\<lparr>controlChannel := Some (sample_conn 1 ''10.0.0.1'' []),
        tunnelChannel := (make_chan 2)\<lparr>buf := [sample_conn 2 ''10.0.0.1'' []]\<rparr>\<rparr>"]
  by (simp add: NewTCPServer_def sample_conn_def)

text \<open>
  C38. A connection that arrives before the control channel exists is used as a tunnel whoever sent
  it: while \<open>c1\<close> presents the token and becomes the control channel, \<open>c2\<close>, from any address and
  without a token, stays queued and gets the next user's traffic.
\<close>

theorem early_connection_becomes_tunnel:
  assumes "controlChannel s = None" "buf (tunnelChannel s) = []" "2 \<le> cap (tunnelChannel s)"
    and "is_tcp c1" "is_tcp c2" "presents_token (Token (config s)) c1"
  shows "\<exists>s3 es l' s4.
     tcp_channelHandshake True WriteOk
       (fst (tcp_acceptTunnelConn (Accepted c2) (fst (tcp_acceptTunnelConn (Accepted c1) s)))) =
       Some (s3, True, es) \<and>
     tcp_handleLoop (LoopTakeTunnel WriteOk) (s3, AtSelect l) =
       Some ((s4, l'),
         [Wrote (cid c2) (snd (SendBinaryTransportString NetConn WriteOk (remoteAddr l) SG_TCP)),
          Piped (cid (lconn l)) (cid c2) (local_port (lconn l)) (Sniffer (config s))])"
proof -
  let ?q = "fst (tcp_acceptTunnelConn (Accepted c2) (fst (tcp_acceptTunnelConn (Accepted c1) s)))"
  have q: "?q = s\<lparr>tunnelChannel := (tunnelChannel s)\<lparr>buf := [c1, c2]\<rparr>\<rparr>"
    using assms by (simp add: tcp_acceptTunnelConn_def offer_def)
  let ?s3 = "?q\<lparr>tunnelChannel := (tunnelChannel s)\<lparr>buf := [c2]\<rparr>,
      controlChannel := Some (c1\<lparr>input := snd (ReceiveBinaryTransportString NetConn (input c1))\<rparr>)\<rparr>"
  have "tcp_channelHandshake True WriteOk ?q =
      Some (?s3, True, [Wrote (cid c1) (snd (SendBinaryTransportString NetConn WriteOk (Token (config s)) SG_Chan))])"
    using assms(6) by (simp add: q tcp_channelHandshake_def take_chan_def server_handshake_eq)
  moreover have "tcp_handleLoop (LoopTakeTunnel WriteOk) (?s3, AtSelect l) =
      Some ((?s3\<lparr>tunnelChannel := (tunnelChannel s)\<lparr>buf := []\<rparr>\<rparr>, Idle),
        [Wrote (cid c2) (snd (SendBinaryTransportString NetConn WriteOk (remoteAddr l) SG_TCP)),
          Piped (cid (lconn l)) (cid c2) (local_port (lconn l)) (Sniffer (config s))])"
    by (simp add: q tcp_handleLoop_def take_chan_def send_transport_cases)
  ultimately show ?thesis by blast
qed

theorem early_connection_becomes_tunnel_witness:
  "\<exists>s3 es l' s4.
     tcp_channelHandshake True WriteOk
       (fst (tcp_acceptTunnelConn (Accepted (sample_conn 2 ''203.0.113.66'' []))
          (fst (tcp_acceptTunnelConn (Accepted (sample_conn 1 ''10.0.0.1'' (transport_enc (''musix'', SG_Chan))))
             (NewTCPServer sample_config))))) = Some (s3, True, es) \<and>
     tcp_handleLoop (LoopTakeTunnel WriteOk)
       (s3, AtSelect \<lparr>lconn = sample_conn 3 ''198.51.100.7'' [], remoteAddr = ''443'', timeCreated = 0\<rparr>) =
       Some ((s4, l'), [Wrote 2 (transport_enc (''443'', SG_TCP)), Piped 3 2 443 False])"
proof -
  have p: "presents_token ''musix'' (sample_conn 1 ''10.0.0.1'' (transport_enc (''musix'', SG_Chan)))"
    by (rule presents_token_frame [where rest = "[]"]) (simp_all add: sample_conn_def)
  show ?thesis
    using early_connection_becomes_tunnel [of "NewTCPServer sample_config"
        "sample_conn 1 ''10.0.0.1'' (transport_enc (''musix'', SG_Chan))" "sample_conn 2 ''203.0.113.66'' []"
        "\<lparr>lconn = sample_conn 3 ''198.51.100.7'' [], remoteAddr = ''443'', timeCreated = 0\<rparr>"] p
    by (simp add: NewTCPServer_def sample_config_def sample_conn_def transport_enc_def)
qed

text \<open>
  The three-second limit of a local connection is only checked before the wait: with no tunnel
  connection available and the context alive, a handle loop that holds a local connection can do
  nothing, however old the connection is; at the check, older than 3000 ms is closed and anything
  younger waits.
\<close>

theorem local_wait_has_no_timeout:
  "(buf (tunnelChannel s) = [] \<and> \<not> ctx_done s \<longrightarrow> tcp_handleLoop ev (s, AtSelect l) = None) \<and>
   tcp_handleLoop (LoopCheck now) (s, AtCheck l) =
     Some (if 3000 < now - timeCreated l then ((s, Idle), [Close (cid (lconn l))])
           else ((s, AtSelect l), []))"
  by (cases ev) (auto simp: tcp_handleLoop_def take_chan_def)

theorem local_wait_has_no_timeout_witness:
  "tcp_handleLoop (LoopCheck 9000) (NewTCPServer sample_config,
     AtSelect \<lparr>lconn = sample_conn 3 ''198.51.100.7'' [], remoteAddr = ''443'', timeCreated = 0\<rparr>) = None"
  using local_wait_has_no_timeout [of "NewTCPServer sample_config" "LoopCheck 9000"]
  by (simp add: NewTCPServer_def)

end
