(* ===== verification/TcpEffects.thy ===== *)
theory TcpEffects
  imports TcpWorld
begin

text \<open>
  What the steps of \<open>TcpWorld\<close> do to the connections: the bytes each step writes on each connection, and the
  local connections and datagrams it gives a tunnel to. A step gives at most one tunnel away, the frame it writes
  there names the target, and it writes elsewhere only on the control channel or to one that presents the token.
\<close>

section \<open>Effects\<close>

text \<open>What effects say: the bytes written on a connection, the pairs and tunnels handed to the copying.\<close>

definition sent :: "nat \<Rightarrow> effect list \<Rightarrow> bytes" where
  "sent n es = concat (map (\<lambda>e. case e of Wrote m bs \<Rightarrow> if m = n then bs else [] | _ \<Rightarrow> []) es)"

definition pairs :: "effect list \<Rightarrow> (nat \<times> nat) list" where
  "pairs es = concat (map (\<lambda>e. case e of Piped a b _ _ \<Rightarrow> [(a, b)] | _ \<Rightarrow> []) es)"

definition flows :: "effect list \<Rightarrow> nat list" where
  "flows es = concat (map (\<lambda>e. case e of Piped _ b _ _ \<Rightarrow> [b] | PipedUDP _ b _ _ _ \<Rightarrow> [b] | _ \<Rightarrow> []) es)"

lemma effect_views [simp]:
  "sent n [] = []" "sent n (Wrote m bs # es) = (if m = n then bs else []) @ sent n es"
  "sent n (Close c # es) = sent n es" "sent n (Go g # es) = sent n es" "sent n (Sleep d # es) = sent n es"
  "sent n (Piped a b p sn # es) = sent n es" "sent n (PipedUDP i b p sn r # es) = sent n es"
  "sent n (es @ fs) = sent n es @ sent n fs"
  "pairs [] = []" "pairs (Wrote m bs # es) = pairs es"
  "pairs (Close c # es) = pairs es" "pairs (Go g # es) = pairs es" "pairs (Sleep d # es) = pairs es"
  "pairs (Piped a b p sn # es) = (a, b) # pairs es" "pairs (PipedUDP i b p sn r # es) = pairs es"
  "pairs (es @ fs) = pairs es @ pairs fs"
  "flows [] = []" "flows (Wrote m bs # es) = flows es"
  "flows (Close c # es) = flows es" "flows (Go g # es) = flows es" "flows (Sleep d # es) = flows es"
  "flows (Piped a b p sn # es) = b # flows es" "flows (PipedUDP i b p sn r # es) = b # flows es"
  "flows (es @ fs) = flows es @ flows fs"
  by (simp_all add: sent_def pairs_def flows_def)

text \<open>The local connection, or the target of the datagrams, for which a step of the server wrote a frame on a tunnel.\<close>

fun answered :: "tcp_world \<Rightarrow> tcp_event \<Rightarrow> effect list \<Rightarrow> (nat \<times> LocalTCPConn) list" where
  "answered w (EvLoop i ev) (Wrote t bs # es) = (case hloops w ! i of AtSelect l \<Rightarrow> [(t, l)] | _ \<Rightarrow> [])"
| "answered w ev es = []"

fun answered_udp :: "tcp_world \<Rightarrow> tcp_event \<Rightarrow> effect list \<Rightarrow> (nat \<times> string) list" where
  "answered_udp w (EvUdpLoop i ev) (Wrote t bs # es) =
     (case uloop (uls w ! i) of UWaiting k \<Rightarrow> [(t, u_remoteAddr (uconns (uls w ! i) ! k))] | _ \<Rightarrow> [])"
| "answered_udp w ev es = []"

section \<open>What the server writes where\<close>

text \<open>A stream that carries a frame: it agrees with the frame, and what may follow it, as far as it goes.\<close>

definition carries :: "bytes \<Rightarrow> string \<times> byte \<Rightarrow> bool" where
  "carries b m \<longleftrightarrow> (\<exists>x y. b @ x = transport_enc m @ y)"

lemma carried_frame:
  assumes "carries b m" "fits16 (fst m)" "transport_dec st = Some (m', st')" "pending st = b"
  shows "m' = m"
proof -
  have m': "fits16 (fst m')" "b = transport_enc m' @ pending st'"
    using transport_dec_Some [OF assms(3)] assms(4) by auto
  obtain x y where "b @ x = transport_enc m @ y" using assms(1) by (auto simp: carries_def)
  then have e: "transport_enc m' @ (pending st' @ x) = transport_enc m @ y" using m'(2) by simp
  show ?thesis using transport.unambiguous [OF m'(1) assms(2) e] by simp
qed

lemma sent_frame: "\<exists>x. snd (SendBinaryTransportString NetConn w m t) @ x = transport_enc (m, t)"
proof (cases w)
  case (WriteErr k)
  have "snd (SendBinaryTransportString NetConn w m t) = take k (transport_enc (m, t))"
    using WriteErr by (simp add: transport_enc_def SendBinaryTransportString_def do_write_def)
  then show ?thesis by (metis append_take_drop_id)
qed (simp add: transport_enc_def)

lemma loop_outcome:
  assumes "tcp_handleLoop ev (s, l) = Some ((s', l'), es)"
  obtains (quiet) "\<And>n. sent n es = []" "pairs es = []" "flows es = []" "\<And>t bs fs. es \<noteq> Wrote t bs # fs"
  | (given) q t ch wr where "l = AtSelect q" "ev = LoopTakeTunnel wr" "take_chan (tunnelChannel s) = Some (t, ch)"
      "es = [Wrote (cid t) (transport_enc (remoteAddr q, SG_TCP)), Piped (cid (lconn q)) (cid t) (local_port (lconn q)) (TcpConfig.Sniffer (config s))]"
  | (failed) q t ch wr bs x where "l = AtSelect q" "ev = LoopTakeTunnel wr" "take_chan (tunnelChannel s) = Some (t, ch)"
      "es = [Wrote (cid t) bs, Close (cid t)]" "bs @ x = transport_enc (remoteAddr q, SG_TCP)"
proof (cases ev)
  case (LoopTakeTunnel wr)
  then obtain q t ch where q: "l = AtSelect q" and t: "take_chan (tunnelChannel s) = Some (t, ch)"
    using assms by (cases l) (auto simp: tcp_handleLoop_def split: option.splits)
  show ?thesis
  proof (cases wr)
    case WriteOk
    then show ?thesis
      using assms LoopTakeTunnel q t given
      by (simp add: tcp_handleLoop_def send_transport_cases transport_enc_def)
  next
    case (WriteErr k)
    obtain x where "snd (SendBinaryTransportString NetConn wr (remoteAddr q) SG_TCP) @ x = transport_enc (remoteAddr q, SG_TCP)"
      using sent_frame by blast
    then show ?thesis
      using assms LoopTakeTunnel q t failed WriteErr
      by (auto simp: tcp_handleLoop_def send_transport_cases)
  qed
qed (use assms quiet in \<open>cases l; auto simp: tcp_handleLoop_def split: option.splits if_splits\<close>)+

lemma udp_outcome:
  assumes "handleUDPLoop ev (s, u) = Some ((s', u'), es)"
  obtains (quiet) "\<And>n. sent n es = []" "pairs es = []" "flows es = []" "\<And>t bs fs. es \<noteq> Wrote t bs # fs"
  | (given) k t ch wr p sn r where "uloop u = UWaiting k" "ev = UTakeTunnel wr" "take_chan (tunnelChannel s) = Some (t, ch)"
      "es = [Wrote (cid t) (transport_enc (u_remoteAddr (uconns u ! k), SG_UDP)), PipedUDP k (cid t) p sn r]"
  | (failed) k t ch wr bs x where "uloop u = UWaiting k" "ev = UTakeTunnel wr" "take_chan (tunnelChannel s) = Some (t, ch)"
      "es = [Wrote (cid t) bs, Close (cid t)]" "bs @ x = transport_enc (u_remoteAddr (uconns u ! k), SG_UDP)"
proof (cases ev)
  case (UTakeTunnel wr)
  then obtain k t ch where q: "uloop u = UWaiting k" and t: "take_chan (tunnelChannel s) = Some (t, ch)"
    using assms by (cases "uloop u") (auto simp: handleUDPLoop_def split: option.splits)
  show ?thesis
  proof (cases wr)
    case WriteOk
    then show ?thesis
      using assms UTakeTunnel q t given
      by (auto simp: handleUDPLoop_def send_transport_cases transport_enc_def)
  next
    case (WriteErr n)
    obtain x where "snd (SendBinaryTransportString NetConn wr (u_remoteAddr (uconns u ! k)) SG_UDP) @ x =
        transport_enc (u_remoteAddr (uconns u ! k), SG_UDP)"
      using sent_frame by blast
    then show ?thesis
      using assms UTakeTunnel q t failed WriteErr
      by (auto simp: handleUDPLoop_def send_transport_cases)
  qed
qed (use assms quiet in \<open>cases "uloop u"; auto simp: handleUDPLoop_def split: option.splits if_splits\<close>)+

lemma pairs_gone: "mset (concat (map (\<lambda>(a, b). [a, b]) (pairs es))) \<subseteq># mset (gone es)"
proof (induction es)
  case (Cons e es)
  have "mset (concat (map (\<lambda>(a, b). [a, b]) (pairs [e]))) \<subseteq># mset (taken e)"
    by (cases e) (simp_all add: pairs_def)
  moreover have "pairs (e # es) = pairs [e] @ pairs es" by (simp add: pairs_def)
  ultimately show ?case using Cons.IH by (simp add: subset_mset.add_mono)
qed (simp add: pairs_def)

lemma distinct_subseteq: "mset xs \<subseteq># mset ys \<Longrightarrow> distinct ys \<Longrightarrow> distinct xs"
  by (metis distinct_append ex_mset mset_append mset_eq_imp_distinct_iff subset_mset.le_iff_add)

text \<open>Effects that hand nothing over and write at most on one connection.\<close>

definition only_on :: "nat \<Rightarrow> effect list \<Rightarrow> bool" where
  "only_on n es \<longleftrightarrow> pairs es = [] \<and> flows es = [] \<and> gone es = [] \<and> (\<forall>m. m \<noteq> n \<longrightarrow> sent m es = [])"

lemma only_on_simps [simp]:
  "only_on n []" "only_on n (es @ fs) \<longleftrightarrow> only_on n es \<and> only_on n fs"
  "only_on n [Go g]" "only_on n [Sleep d]"
  "only_on (cid c) (fst (send_signal wr c b))"
  by (auto simp: only_on_def send_signal_def SendBinaryByte_def do_write_def split: write_result.splits)

lemma send_only: "send_signal wr c b = (es, ok) \<Longrightarrow> only_on (cid c) es"
  using only_on_simps(5) [of c wr b] by simp

lemma reader_only: "ctl_reader ev d k = Some (k', es) \<Longrightarrow> only_on n es"
  by (auto simp: ctl_reader_def reader_read_def Let_def
      split: if_splits ctl_event.splits option.splits prod.splits read_outcome.splits)

lemma control_silent:
  assumes "tcp_channelHandler ev (s, k) = Some (sk, es)" "controlChannel s = Some cc"
  shows "only_on (cid cc) es"
  using assms
  by (cases ev) (auto simp: tcp_channelHandler_def dest: send_only reader_only
      split: option.splits if_splits prod.splits bool.splits)

lemma begin_silent:
  "tcp_channelHandler_begin wr now s = Some (k, es) \<Longrightarrow> \<exists>cc. controlChannel s = Some cc \<and> only_on (cid cc) es"
  by (auto simp: tcp_channelHandler_begin_def dest: send_only split: option.splits prod.splits bool.splits)

lemma handshake_silent:
  assumes "tcp_channelHandshake dl wr s = Some (s', stop, es)"
  shows "pairs es = [] \<and> flows es = [] \<and>
    (\<forall>n. sent n es \<noteq> [] \<longrightarrow> (\<exists>c\<in>set (buf (tunnelChannel s)). cid c = n \<and> presents_token (Token (config s)) c))"
proof -
  obtain c ch where t: "take_chan (tunnelChannel s) = Some (c, ch)"
    using assms by (auto simp: tcp_channelHandshake_def split: option.splits)
  then have c: "c \<in> set (buf (tunnelChannel s))" by (auto simp: chan_simps)
  obtain r where r: "server_handshake (Token (config s)) dl wr c = (r, es)"
    using assms t by (auto simp: tcp_channelHandshake_def Let_def split: prod.splits option.splits)
  have "pairs es = [] \<and> flows es = [] \<and> (\<forall>n. sent n es \<noteq> [] \<longrightarrow> cid c = n \<and> presents_token (Token (config s)) c)"
    using r by (cases wr)
      (auto simp: server_handshake_def send_transport_cases presents_token_def split: if_splits prod.splits)
  then show ?thesis using c by blast
qed

lemma accept_silent:
  "tcp_acceptTunnelConn r s = (s', es) \<Longrightarrow> pairs es = [] \<and> flows es = [] \<and> (\<forall>n. sent n es = [])"
  "tcp_acceptLocalConn remote now r s = (s', es) \<Longrightarrow> pairs es = [] \<and> flows es = [] \<and> (\<forall>n. sent n es = [])"
  by (auto simp: tcp_acceptTunnelConn_def tcp_acceptLocalConn_def
      split: accept_result.splits if_splits option.splits prod.splits bool.splits)

lemma connected_silent:
  "tcp_Start_connected cpus s = (s', es) \<Longrightarrow> pairs es = [] \<and> flows es = [] \<and> gone es = [] \<and> (\<forall>n. sent n es = [])"
  by (auto simp: tcp_Start_connected_def pairs_def flows_def gone_def sent_def split: if_splits)

lemma done_step: "tcp_step w ev es w' \<Longrightarrow> done_ids w' = done_ids w @ gone es"
proof (induction rule: tcp_step.induct)
  case (connected w cpus s' es)
  then show ?case using connected_silent by simp
next
  case (begin_control w wr now k es)
  then show ?case using begin_silent by (force simp: only_on_def)
next
  case (control w k ev s' k' es)
  obtain cc where "controlChannel (srv w) = Some cc"
    using control(2) by (auto simp: tcp_channelHandler_def split: option.splits)
  then show ?case using control_silent [OF control(2)] by (simp add: only_on_def)
qed simp_all

text \<open>Every step of the server is one of three kinds: it gives a tunnel to a local connection, to datagrams, or to nobody.\<close>

lemma step_effects:
  assumes "tcp_step w ev es w'"
  obtains (other) "answered w ev es = []" "answered_udp w ev es = []" "pairs es = []" "flows es = []"
      "\<And>n. sent n es \<noteq> [] \<Longrightarrow> (\<exists>cc. controlChannel (srv w) = Some cc \<and> cid cc = n) \<or>
         (\<exists>c\<in>set (buf (tunnelChannel (srv w))). cid c = n \<and> presents_token (Token (config (srv w))) c)"
  | (user) i q t x where "i < length (hloops w)" "hloops w ! i = AtSelect q" "t \<in> set (buf (tunnelChannel (srv w)))"
      "answered w ev es = [(cid t, q)]" "answered_udp w ev es = []" "\<And>n. n \<noteq> cid t \<Longrightarrow> sent n es = []"
      "sent (cid t) es @ x = transport_enc (remoteAddr q, SG_TCP)" "cid t \<in> set (gone es)"
      "pairs es = [] \<and> flows es = [] \<or> x = [] \<and> pairs es = [(cid (lconn q), cid t)] \<and> flows es = [cid t]"
  | (datagrams) i k t x where "i < length (uls w)" "uloop (uls w ! i) = UWaiting k" "t \<in> set (buf (tunnelChannel (srv w)))"
      "answered w ev es = []" "answered_udp w ev es = [(cid t, u_remoteAddr (uconns (uls w ! i) ! k))]"
      "\<And>n. n \<noteq> cid t \<Longrightarrow> sent n es = []" "cid t \<in> set (gone es)"
      "sent (cid t) es @ x = transport_enc (u_remoteAddr (uconns (uls w ! i) ! k), SG_UDP)"
      "pairs es = []" "flows es = [] \<or> x = [] \<and> flows es = [cid t]"
  using assms
proof (induction rule: tcp_step.induct)
  case (tunnel w c s' es)
  show ?case by (rule tunnel(4)) (use accept_silent(1) [OF tunnel(3)] in simp_all)
next
  case (handshake w dl wr s' stop es)
  show ?case by (rule handshake(3)) (use handshake_silent [OF handshake(2)] in simp_all)
next
  case (connected w cpus s' es)
  show ?case by (rule connected(4)) (use connected_silent [OF connected(3)] in simp_all)
next
  case (begin_control w wr now k es)
  obtain cc where cc: "controlChannel (srv w) = Some cc" "only_on (cid cc) es"
    using begin_silent [OF begin_control(3)] by blast
  have "\<And>n. sent n es \<noteq> [] \<Longrightarrow> n = cid cc" using cc(2) by (auto simp: only_on_def)
  then show ?case by (intro begin_control(4)) (use cc in \<open>auto simp: only_on_def\<close>)
next
  case (control w k ev s' k' es)
  obtain cc where cc: "controlChannel (srv w) = Some cc"
    using control(2) by (auto simp: tcp_channelHandler_def split: option.splits)
  have o: "only_on (cid cc) es" by (rule control_silent [OF control(2) cc])
  have "\<And>n. sent n es \<noteq> [] \<Longrightarrow> n = cid cc" using o by (auto simp: only_on_def)
  then show ?case by (intro control(3)) (use cc o in \<open>auto simp: only_on_def\<close>)
next
  case (local w c remote now s' es)
  show ?case by (rule local(5)) (use accept_silent(2) [OF local(4)] in simp_all)
next
  case (loop i w ev s' l' es)
  from loop(2) show ?case
  proof (cases rule: loop_outcome)
    case quiet
    have "answered w (EvLoop i ev) es = []" "answered_udp w (EvLoop i ev) es = []"
      using quiet(4) by (cases "(w, EvLoop i ev, es)" rule: answered.cases; auto)+
    then show ?thesis by (intro loop(3)) (use quiet in simp_all)
  next
    case (given q t ch wr)
    show ?thesis
      by (rule loop(4) [of i q t "[]"]) (use given loop(1) in \<open>auto simp: chan_simps\<close>)
  next
    case (failed q t ch wr bs x)
    show ?thesis
      by (rule loop(4) [of i q t x]) (use failed loop(1) in \<open>auto simp: chan_simps\<close>)
  qed
next
  case (udp_listen w remote port)
  show ?case by (rule udp_listen(3)) simp_all
next
  case (udp_receive i w now key data req' u')
  show ?case by (rule udp_receive(3)) simp_all
next
  case (udp_handle i w uev s' u' es)
  from udp_handle(2) show ?case
  proof (cases rule: udp_outcome)
    case quiet
    have "answered w (EvUdpLoop i uev) es = []" "answered_udp w (EvUdpLoop i uev) es = []"
      using quiet(4) by (cases "(w, EvUdpLoop i uev, es)" rule: answered_udp.cases; auto)+
    then show ?thesis by (intro udp_handle(3)) (use quiet in simp_all)
  next
    case (given k t ch wr p sn r)
    show ?thesis
      by (rule udp_handle(5) [of i k t "[]"]) (use given udp_handle(1) in \<open>auto simp: chan_simps\<close>)
  next
    case (failed k t ch wr bs x)
    show ?thesis
      by (rule udp_handle(5) [of i k t x]) (use failed udp_handle(1) in \<open>auto simp: chan_simps\<close>)
  qed
next
  case (cancelled w)
  show ?case by (rule cancelled(1)) simp_all
qed

section \<open>What the queues hold\<close>

lemma step_queue:
  assumes "tcp_step w ev es w'"
  shows "set (buf (tunnelChannel (srv w'))) \<subseteq> set (buf (tunnelChannel (srv w))) \<union> {c. ev = EvArrive c} \<and>
    (controlChannel (srv w') = controlChannel (srv w) \<or>
     (\<exists>c\<in>set (buf (tunnelChannel (srv w))). presents_token (Token (config (srv w))) c \<and>
        (\<forall>cc. controlChannel (srv w') = Some cc \<longrightarrow> cid cc = cid c)))"
  using assms
proof (induction rule: tcp_step.induct)
  case (tunnel w c s' es)
  from tunnel_safe [OF tunnel(3)] accept_keeps(1) [OF tunnel(3)] show ?case by (auto dest: offer_True simp: offer_def split: if_splits)
next
  case (handshake w dl wr s' stop es)
  from handshake_safe [OF handshake(2)] show ?case by auto
next
  case (connected w cpus s' es)
  then show ?case using connected_step [OF connected(3)] by simp
next
  case (control w k ev s' k' es)
  then show ?case using control_step [OF control(2)] by simp
next
  case (local w c remote now s' es)
  then show ?case using accept_keeps(2) [OF local(4)] by simp
next
  case (loop i w ev s' l' es)
  then show ?case using loop_shrinks [OF loop(2)] loop_keeps [OF loop(2)] by (auto simp: shrinks_def chan_simps)
next
  case (udp_handle i w uev s' u' es)
  then show ?case using udp_shrinks [OF udp_handle(2)] udp_keeps [OF udp_handle(2)] by (auto simp: shrinks_def chan_simps)
qed simp_all

text \<open>Every target a local connection or a UDP connection waits with is one of \<open>T\<close>.\<close>

fun waits_with :: "handle_loop \<Rightarrow> LocalTCPConn list" where
  "waits_with (AtCheck l) = [l]"
| "waits_with (AtSelect l) = [l]"
| "waits_with _ = []"

definition targets_within :: "string set \<Rightarrow> tcp_world \<Rightarrow> bool" where
  "targets_within T w \<longleftrightarrow>
     (\<forall>l\<in>set (buf (localChannel (srv w))) \<union> \<Union> (set ` waits_with ` set (hloops w)). remoteAddr l \<in> T) \<and>
     length (utargets w) = length (uls w) \<and> set (utargets w) \<subseteq> T \<and>
     (\<forall>u\<in>set (uls w). udp_inv u \<and> (\<forall>c\<in>set (uconns u). u_remoteAddr c \<in> T))"

lemma un_chain: "A' \<union> y \<subseteq> A \<union> x \<Longrightarrow> U' \<subseteq> y \<union> U \<Longrightarrow> x \<subseteq> U \<Longrightarrow> A' \<union> U' \<subseteq> A \<union> (U :: 'a set)"
  by blast

lemma loop_targets:
  assumes "tcp_handleLoop ev (s, l) = Some ((s', l'), es)"
  shows "set (buf (localChannel s')) \<union> set (waits_with l') \<subseteq> set (buf (localChannel s)) \<union> set (waits_with l)"
  using assms
  by (cases ev; cases l)
     (auto simp: tcp_handleLoop_def Let_def chan_simps split: option.splits if_splits prod.splits bool.splits)

lemma udp_packet_targets:
  assumes "udp_packet remote now key data (req, u) = Some (req', u')"
  shows "u_remoteAddr ` set (uconns u') \<subseteq> insert remote (u_remoteAddr ` set (uconns u))"
proof -
  have upd: "u_remoteAddr ` set (uconns (upd_conn i f v)) \<subseteq> u_remoteAddr ` set (uconns v)"
    if "\<And>c. u_remoteAddr (f c) = u_remoteAddr c" for i f v
  proof (cases "i < length (uconns v)")
    case True
    have "set (uconns (upd_conn i f v)) \<subseteq> insert (f (uconns v ! i)) (set (uconns v))"
      by (simp add: upd_conn_def set_update_subset_insert)
    moreover have "u_remoteAddr (f (uconns v ! i)) \<in> u_remoteAddr ` set (uconns v)"
      using True that by simp
    ultimately show ?thesis by auto
  qed (simp add: upd_conn_def list_update_beyond)
  have new: "u_remoteAddr ` set (uconns v') \<subseteq> insert remote (u_remoteAddr ` set (uconns v))"
    if n: "udp_new_conn remote now key data (r, v) = (r', v')" for r v r' v'
  proof -
    let ?c = "\<lparr>u_timeCreated = now, payload = make_chan payloadCap, u_remoteAddr = remote, clientAddr = key, IsCongested = False\<rparr>"
    let ?u = "v\<lparr>uconns := uconns v @ [?c], activeConnections := (activeConnections v)(key \<mapsto> length (uconns v))\<rparr>"
    let ?f = "\<lambda>c. c\<lparr>payload := fst (offer data (payload c))\<rparr>"
    have "v' = ?u \<or> (\<exists>ch. v' = upd_conn (length (uconns v)) ?f (?u\<lparr>udpChan := ch\<rparr>))"
      using n by (auto simp: udp_new_conn_def Let_def split: prod.splits bool.splits)
    moreover have "u_remoteAddr ` set (uconns (upd_conn (length (uconns v)) ?f (?u\<lparr>udpChan := ch\<rparr>))) \<subseteq>
        insert remote (u_remoteAddr ` set (uconns v))" for ch
      using upd [of ?f "length (uconns v)" "?u\<lparr>udpChan := ch\<rparr>"] by simp
    ultimately show ?thesis by auto
  qed
  show ?thesis
  proof (cases "activeConnections u key")
    case None
    then show ?thesis using assms new by (simp add: udp_packet_def)
  next
    case (Some i)
    have keep: "u_remoteAddr ` set (uconns (upd_conn i (\<lambda>c. c\<lparr>payload := ch\<rparr>) u)) \<subseteq> insert remote (u_remoteAddr ` set (uconns u))" for ch
      using upd [of "\<lambda>c. c\<lparr>payload := ch\<rparr>" i u] by auto
    consider "udp_new_conn remote now key data (req, u) = (req', u')" | "u' = u"
      | ch where "u' = upd_conn i (\<lambda>c. c\<lparr>payload := ch\<rparr>) u"
      using assms Some by (auto simp: udp_packet_def split: if_splits send_result.splits)
    then show ?thesis using new keep by cases auto
  qed
qed

lemma udp_loop_conns: "handleUDPLoop ev (s, u) = Some ((s', u'), es) \<Longrightarrow>
    uconns u' = uconns u \<and> localChannel s' = localChannel s"
  by (cases ev; cases "uloop u")
     (auto simp: handleUDPLoop_def Let_def split: option.splits if_splits prod.splits bool.splits)

lemma step_targets:
  assumes "tcp_step w ev es w'" "targets_within T w"
    and "\<And>c r. ev = EvLocal c r \<Longrightarrow> r \<in> T" "\<And>r p. ev = EvUdpListen r p \<Longrightarrow> r \<in> T"
  shows "targets_within T w'"
  using assms
proof (induction rule: tcp_step.induct)
  case (tunnel w c s' es)
  then show ?case using tunnel_safe [OF tunnel(3)] by (simp add: targets_within_def)
next
  case (handshake w dl wr s' stop es)
  then show ?case using handshake_safe [OF handshake(2)] by (auto simp: targets_within_def)
next
  case (connected w cpus s' es)
  then show ?case using connected_step [OF connected(3)] by (auto simp: targets_within_def)
next
  case (begin_control w wr now k es)
  then show ?case by (simp add: targets_within_def)
next
  case (control w k ev s' k' es)
  then show ?case using control_step [OF control(2)] by (simp add: targets_within_def)
next
  case (local w c remote now s' es)
  have "set (buf (localChannel s')) \<subseteq> insert \<lparr>lconn = c, remoteAddr = remote, timeCreated = now\<rparr> (set (buf (localChannel (srv w))))"
    using local(4) by (auto simp: tcp_acceptLocalConn_def offer_def split: if_splits)
  then show ?case using local(5) local(6) [OF refl] by (auto simp: targets_within_def)
next
  case (loop i w ev s' l' es)
  have old: "set (waits_with (hloops w ! i)) \<subseteq> \<Union> (set ` waits_with ` set (hloops w))"
    using nth_mem [OF loop(1)] by blast
  have "\<Union> (set ` waits_with ` set ((hloops w)[i := l'])) \<subseteq> set (waits_with l') \<union> \<Union> (set ` waits_with ` set (hloops w))"
    using set_update_subset_insert [of "hloops w" i l'] by blast
  note sub = un_chain [OF loop_targets [OF loop(2)] this old]
  have "\<forall>l\<in>set (buf (localChannel (srv w))) \<union> \<Union> (set ` waits_with ` set (hloops w)). remoteAddr l \<in> T"
    using loop(3) unfolding targets_within_def by (rule conjunct1)
  then have "\<forall>l\<in>set (buf (localChannel s')) \<union> \<Union> (set ` waits_with ` set ((hloops w)[i := l'])). remoteAddr l \<in> T"
    using sub by (meson subsetD)
  then show ?case using loop(3) by (simp add: targets_within_def)
next
  case (udp_listen w remote port)
  then show ?case by (auto simp: targets_within_def udp_inv_new) (simp add: new_listener_def)
next
  case (udp_receive i w now key data req' u')
  have i: "uls w ! i \<in> set (uls w)" "utargets w ! i \<in> T"
    using udp_receive(1,3) by (auto simp: targets_within_def)
  have "udp_inv u'"
    using udp_packet_inv [OF _ udp_receive(2)] udp_receive(3) i(1) by (simp add: targets_within_def)
  moreover have "\<forall>c\<in>set (uconns u'). u_remoteAddr c \<in> T"
    using udp_packet_targets [OF udp_receive(2)] udp_receive(3) i by (auto simp: targets_within_def)
  ultimately show ?case
    using udp_receive(3) set_update_subset_insert [of "uls w" i u'] by (auto simp: targets_within_def)
next
  case (udp_handle i w uev s' u' es)
  have i: "uls w ! i \<in> set (uls w)" using udp_handle(1) by simp
  have "udp_inv u'"
    using handleUDPLoop_inv [OF _ udp_handle(2)] udp_handle(3) i by (simp add: targets_within_def)
  then show ?case
    using udp_handle(3) i udp_loop_conns [OF udp_handle(2)] set_update_subset_insert [of "uls w" i u']
    by (auto simp: targets_within_def)
next
  case (cancelled w)
  then show ?case by (simp add: targets_within_def)
qed

end
