(* ===== verification/TcpSignals.thy ===== *)
theory TcpSignals
  imports TcpEffects
begin

text \<open>
  The requests of the TCP server and the signals it writes: a step puts at most one request into \<open>reqNewConnChan\<close>,
  only for a local connection or a datagram, and writes \<open>SG_Chan\<close> only for a request it takes out.
\<close>

definition units :: "bytes \<Rightarrow> nat" where
  "units bs = length (filter (\<lambda>b. b = SG_Chan) bs)"

lemma units_simps [simp]:
  "units [] = 0" "units (b # bs) = (if b = SG_Chan then 1 else 0) + units bs" "units (bs @ cs) = units bs + units cs"
  by (simp_all add: units_def)

abbreviation requests_of :: "tcp_world \<Rightarrow> nat" where
  "requests_of w \<equiv> length (buf (reqNewConnChan (srv w)))"

fun demanded :: "tcp_event \<Rightarrow> nat" where
  "demanded (EvLocal c r) = 1"
| "demanded (EvUdpPacket i key) = 1"
| "demanded _ = 0"

lemma no_signal:
  "SG_Closed \<noteq> SG_Chan" "SG_HB \<noteq> SG_Chan" "SG_RTT \<noteq> SG_Chan"
  by (simp_all add: signal_defs)

lemma units_sent:
  assumes "send_signal wr cc b = (es, ok)"
  shows "units (sent (cid cc) es) \<le> (if b = SG_Chan then 1 else 0)"
  using assms
  by (cases wr) (auto simp: send_signal_def SendBinaryByte_def do_write_def take_Cons' split: if_splits)

lemma reader_sent: "ctl_reader ev d k = Some (k', es) \<Longrightarrow> sent n es = []"
  using reader_only [of ev d k k' es "Suc n"] by (simp add: only_on_def)

lemma offer_grows: "length (buf (fst (offer x ch))) \<le> Suc (length (buf ch))"
  by (simp add: offer_def)

lemma control_signals:
  assumes "tcp_channelHandler ev (s, k) = Some ((s', k'), es)" "controlChannel s = Some cc"
  shows "units (sent (cid cc) es) + length (buf (reqNewConnChan s')) \<le> length (buf (reqNewConnChan s))"
proof (cases ev)
  case (MainReqNewConn wr)
  obtain es0 ok where w: "send_signal wr cc SG_Chan = (es0, ok)" by fastforce
  then show ?thesis
    using assms MainReqNewConn units_sent [OF w]
    by (auto simp: tcp_channelHandler_def take_chan_len chan_simps split: option.splits if_splits bool.splits)
next
  case (MainTick wr)
  obtain es0 ok where w: "send_signal wr cc SG_HB = (es0, ok)" by fastforce
  then show ?thesis
    using assms MainTick units_sent [OF w] no_signal
    by (auto simp: tcp_channelHandler_def split: if_splits bool.splits)
next
  case (MainCtxDone wr)
  obtain es0 ok where w: "send_signal wr cc SG_Closed = (es0, ok)" by fastforce
  then show ?thesis
    using assms MainCtxDone units_sent [OF w] no_signal
    by (auto simp: tcp_channelHandler_def split: if_splits)
next
  case (MainMessage now)
  then show ?thesis using assms by (auto simp: tcp_channelHandler_def split: if_splits option.splits)
qed (use assms reader_sent in \<open>auto simp: tcp_channelHandler_def split: option.splits\<close>)

lemma begin_signals:
  assumes "tcp_channelHandler_begin wr now s = Some (k, es)" "controlChannel s = Some cc"
  shows "units (sent (cid cc) es) = 0"
proof -
  obtain es0 ok where w: "send_signal wr cc SG_RTT = (es0, ok)" by fastforce
  then show ?thesis
    using assms units_sent [OF w] no_signal by (auto simp: tcp_channelHandler_begin_def split: bool.splits)
qed

lemma udp_packet_requests:
  "udp_packet remote now key data (req, u) = Some (req', u') \<Longrightarrow> length (buf req') \<le> Suc (length (buf req))"
  using offer_grows [of "()" req]
  by (auto simp: udp_packet_def udp_new_conn_def Let_def
      split: option.splits if_splits send_result.splits prod.splits bool.splits)

lemma loop_requests:
  "tcp_handleLoop ev (s, l) = Some ((s', l'), es) \<Longrightarrow> reqNewConnChan s' = reqNewConnChan s"
  by (cases ev; cases l)
     (auto simp: tcp_handleLoop_def Let_def split: option.splits if_splits prod.splits bool.splits)

lemma udp_loop_requests:
  "handleUDPLoop ev (s, u) = Some ((s', u'), es) \<Longrightarrow> reqNewConnChan s' = reqNewConnChan s"
  by (cases ev; cases "uloop u")
     (auto simp: handleUDPLoop_def Let_def split: option.splits if_splits prod.splits bool.splits)

lemma handshake_signals:
  assumes "tcp_channelHandshake dl wr s = Some (s', stop, es)" "controlChannel s = None"
  obtains (won) c cc where "c \<in> set (buf (tunnelChannel s))" "controlChannel s' = Some cc" "cid cc = cid c"
      "\<And>n. sent n es = (if n = cid c then transport_enc (Token (config s), SG_Chan) else [])"
      "reqNewConnChan s' = reqNewConnChan s"
  | (lost) c x where "c \<in> set (buf (tunnelChannel s))" "controlChannel s' = None" "cid c \<in> set (gone es)"
      "\<And>n. n \<noteq> cid c \<Longrightarrow> sent n es = []" "sent (cid c) es @ x = transport_enc (Token (config s), SG_Chan)"
      "reqNewConnChan s' = reqNewConnChan s"
proof -
  obtain c ch where t: "take_chan (tunnelChannel s) = Some (c, ch)"
    using assms by (auto simp: tcp_channelHandshake_def split: option.splits)
  then have c: "c \<in> set (buf (tunnelChannel s))" by (auto simp: chan_simps)
  obtain r where r: "server_handshake (Token (config s)) dl wr c = (r, es)"
    using assms t by (auto simp: tcp_channelHandshake_def Let_def split: prod.splits option.splits)
  show ?thesis
  proof (cases r)
    case (Some c')
    have h: "dl" "wr = WriteOk" "es = [Wrote (cid c) (transport_enc (Token (config s), SG_Chan))]" "cid c' = cid c"
      using r Some
      by (cases wr; auto simp: server_handshake_def send_transport_cases transport_enc_def split: if_splits prod.splits)+
    then have "controlChannel s' = Some c'" "reqNewConnChan s' = reqNewConnChan s"
      using assms t r Some by (auto simp: tcp_channelHandshake_def)
    with h c show ?thesis by (intro won [of c c']) auto
  next
    case None
    have k: "controlChannel s' = None" "reqNewConnChan s' = reqNewConnChan s"
      using assms t r None by (auto simp: tcp_channelHandshake_def)
    have "\<exists>x. sent (cid c) es @ x = transport_enc (Token (config s), SG_Chan)"
      using r None sent_frame [of wr "Token (config s)" SG_Chan]
      by (cases wr) (auto simp: server_handshake_def send_transport_cases split: if_splits prod.splits)
    moreover have "sent n es = []" if "n \<noteq> cid c" for n
      using r None that by (cases wr) (auto simp: server_handshake_def send_transport_cases split: if_splits prod.splits)
    moreover have "cid c \<in> set (gone es)" using server_handshake_None r None by fastforce
    ultimately show ?thesis using lost c k by blast
  qed
qed

text \<open>Every step, seen from the connections it writes on and the requests.\<close>

lemma step_signals:
  assumes "tcp_step w ev es w'" "tcp_inv w"
  obtains (won) c cc where "c \<in> set (buf (tunnelChannel (srv w)))" "controlChannel (srv w) = None"
      "controlChannel (srv w') = Some cc" "cid cc = cid c" "requests_of w' \<le> requests_of w + demanded ev"
      "\<And>n. sent n es = (if n = cid c then transport_enc (Token (config (srv w)), SG_Chan) else [])"
      "answered w ev es = []" "answered_udp w ev es = []" "flows es = []"
  | (lost) c x where "c \<in> set (buf (tunnelChannel (srv w)))" "controlChannel (srv w') = controlChannel (srv w)"
      "cid c \<in> set (done_ids w')" "\<And>n. n \<noteq> cid c \<Longrightarrow> sent n es = []"
      "sent (cid c) es @ x = transport_enc (Token (config (srv w)), SG_Chan)" "requests_of w' \<le> requests_of w + demanded ev"
      "answered w ev es = []" "answered_udp w ev es = []" "flows es = []"
  | (control) cc where "controlChannel (srv w) = Some cc" "controlChannel (srv w') = Some cc" "\<And>n. n \<noteq> cid cc \<Longrightarrow> sent n es = []"
      "units (sent (cid cc) es) + requests_of w' \<le> requests_of w + demanded ev"
      "answered w ev es = []" "answered_udp w ev es = []" "flows es = []"
  | (gives) t where "controlChannel (srv w') = controlChannel (srv w)" "t \<in> set (buf (tunnelChannel (srv w)))"
      "\<And>n. n \<noteq> cid t \<Longrightarrow> sent n es = []" "requests_of w' \<le> requests_of w + demanded ev"
      "cid t \<in> fst ` set (answered w ev es) \<union> fst ` set (answered_udp w ev es)"
  | (silent) "controlChannel (srv w') = controlChannel (srv w)" "\<And>n. sent n es = []" "requests_of w' \<le> requests_of w + demanded ev"
      "answered w ev es = []" "answered_udp w ev es = []" "flows es = []"
  using assms
proof (induction rule: tcp_step.induct)
  case (tunnel w c s' es)
  show ?case
    by (rule tunnel(8))
       (use accept_silent(1) [OF tunnel(3)] accept_keeps(1) [OF tunnel(3)] tunnel_safe [OF tunnel(3)] in auto)
next
  case (handshake w dl wr s' stop es)
  have n: "controlChannel (srv w) = None" using handshake(1,8) by (simp add: tcp_inv_def)
  note q = handshake_silent [OF handshake(2)]
  from handshake(2) n show ?case
  proof (cases rule: handshake_signals)
    case (won c cc)
    show ?thesis by (rule handshake(3) [of c cc]) (use won q n in auto)
  next
    case (lost c x)
    show ?thesis by (rule handshake(4) [of c x]) (use lost q n in auto)
  qed
next
  case (connected w cpus s' es)
  show ?case by (rule connected(8)) (use connected_silent [OF connected(3)] connected_step [OF connected(3)] in auto)
next
  case (begin_control w wr now k es)
  obtain cc where cc: "controlChannel (srv w) = Some cc" "only_on (cid cc) es"
    using begin_silent [OF begin_control(3)] by blast
  show ?case
    by (rule begin_control(6) [of cc]) (use cc begin_signals [OF begin_control(3) cc(1)] in \<open>auto simp: only_on_def\<close>)
next
  case (control w k ev s' k' es)
  obtain cc where cc: "controlChannel (srv w) = Some cc"
    using control(2) by (auto simp: tcp_channelHandler_def split: option.splits)
  have "only_on (cid cc) es" by (rule control_silent [OF control(2) cc])
  then show ?case
    by (intro control(5) [of cc])
       (use cc control_signals [OF control(2) cc] control_step [OF control(2)] in \<open>auto simp: only_on_def\<close>)
next
  case (local w c remote now s' es)
  have "requests_of (w\<lparr>srv := s'\<rparr>) \<le> Suc (requests_of w)"
    using local(4) offer_grows [of "()" "reqNewConnChan (srv w)"]
    by (auto simp: tcp_acceptLocalConn_def split: if_splits prod.splits bool.splits)
  then show ?case
    by (intro local(9)) (use accept_silent(2) [OF local(4)] accept_keeps(2) [OF local(4)] in auto)
next
  case (loop i w ev s' l' es)
  note k = loop_keeps [OF loop(2)] loop_requests [OF loop(2)]
  from loop(2) show ?case
  proof (cases rule: loop_outcome)
    case quiet
    have "answered w (EvLoop i ev) es = []" "answered_udp w (EvLoop i ev) es = []"
      using quiet(4) by (cases "(w, EvLoop i ev, es)" rule: answered.cases; auto)+
    then show ?thesis by (intro loop(7)) (use quiet k in simp_all)
  next
    case (given q t ch wr)
    show ?thesis by (rule loop(6) [of t]) (use given k in \<open>auto simp: chan_simps\<close>)
  next
    case (failed q t ch wr bs x)
    show ?thesis by (rule loop(6) [of t]) (use failed k in \<open>auto simp: chan_simps\<close>)
  qed
next
  case (udp_listen w remote port)
  show ?case by (rule udp_listen(7)) simp_all
next
  case (udp_receive i w now key data req' u')
  show ?case by (rule udp_receive(7)) (use udp_packet_requests [OF udp_receive(2)] in simp_all)
next
  case (udp_handle i w uev s' u' es)
  note k = udp_keeps [OF udp_handle(2)] udp_loop_requests [OF udp_handle(2)]
  from udp_handle(2) show ?case
  proof (cases rule: udp_outcome)
    case quiet
    have "answered w (EvUdpLoop i uev) es = []" "answered_udp w (EvUdpLoop i uev) es = []"
      using quiet(4) by (cases "(w, EvUdpLoop i uev, es)" rule: answered_udp.cases; auto)+
    then show ?thesis by (intro udp_handle(7)) (use quiet k in simp_all)
  next
    case (given j t ch wr p sn r)
    show ?thesis by (rule udp_handle(6) [of t]) (use given k in \<open>auto simp: chan_simps\<close>)
  next
    case (failed j t ch wr bs x)
    show ?thesis by (rule udp_handle(6) [of t]) (use failed k in \<open>auto simp: chan_simps\<close>)
  qed
next
  case (cancelled w)
  show ?case by (rule cancelled(5)) simp_all
qed

end
