(* ===== verification/Config.thy ===== *)
theory Config
  imports GoStrings
begin

text \<open>
  The configuration: the records of \<open>internal/config/config.go\<close>, the defaults of
  \<open>cmd/defaults.go\<close>, and loading and role selection of \<open>cmd/cmd.go\<close>. Three things come from
  outside the program and are parameters: the decoded TOML file, \<open>logrus.ParseLevel\<close> (whether a
  string names a log level) and the working directory.
\<close>

section \<open>Records\<close>

type_synonym TransportType = string

definition TCP :: TransportType where "TCP = ''tcp''"
definition TCPMUX :: TransportType where "TCPMUX = ''tcpmux''"
definition WS :: TransportType where "WS = ''ws''"
definition WSS :: TransportType where "WSS = ''wss''"
definition WSMUX :: TransportType where "WSMUX = ''wsmux''"
definition WSSMUX :: TransportType where "WSSMUX = ''wssmux''"
definition QUIC :: TransportType where "QUIC = ''quic''"
definition UDP :: TransportType where "UDP = ''udp''"

lemmas transport_defs = TCP_def TCPMUX_def WS_def WSS_def WSMUX_def WSSMUX_def QUIC_def UDP_def

record ServerConfig =
  s_BindAddr :: string
  s_Transport :: TransportType
  s_Token :: string
  s_Nodelay :: bool
  s_Keepalive :: int
  s_LogLevel :: string
  s_Ports :: "string list"
  s_PPROF :: bool
  s_MuxSession :: int
  s_MuxVersion :: int
  s_MaxFrameSize :: int
  s_MaxReceiveBuffer :: int
  s_MaxStreamBuffer :: int
  s_Sniffer :: "bool option"
  s_WebPort :: int
  s_SnifferLog :: string
  s_TLSCertFile :: string
  s_TLSKeyFile :: string
  s_Heartbeat :: int
  s_MuxCon :: int
  s_AcceptUDP :: bool
  s_ChannelSize :: int

record ClientConfig =
  c_RemoteAddr :: string
  c_Transport :: TransportType
  c_Token :: string
  c_RetryInterval :: int
  c_Nodelay :: bool
  c_Keepalive :: int
  c_LogLevel :: string
  c_PPROF :: bool
  c_MuxSession :: int
  c_MuxVersion :: int
  c_MaxFrameSize :: int
  c_MaxReceiveBuffer :: int
  c_MaxStreamBuffer :: int
  c_Sniffer :: "bool option"
  c_WebPort :: int
  c_SnifferLog :: string
  c_DialTimeout :: int
  c_AggressivePool :: bool
  c_EdgeIP :: string
  c_ConnectionPool :: int

record Config =
  Server :: "ServerConfig option"
  Client :: "ClientConfig option"

text \<open>The zero values \<open>&config.ServerConfig{}\<close> and \<open>&config.ClientConfig{}\<close>.\<close>

definition zeroServer :: ServerConfig where
  "zeroServer = \<lparr>s_BindAddr = '''', s_Transport = '''', s_Token = '''', s_Nodelay = False,
     s_Keepalive = 0, s_LogLevel = '''', s_Ports = [], s_PPROF = False, s_MuxSession = 0,
     s_MuxVersion = 0, s_MaxFrameSize = 0, s_MaxReceiveBuffer = 0, s_MaxStreamBuffer = 0,
     s_Sniffer = None, s_WebPort = 0, s_SnifferLog = '''', s_TLSCertFile = '''', s_TLSKeyFile = '''',
     s_Heartbeat = 0, s_MuxCon = 0, s_AcceptUDP = False, s_ChannelSize = 0\<rparr>"

definition zeroClient :: ClientConfig where
  "zeroClient = \<lparr>c_RemoteAddr = '''', c_Transport = '''', c_Token = '''', c_RetryInterval = 0,
     c_Nodelay = False, c_Keepalive = 0, c_LogLevel = '''', c_PPROF = False, c_MuxSession = 0,
     c_MuxVersion = 0, c_MaxFrameSize = 0, c_MaxReceiveBuffer = 0, c_MaxStreamBuffer = 0,
     c_Sniffer = None, c_WebPort = 0, c_SnifferLog = '''', c_DialTimeout = 0,
     c_AggressivePool = False, c_EdgeIP = '''', c_ConnectionPool = 0\<rparr>"

section \<open>Defaults\<close>

definition defaultToken :: string where "defaultToken = ''musix''"
definition defaultRetryInterval :: int where "defaultRetryInterval = 3"
definition defaultLogLevel :: string where "defaultLogLevel = ''info''"
definition defaultChannelSize :: int where "defaultChannelSize = 2048"
definition defaultConnectionPool :: int where "defaultConnectionPool = 8"
definition defaultMuxSession :: int where "defaultMuxSession = 1"
definition defaultKeepAlive :: int where "defaultKeepAlive = 75"
definition deafultHeartbeat :: int where "deafultHeartbeat = 40"
definition defaultDialTimeout :: int where "defaultDialTimeout = 10"
definition defaultMuxVersion :: int where "defaultMuxVersion = 1"
definition defaultMaxFrameSize :: int where "defaultMaxFrameSize = 32768"
definition defaultMaxReceiveBuffer :: int where "defaultMaxReceiveBuffer = 4194304"
definition defaultMaxStreamBuffer :: int where "defaultMaxStreamBuffer = 65536"
definition defaultSnifferLog :: string where "defaultSnifferLog = ''backhaul.json''"
definition defaultMuxCon :: int where "defaultMuxCon = 8"
definition defaultNodelay :: bool where "defaultNodelay = True"
definition defaultAggressivePool :: bool where "defaultAggressivePool = True"

lemmas default_defs = defaultToken_def defaultRetryInterval_def defaultLogLevel_def
  defaultChannelSize_def defaultConnectionPool_def defaultMuxSession_def defaultKeepAlive_def
  deafultHeartbeat_def defaultDialTimeout_def defaultMuxVersion_def defaultMaxFrameSize_def
  defaultMaxReceiveBuffer_def defaultMaxStreamBuffer_def defaultSnifferLog_def defaultMuxCon_def
  defaultNodelay_def defaultAggressivePool_def

text \<open>
  \<open>applyDefaults\<close>, per record: every assignment is guarded by its own field, so the assignments of
  one record are one simultaneous update. \<open>pos\<close> is the guard \<open>if x <= 0\<close>.
\<close>

definition pos :: "int \<Rightarrow> int \<Rightarrow> int" where
  "pos dflt x = (if x \<le> 0 then dflt else x)"

definition on_unless :: "bool \<Rightarrow> bool \<Rightarrow> bool" where
  "on_unless dflt b = (if \<not> b then dflt else b)"

definition mux_version :: "int \<Rightarrow> int \<Rightarrow> int" where
  "mux_version dflt v = (if v \<le> 0 \<or> 2 < v then dflt else v)"

definition nonempty :: "string \<Rightarrow> string \<Rightarrow> string" where
  "nonempty dflt s = (if s = '''' then dflt else s)"

definition sslDir :: "string option \<Rightarrow> string" where
  "sslDir getwd = (case getwd of None \<Rightarrow> ''.'' | Some d \<Rightarrow> d) @ ''/ssl''"

definition serverDefaults :: "(string \<Rightarrow> bool) \<Rightarrow> string option \<Rightarrow> ServerConfig \<Rightarrow> ServerConfig" where
  "serverDefaults parse_level getwd s = s\<lparr>
     s_Token := nonempty defaultToken (s_Token s),
     s_Nodelay := on_unless defaultNodelay (s_Nodelay s),
     s_ChannelSize := pos defaultChannelSize (s_ChannelSize s),
     s_LogLevel := (if parse_level (s_LogLevel s) then s_LogLevel s else defaultLogLevel),
     s_MuxSession := pos defaultMuxSession (s_MuxSession s),
     s_Keepalive := pos defaultKeepAlive (s_Keepalive s),
     s_MuxVersion := mux_version defaultMuxVersion (s_MuxVersion s),
     s_MaxFrameSize := pos defaultMaxFrameSize (s_MaxFrameSize s),
     s_MaxReceiveBuffer := pos defaultMaxReceiveBuffer (s_MaxReceiveBuffer s),
     s_MaxStreamBuffer := pos defaultMaxStreamBuffer (s_MaxStreamBuffer s),
     s_SnifferLog := nonempty defaultSnifferLog (s_SnifferLog s),
     s_Sniffer := (if s_Sniffer s = None then Some True else s_Sniffer s),
     s_Heartbeat := (if s_Heartbeat s < 1 then deafultHeartbeat else s_Heartbeat s),
     s_MuxCon := (if s_MuxCon s < 1 then defaultMuxCon else s_MuxCon s),
     s_TLSCertFile := nonempty (sslDir getwd @ ''/server.crt'') (s_TLSCertFile s),
     s_TLSKeyFile := nonempty (sslDir getwd @ ''/server.key'') (s_TLSKeyFile s)\<rparr>"

definition clientDefaults :: "(string \<Rightarrow> bool) \<Rightarrow> ClientConfig \<Rightarrow> ClientConfig" where
  "clientDefaults parse_level c = c\<lparr>
     c_Token := nonempty defaultToken (c_Token c),
     c_Nodelay := on_unless defaultNodelay (c_Nodelay c),
     c_LogLevel := (if parse_level (c_LogLevel c) then c_LogLevel c else defaultLogLevel),
     c_RetryInterval := pos defaultRetryInterval (c_RetryInterval c),
     c_MuxSession := pos defaultMuxSession (c_MuxSession c),
     c_Keepalive := pos defaultKeepAlive (c_Keepalive c),
     c_MuxVersion := mux_version defaultMuxVersion (c_MuxVersion c),
     c_MaxFrameSize := pos defaultMaxFrameSize (c_MaxFrameSize c),
     c_MaxReceiveBuffer := pos defaultMaxReceiveBuffer (c_MaxReceiveBuffer c),
     c_MaxStreamBuffer := pos defaultMaxStreamBuffer (c_MaxStreamBuffer c),
     c_SnifferLog := nonempty defaultSnifferLog (c_SnifferLog c),
     c_Sniffer := (if c_Sniffer c = None then Some True else c_Sniffer c),
     c_DialTimeout := (if c_DialTimeout c < 1 then defaultDialTimeout else c_DialTimeout c),
     c_AggressivePool := on_unless defaultAggressivePool (c_AggressivePool c)\<rparr>"

text \<open>Reading a field of a nil \<open>cfg.Server\<close> or \<open>cfg.Client\<close> panics: \<open>None\<close>.\<close>

definition applyDefaults :: "(string \<Rightarrow> bool) \<Rightarrow> string option \<Rightarrow> Config \<Rightarrow> Config option" where
  "applyDefaults parse_level getwd cfg =
     (case (Server cfg, Client cfg) of
        (Some s, Some c) \<Rightarrow>
          Some (cfg\<lparr>Server := Some (serverDefaults parse_level getwd s),
                    Client := Some (clientDefaults parse_level c)\<rparr>)
      | _ \<Rightarrow> None)"

section \<open>Loading and role selection\<close>

text \<open>\<open>decoded\<close> is the result of \<open>toml.DecodeFile\<close>, \<open>None\<close> for its error.\<close>

definition loadConfig :: "Config option \<Rightarrow> Config option" where
  "loadConfig decoded =
     (case decoded of
        None \<Rightarrow> None
      | Some cfg \<Rightarrow>
          Some (cfg\<lparr>Server := (if Server cfg = None then Some zeroServer else Server cfg),
                    Client := (if Client cfg = None then Some zeroClient else Client cfg)\<rparr>))"

datatype run_result =
    RunServer ServerConfig Config
  | RunClient ClientConfig Config
  | RunFatal string
  | RunPanic

definition Run :: "(string \<Rightarrow> bool) \<Rightarrow> string option \<Rightarrow> Config option \<Rightarrow> run_result" where
  "Run parse_level getwd decoded =
     (case loadConfig decoded of
        None \<Rightarrow> RunFatal ''failed to load configuration''
      | Some cfg0 \<Rightarrow>
          (case applyDefaults parse_level getwd cfg0 of
             None \<Rightarrow> RunPanic
           | Some cfg \<Rightarrow>
               (case (Server cfg, Client cfg) of
                  (srv, clnt) \<Rightarrow>
                    if srv \<noteq> None \<and> s_BindAddr (the srv) \<noteq> '''' then RunServer (the srv) cfg
                    else if clnt \<noteq> None \<and> c_RemoteAddr (the clnt) \<noteq> '''' then RunClient (the clnt) cfg
                    else RunFatal ''neither server nor client configuration is properly set.'')))"

section \<open>Well-formed configurations\<close>

definition server_ok :: "(string \<Rightarrow> bool) \<Rightarrow> ServerConfig \<Rightarrow> bool" where
  "server_ok parse_level s \<longleftrightarrow>
     s_Token s \<noteq> '''' \<and> s_Nodelay s \<and> 0 < s_ChannelSize s \<and> parse_level (s_LogLevel s) \<and>
     0 < s_MuxSession s \<and> 0 < s_Keepalive s \<and> s_MuxVersion s \<in> {1, 2} \<and> 0 < s_MaxFrameSize s \<and>
     0 < s_MaxReceiveBuffer s \<and> 0 < s_MaxStreamBuffer s \<and> s_SnifferLog s \<noteq> '''' \<and>
     s_Sniffer s \<noteq> None \<and> 1 \<le> s_Heartbeat s \<and> 1 \<le> s_MuxCon s \<and> s_TLSCertFile s \<noteq> '''' \<and>
     s_TLSKeyFile s \<noteq> ''''"

definition client_ok :: "(string \<Rightarrow> bool) \<Rightarrow> ClientConfig \<Rightarrow> bool" where
  "client_ok parse_level c \<longleftrightarrow>
     c_Token c \<noteq> '''' \<and> c_Nodelay c \<and> parse_level (c_LogLevel c) \<and> 0 < c_RetryInterval c \<and>
     0 < c_MuxSession c \<and> 0 < c_Keepalive c \<and> c_MuxVersion c \<in> {1, 2} \<and> 0 < c_MaxFrameSize c \<and>
     0 < c_MaxReceiveBuffer c \<and> 0 < c_MaxStreamBuffer c \<and> c_SnifferLog c \<noteq> '''' \<and>
     c_Sniffer c \<noteq> None \<and> 1 \<le> c_DialTimeout c \<and> c_AggressivePool c"

lemma pos_pos: "0 < d \<Longrightarrow> 0 < pos d x"
  by (simp add: pos_def)

lemma pos_fix: "0 < d \<Longrightarrow> pos d x = x \<longleftrightarrow> 0 < x"
  by (auto simp: pos_def)

lemma nonempty_ne: "d \<noteq> '''' \<Longrightarrow> nonempty d s \<noteq> ''''"
  by (simp add: nonempty_def)

lemma nonempty_fix: "d \<noteq> '''' \<Longrightarrow> nonempty d s = s \<longleftrightarrow> s \<noteq> ''''"
  by (auto simp: nonempty_def)

lemma mux_version_1: "mux_version 1 v = 1 \<or> mux_version 1 v = 2"
  by (auto simp: mux_version_def)

lemma on_unless_True: "on_unless True b"
  by (simp add: on_unless_def)

lemma serverDefaults_ok:
  assumes "parse_level defaultLogLevel"
  shows "server_ok parse_level (serverDefaults parse_level getwd s)"
  unfolding server_ok_def serverDefaults_def
  using assms
  by (simp add: default_defs pos_def nonempty_def on_unless_True mux_version_1) (auto intro: exI [of _ True])

lemma clientDefaults_ok:
  assumes "parse_level defaultLogLevel"
  shows "client_ok parse_level (clientDefaults parse_level c)"
  unfolding client_ok_def clientDefaults_def
  using assms
  by (simp add: default_defs pos_def nonempty_def on_unless_True mux_version_1) (auto intro: exI [of _ True])

lemma serverDefaults_id: "server_ok parse_level s \<Longrightarrow> serverDefaults parse_level getwd s = s"
  by (cases s) (auto simp: server_ok_def serverDefaults_def pos_def nonempty_def on_unless_def mux_version_def)

lemma clientDefaults_id: "client_ok parse_level c \<Longrightarrow> clientDefaults parse_level c = c"
  by (cases c) (auto simp: client_ok_def clientDefaults_def pos_def nonempty_def on_unless_def mux_version_def)

lemma serverDefaults_fixpoint:
  "parse_level defaultLogLevel \<Longrightarrow>
     serverDefaults parse_level getwd s = s \<longleftrightarrow> server_ok parse_level s"
  by (metis serverDefaults_id serverDefaults_ok)

lemma clientDefaults_fixpoint:
  "parse_level defaultLogLevel \<Longrightarrow> clientDefaults parse_level c = c \<longleftrightarrow> client_ok parse_level c"
  by (metis clientDefaults_id clientDefaults_ok)

lemma loaded: "loadConfig (Some cfg) =
    Some (cfg\<lparr>Server := Some (case Server cfg of None \<Rightarrow> zeroServer | Some s \<Rightarrow> s),
              Client := Some (case Client cfg of None \<Rightarrow> zeroClient | Some c \<Rightarrow> c)\<rparr>)"
  by (cases "Server cfg"; cases "Client cfg") (simp_all add: loadConfig_def)

lemma defaults_keep_addresses:
  "s_BindAddr (serverDefaults pl wd s) = s_BindAddr s"
  "c_RemoteAddr (clientDefaults pl c) = c_RemoteAddr c"
  "c_ConnectionPool (clientDefaults pl c) = c_ConnectionPool c"
  by (simp_all add: serverDefaults_def clientDefaults_def)

definition the_server :: "Config \<Rightarrow> ServerConfig" where
  "the_server cfg = (case Server cfg of None \<Rightarrow> zeroServer | Some s \<Rightarrow> s)"

definition the_client :: "Config \<Rightarrow> ClientConfig" where
  "the_client cfg = (case Client cfg of None \<Rightarrow> zeroClient | Some c \<Rightarrow> c)"

lemma Run_Some:
  "Run pl wd (Some cfg) =
     (let s = serverDefaults pl wd (the_server cfg); c = clientDefaults pl (the_client cfg);
          cfg' = cfg\<lparr>Server := Some s, Client := Some c\<rparr>
      in if s_BindAddr (the_server cfg) \<noteq> '''' then RunServer s cfg'
         else if c_RemoteAddr (the_client cfg) \<noteq> '''' then RunClient c cfg'
         else RunFatal ''neither server nor client configuration is properly set.'')"
  by (simp add: Run_def loaded applyDefaults_def Let_def the_server_def the_client_def
      defaults_keep_addresses)

section \<open>Properties\<close>

text \<open>
  C14. Whatever the file says, \<open>Run\<close> never reads a missing section: it starts a server exactly when
  the file names a bind address, otherwise a client exactly when it names a remote address, and
  is fatal otherwise. When it starts one, the configuration handed over satisfies the range of
  every field that \<open>applyDefaults\<close> guards.
\<close>

theorem run_selects_role:
  assumes "parse_level ''info''"
  shows "case Run parse_level getwd decoded of
           RunServer s cfg \<Rightarrow> server_ok parse_level s \<and> Server cfg = Some s \<and>
             (\<exists>f. decoded = Some f \<and> s_BindAddr s = s_BindAddr (the_server f) \<and> s_BindAddr s \<noteq> '''')
         | RunClient c cfg \<Rightarrow> client_ok parse_level c \<and> Client cfg = Some c \<and>
             (\<exists>f. decoded = Some f \<and> s_BindAddr (the_server f) = '''' \<and>
                  c_RemoteAddr c = c_RemoteAddr (the_client f) \<and> c_RemoteAddr c \<noteq> '''')
         | RunFatal m \<Rightarrow>
             (\<forall>f. decoded = Some f \<longrightarrow> s_BindAddr (the_server f) = '''' \<and> c_RemoteAddr (the_client f) = '''')
         | RunPanic \<Rightarrow> False"
proof (cases decoded)
  case None
  then show ?thesis by (simp add: Run_def loadConfig_def)
next
  case (Some f)
  then show ?thesis
    using assms serverDefaults_ok [of parse_level] clientDefaults_ok [of parse_level]
    by (simp add: Run_Some Let_def defaults_keep_addresses defaultLogLevel_def)
qed

theorem run_selects_role_witness:
  "\<exists>c cfg. Run (\<lambda>l. l \<in> {''info'', ''debug''}) None
      (Some \<lparr>Server = None, Client = Some (zeroClient\<lparr>c_RemoteAddr := ''10.0.0.1:3080''\<rparr>)\<rparr>) =
    RunClient c cfg \<and> client_ok (\<lambda>l. l \<in> {''info'', ''debug''}) c \<and> c_DialTimeout c = 10"
  using run_selects_role [where parse_level = "\<lambda>l. l \<in> {''info'', ''debug''}" and getwd = None
      and decoded = "Some \<lparr>Server = None, Client = Some (zeroClient\<lparr>c_RemoteAddr := ''10.0.0.1:3080''\<rparr>)\<rparr>"]
  by (simp add: Run_Some Let_def the_server_def the_client_def zeroServer_def zeroClient_def
      clientDefaults_def default_defs)

text \<open>
  The configurations that \<open>applyDefaults\<close> leaves alone are exactly the well-formed ones, so
  applying it again changes nothing; in particular \<open>nodelay = false\<close> and
  \<open>aggressive_pool = false\<close> are not fixed points and cannot be configured, and a missing
  \<open>connection_pool\<close> is not given \<open>defaultConnectionPool\<close>.
\<close>

theorem defaults_are_a_closure:
  assumes "parse_level ''info''"
  shows "(serverDefaults parse_level getwd s = s \<longleftrightarrow> server_ok parse_level s) \<and>
         (clientDefaults parse_level c = c \<longleftrightarrow> client_ok parse_level c) \<and>
         serverDefaults parse_level getwd (serverDefaults parse_level getwd s) =
           serverDefaults parse_level getwd s \<and>
         clientDefaults parse_level (clientDefaults parse_level c) = clientDefaults parse_level c \<and>
         s_Nodelay (serverDefaults parse_level getwd s) \<and>
         c_AggressivePool (clientDefaults parse_level c) \<and>
         c_ConnectionPool (clientDefaults parse_level c) = c_ConnectionPool c"
proof -
  have pl: "parse_level defaultLogLevel" using assms by (simp add: defaultLogLevel_def)
  show ?thesis
    using serverDefaults_ok [of parse_level getwd s, OF pl] clientDefaults_ok [of parse_level c, OF pl]
    by (simp add: serverDefaults_fixpoint [of parse_level getwd s, OF pl]
        clientDefaults_fixpoint [of parse_level c, OF pl]
        serverDefaults_fixpoint [of parse_level getwd "serverDefaults parse_level getwd s", OF pl]
        clientDefaults_fixpoint [of parse_level "clientDefaults parse_level c", OF pl] defaults_keep_addresses)
       (simp add: server_ok_def client_ok_def)
qed

theorem defaults_are_a_closure_witness:
  "c_ConnectionPool (clientDefaults (\<lambda>l. l = ''info'') zeroClient) = 0 \<and>
   s_Nodelay (serverDefaults (\<lambda>l. l = ''info'') None (zeroServer\<lparr>s_Nodelay := False\<rparr>))"
  using defaults_are_a_closure
    [of "\<lambda>l. l = ''info''" None "zeroServer\<lparr>s_Nodelay := False\<rparr>" zeroClient]
  by (simp add: zeroClient_def)

end
