(* ===== verification/CliShared.thy ===== *)
theory CliShared
  imports Control Config
begin

text \<open>
  What the client transports share: \<open>internal/client/transport/shared.go\<close> (address resolution,
  dialling with limit, the disguised WebSocket request) and the parts whose text is repeated in each
  transport - the pool maintainer, the reaction to \<open>SG_Chan\<close>, the reader of the control channel.
  The network, DNS and the random numbers are arguments.
\<close>

section \<open>Addresses\<close>

definition ResolveRemoteAddr :: "string \<Rightarrow> (int \<times> string) option" where
  "ResolveRemoteAddr remote =
     (let parts = split_on (CHR '':'') remote
      in if length parts < 2
         then (case atoi (parts ! 0) of
                 None \<Rightarrow> None
               | Some port \<Rightarrow> Some (port, ''127.0.0.1:'' @ itoa port))
         else (case atoi (parts ! 1) of
                 None \<Rightarrow> None
               | Some port \<Rightarrow> Some (port, remote)))"

section \<open>Dialling\<close>

text \<open>
  What the operating system answers to one attempt: the resolved address, the connection (\<open>None\<close>: the
  dial failed, or a socket option could not be set), and whether \<open>SetNoDelay\<close> works.
\<close>

record dial_env =
  dns_ok :: bool
  dialled :: "conn option"
  nodelay_ok :: bool

definition attemptTcpDialer :: "bool \<Rightarrow> dial_env \<Rightarrow> conn option \<times> effect list" where
  "attemptTcpDialer nodelay env =
     (if \<not> dns_ok env then (None, [])
      else case dialled env of
        None \<Rightarrow> (None, [])
      | Some c \<Rightarrow>
          if \<not> is_tcp c then (None, [Close (cid c)])
          else if \<not> nodelay \<and> \<not> nodelay_ok env then (None, [Close (cid c)])
          else (Some c, []))"

text \<open>
  The retry loop of \<open>TcpDialer\<close> and \<open>WebSocketDialer\<close>: \<open>i\<close> is the loop counter, \<open>backoff\<close> the next
  wait. \<open>None\<close> is an error; with no limit at all the loop returns no connection and no error, which
  no caller asks for.
\<close>

function dial_loop :: "(nat \<Rightarrow> 'c option \<times> effect list) \<Rightarrow> nat \<Rightarrow> nat \<Rightarrow> int \<Rightarrow> 'c option \<times> effect list" where
  "dial_loop attempt limit i backoff =
     (if limit \<le> i then (None, [])
      else case attempt i of
        (Some c, es) \<Rightarrow> (Some c, es)
      | (None, es) \<Rightarrow>
          if i = limit - 1 then (None, es)
          else (let (r, fs) = dial_loop attempt limit (i + 1) (backoff * 2)
                in (r, es @ Sleep backoff # fs)))"
  by pat_completeness auto

termination
  by (relation "measure (\<lambda>(_, limit, i, _). limit - i)") auto

declare dial_loop.simps [simp del]

definition TcpDialer :: "nat \<Rightarrow> bool \<Rightarrow> (nat \<Rightarrow> dial_env) \<Rightarrow> conn option \<times> effect list" where
  "TcpDialer retry nodelay env = dial_loop (\<lambda>i. attemptTcpDialer nodelay (env i)) retry 0 1"

definition WebSocketDialer :: "nat \<Rightarrow> (nat \<Rightarrow> nat option \<times> effect list) \<Rightarrow> nat option \<times> effect list" where
  "WebSocketDialer retry attempt = dial_loop attempt retry 0 1"

text \<open>The seconds slept, in order, for \<open>n\<close> waits from \<open>backoff\<close> on.\<close>

definition sleeps :: "effect list \<Rightarrow> int list" where
  "sleeps es = concat (map (\<lambda>e. case e of Sleep d \<Rightarrow> [d] | _ \<Rightarrow> []) es)"

lemma sleeps_simps [simp]:
  "sleeps [] = []" "sleeps (Sleep d # es) = d # sleeps es"
  "sleeps (es @ fs) = sleeps es @ sleeps fs"
  "sleeps (Close c # es) = sleeps es" "sleeps (Go g # es) = sleeps es"
  by (simp_all add: sleeps_def)

lemma attempt_no_sleep: "sleeps (snd (attemptTcpDialer nodelay env)) = []"
  by (simp add: attemptTcpDialer_def split: option.split)

lemma dial_loop_outcome:
  assumes "\<And>k. sleeps (snd (attempt k)) = []" "i < limit"
  shows "(if \<exists>k. i \<le> k \<and> k < limit \<and> fst (attempt k) \<noteq> None
          then (let k = (LEAST k. i \<le> k \<and> fst (attempt k) \<noteq> None)
                in fst (dial_loop attempt limit i b) = fst (attempt k) \<and>
                   sleeps (snd (dial_loop attempt limit i b)) = map (\<lambda>j. b * 2 ^ j) [0..<k - i])
          else fst (dial_loop attempt limit i b) = None \<and>
               sleeps (snd (dial_loop attempt limit i b)) = map (\<lambda>j. b * 2 ^ j) [0..<limit - 1 - i])"
  using assms(2)
proof (induction "limit - i" arbitrary: i b)
  case 0
  then show ?case by simp
next
  case (Suc d)
  obtain r es where a: "attempt i = (r, es)" by fastforce
  have es: "sleeps es = []" using assms(1) [of i] a by simp
  show ?case
  proof (cases r)
    case (Some c)
    have "(LEAST k. i \<le> k \<and> fst (attempt k) \<noteq> None) = i"
      by (rule Least_equality) (use a Some in auto)
    moreover have "\<exists>k. i \<le> k \<and> k < limit \<and> fst (attempt k) \<noteq> None"
      using a Some Suc(3) by (intro exI [of _ i]) simp
    moreover have "dial_loop attempt limit i b = (r, es)"
      using a Some Suc(3) by (subst dial_loop.simps) simp
    ultimately show ?thesis
      using a Some es by (simp add: Let_def)
  next
    case None
    have ge: "(i \<le> k \<and> fst (attempt k) \<noteq> None) = (i + 1 \<le> k \<and> fst (attempt k) \<noteq> None)" for k
      by (cases "k = i") (use a None in auto)
    have shift: "(\<exists>k. i \<le> k \<and> k < limit \<and> fst (attempt k) \<noteq> None) \<longleftrightarrow>
        (\<exists>k. i + 1 \<le> k \<and> k < limit \<and> fst (attempt k) \<noteq> None)"
      using ge by blast
    have same: "(\<lambda>k. i \<le> k \<and> fst (attempt k) \<noteq> None) = (\<lambda>k. i + 1 \<le> k \<and> fst (attempt k) \<noteq> None)"
      using ge by (rule ext)
    show ?thesis
    proof (cases "i = limit - 1")
      case True
      then have none: "\<not> (\<exists>k. i \<le> k \<and> k < limit \<and> fst (attempt k) \<noteq> None)"
        unfolding shift by auto
      have "dial_loop attempt limit i b = (None, es)"
        using a None True Suc(3) by (subst dial_loop.simps) simp
      then show ?thesis unfolding if_not_P [OF none] using True es by simp
    next
      case False
      then have lt: "i + 1 < limit" using Suc(3) by simp
      obtain r' fs where rec: "dial_loop attempt limit (i + 1) (b * 2) = (r', fs)" by fastforce
      have step: "dial_loop attempt limit i b = (r', es @ Sleep b # fs)"
        using a None False Suc(3) rec by (subst dial_loop.simps) simp
      have pow: "b # map (\<lambda>j. b * 2 * 2 ^ j) [0..<n] = map (\<lambda>j. b * 2 ^ j) [0..<Suc n]" for n
        by (simp add: upt_conv_Cons map_Suc_upt [symmetric] del: upt_Suc)
      have "d = limit - (i + 1)" using Suc(2) by simp
      note IH = Suc(1) [OF this lt, of "b * 2"]
      show ?thesis
      proof (cases "\<exists>k. i + 1 \<le> k \<and> k < limit \<and> fst (attempt k) \<noteq> None")
        case True
        let ?k = "LEAST k. i + 1 \<le> k \<and> fst (attempt k) \<noteq> None"
        have k: "i + 1 \<le> ?k"
          using True LeastI_ex [of "\<lambda>k. i + 1 \<le> k \<and> fst (attempt k) \<noteq> None"] by blast
        then have n: "?k - i = Suc (?k - (i + 1))" by simp
        have "r' = fst (attempt ?k) \<and> sleeps fs = map (\<lambda>j. b * 2 * 2 ^ j) [0..<?k - (i + 1)]"
          using IH unfolding if_P [OF True] rec Let_def by simp
        then show ?thesis
          using True shift same step es pow [of "?k - (i + 1)"] n by (simp add: Let_def)
      next
        case none: False
        have n: "limit - 1 - i = Suc (limit - 1 - (i + 1))" using lt by simp
        have "r' = None \<and> sleeps fs = map (\<lambda>j. b * 2 * 2 ^ j) [0..<limit - 1 - (i + 1)]"
          using IH unfolding if_not_P [OF none] rec by simp
        then show ?thesis
          using step es pow [of "limit - 1 - (i + 1)"] n
          unfolding if_not_P [OF none [folded shift]] by simp
      qed
    qed
  qed
qed

section \<open>The disguised WebSocket request\<close>

definition realisticPaths :: "string list" where
  "realisticPaths =
     [''/api/v1/stream'', ''/cdn/assets'', ''/ws/chat'', ''/api/notifications'', ''/live/stream'',
      ''/api/analytics'', ''/cdn/static'', ''/api/status'', ''/ws/updates'', ''/api/metrics'']"

text \<open>\<open>rnd\<close> is \<open>rand.Intn(len(realisticPaths))\<close>, \<open>uid\<close> is \<open>rand.Int31()\<close>.\<close>

definition generateObfuscatedPath :: "nat \<Rightarrow> string \<Rightarrow> int \<Rightarrow> string" where
  "generateObfuscatedPath rnd basePath uid =
     (if basePath = ''/channel'' then realisticPaths ! rnd @ ''/'' @ itoa uid
      else basePath @ ''/'' @ itoa uid)"

text \<open>The headers, \<open>agent\<close> being the user agent picked from the list in the file.\<close>

definition generateObfuscatedHeaders ::
    "string \<Rightarrow> int \<Rightarrow> string \<Rightarrow> (string \<times> string) list \<Rightarrow> (string \<times> string) list" where
  "generateObfuscatedHeaders token uid agent custom =
     [(''Authorization'', ''Bearer '' @ token),
      (''X-User-Id'', itoa uid),
      (''User-Agent'', agent),
      (''Accept'', ''text/html,application/xhtml+xml,application/xml;q=0.9,image/webp,*/*;q=0.8''),
      (''Accept-Language'', ''en-US,en;q=0.5''),
      (''Accept-Encoding'', ''gzip, deflate, br''),
      (''DNT'', ''1''),
      (''Upgrade-Insecure-Requests'', ''1''),
      (''Sec-Fetch-Dest'', ''document''),
      (''Sec-Fetch-Mode'', ''navigate''),
      (''Sec-Fetch-Site'', ''none''),
      (''Cache-Control'', ''max-age=0'')] @ custom"

record ws_request =
  url :: string
  request_path :: string
  headers :: "(string \<times> string) list"
  dial_address :: string
  use_tls :: bool

text \<open>
  What \<open>attemptDialWebSocket\<close> asks for: \<open>None\<close> when the address has no port to combine with the edge
  address or the mode is not a WebSocket one. The default configuration has no custom headers.
\<close>

definition attemptDialWebSocket ::
    "nat \<Rightarrow> int \<Rightarrow> string \<Rightarrow> string \<Rightarrow> string \<Rightarrow> string \<Rightarrow> string \<Rightarrow> TransportType \<Rightarrow> ws_request option" where
  "attemptDialWebSocket rnd uid agent addr edgeIP path token mode =
     (let hs = generateObfuscatedHeaders token uid agent [];
          edge = (if edgeIP \<noteq> '''' then
                    (case split_host_port addr of
                       None \<Rightarrow> None
                     | Some (_, port) \<Rightarrow> Some (edgeIP @ '':'' @ port))
                  else Some addr);
          p = generateObfuscatedPath rnd path uid
      in case edge of
           None \<Rightarrow> None
         | Some e \<Rightarrow>
             if mode = WS \<or> mode = WSMUX
             then Some \<lparr>url = ''ws://'' @ addr @ p, request_path = p, headers = hs, dial_address = e, use_tls = False\<rparr>
             else if mode = WSS \<or> mode = WSSMUX
             then Some \<lparr>url = ''wss://'' @ addr @ p, request_path = p, headers = hs, dial_address = e, use_tls = True\<rparr>
             else None)"

section \<open>The state shared by the client transports\<close>

text \<open>
  \<open>usageMonitor\<close> is the store the client was given, \<open>None\<close> for a nil pointer; a restart replaces it.
\<close>

record cli_core =
  ctx_done :: bool
  poolConnections :: int
  loadConnections :: int
  controlFlow :: "unit chan"
  locked :: bool
  usageMonitor :: "nat option"
  ConnPoolSize :: int
  AggressivePool :: bool
  Token :: string
  TunnelStatus :: string
  RetryInterval :: int

definition add_pool :: "int \<Rightarrow> 'z cli_core_scheme \<Rightarrow> 'z cli_core_scheme" where
  "add_pool d s = s\<lparr>poolConnections := int32 (poolConnections s + d)\<rparr>"

definition add_load :: "int \<Rightarrow> 'z cli_core_scheme \<Rightarrow> 'z cli_core_scheme" where
  "add_load d s = s\<lparr>loadConnections := int32 (loadConnections s + d)\<rparr>"

text \<open>
  The reaction to \<open>SG_Chan\<close>: one more unit of load, and a new tunnel unless the pool maintainer left a
  token in \<open>controlFlow\<close>.
\<close>

definition on_chan_signal :: "'z cli_core_scheme \<Rightarrow> 'z cli_core_scheme \<times> effect list" where
  "on_chan_signal s =
     (let s1 = add_load 1 s
      in case take_chan (controlFlow s1) of
           Some (_, ch) \<Rightarrow> (s1\<lparr>controlFlow := ch\<rparr>, [])
         | None \<Rightarrow> (s1, [Go GTunnelDialer]))"

text \<open>The reset of the shared fields in \<open>Restart\<close>, the new store being number \<open>m\<close>.\<close>

definition reset_core :: "nat \<Rightarrow> 'z cli_core_scheme \<Rightarrow> 'z cli_core_scheme" where
  "reset_core m s = s\<lparr>ctx_done := False, usageMonitor := Some m, TunnelStatus := '''',
     poolConnections := 0, loadConnections := 0, controlFlow := make_chan 100, locked := False\<rparr>"

section \<open>The handshake of the client side\<close>

text \<open>
  What \<open>channelDialer\<close> of the TCP, TCPMux and UDP clients does in one pass with the result of the dial:
  send the token, wait for the answer under a deadline, compare it with the token. The transport byte
  of the answer is not looked at. The second component says whether the pass ends with a sleep of
  \<open>RetryInterval\<close>; it is part of the effects.
\<close>

definition client_handshake ::
    "string \<Rightarrow> int \<Rightarrow> bool \<Rightarrow> write_result \<Rightarrow> conn option \<Rightarrow> conn option \<times> effect list" where
  "client_handshake token retry deadline_ok w dial =
     (case dial of
        None \<Rightarrow> (None, [Sleep retry])
      | Some c \<Rightarrow>
          (case send_transport w c token SG_Chan of
             (es, False) \<Rightarrow> (None, es @ [Close (cid c)])
           | (es, True) \<Rightarrow>
               if \<not> deadline_ok then (None, es @ [Close (cid c)])
               else (case ReceiveBinaryTransportString NetConn (input c) of
                       ((msg, transport, err), rest) \<Rightarrow>
                         if err \<noteq> None then (None, es @ [Close (cid c), Sleep retry])
                         else if msg = token then (Some (c\<lparr>input := rest\<rparr>), es)
                         else (None, es @ [Close (cid c), Sleep retry]))))"

lemma client_handshake_Some:
  "client_handshake token retry dl w dial = (Some c', es) \<Longrightarrow>
     \<exists>c. dial = Some c \<and> dl \<and> w = WriteOk \<and>
         fst (fst (ReceiveBinaryTransportString NetConn (input c))) = token \<and>
         snd (snd (fst (ReceiveBinaryTransportString NetConn (input c)))) = None \<and>
         cid c' = cid c \<and>
         es = [Wrote (cid c) (snd (SendBinaryTransportString NetConn WriteOk token SG_Chan))]"
  by (cases w)
     (auto simp: client_handshake_def send_transport_cases split: option.splits if_splits prod.splits)

section \<open>The control channel of the TCP, TCPMux and UDP clients\<close>

record cli_ctl =
  rd :: "byte reader"
  msgChan :: "byte chan"
  main_running :: bool

definition new_cli_ctl :: cli_ctl where
  "new_cli_ctl = \<lparr>rd = new_reader, msgChan = make_chan 1000, main_running = True\<rparr>"

datatype cli_event =
    CReaderCtxDone
  | CReaderReads "byte read_outcome"
  | CReaderSends
  | CMainCtxDone write_result
  | CMainMessage write_result

definition cli_reader :: "cli_event \<Rightarrow> bool \<Rightarrow> cli_ctl \<Rightarrow> (cli_ctl \<times> effect list) option" where
  "cli_reader ev done c =
     (if \<not> running (rd c) then None
      else case ev of
        CReaderCtxDone \<Rightarrow>
          if done \<and> held (rd c) = None then Some (c\<lparr>rd := (rd c)\<lparr>running := False\<rparr>\<rparr>, []) else None
      | CReaderReads out \<Rightarrow>
          if held (rd c) = None then (let (r, es) = reader_read out (rd c) in Some (c\<lparr>rd := r\<rparr>, es)) else None
      | CReaderSends \<Rightarrow>
          (case reader_deliver (rd c) (msgChan c) of
             None \<Rightarrow> None
           | Some (r, ch) \<Rightarrow> Some (c\<lparr>rd := r, msgChan := ch\<rparr>, []))
      | _ \<Rightarrow> None)"

section \<open>Lemmas\<close>

lemma resolve_port: "in_int64 p \<Longrightarrow> 0 \<le> p \<Longrightarrow> ResolveRemoteAddr (itoa p) = Some (p, ''127.0.0.1:'' @ itoa p)"
proof -
  assume p: "in_int64 p" "0 \<le> p"
  have "CHR '':'' \<notin> set (itoa p)"
    using itoa_nonneg_digits [OF p(2), of "CHR '':''"] by (auto simp: is_digit_def)
  then show ?thesis
    using atoi_itoa [OF p(1)] by (simp add: ResolveRemoteAddr_def split_on_absent)
qed

lemma resolve_host_port:
  "CHR '':'' \<notin> set h \<Longrightarrow> in_int64 p \<Longrightarrow> 0 \<le> p \<Longrightarrow>
     ResolveRemoteAddr (h @ CHR '':'' # itoa p) = Some (p, h @ CHR '':'' # itoa p)"
proof -
  assume h: "CHR '':'' \<notin> set h" and p: "in_int64 p" "0 \<le> p"
  have "CHR '':'' \<notin> set (itoa p)"
    using itoa_nonneg_digits [OF p(2), of "CHR '':''"] by (auto simp: is_digit_def)
  then have "split_on (CHR '':'') (h @ CHR '':'' # itoa p) = [h, itoa p]"
    using h by (simp add: split_on_app split_on_absent)
  then show ?thesis using atoi_itoa [OF p(1)] by (simp add: ResolveRemoteAddr_def)
qed

text \<open>An address that resolves is not taken for a ping.\<close>

lemma no_ping: "ResolveRemoteAddr r = Some a \<Longrightarrow> bytes_of r \<noteq> [SG_Ping]"
proof
  assume r: "ResolveRemoteAddr r = Some a" and b: "bytes_of r = [SG_Ping]"
  have "r = string_of [SG_Ping]" using arg_cong [OF b, of string_of] by simp
  then have "r = [CHR 0x02]" by (simp add: string_of_def SG_Ping_def char_of_def bit_Suc_0_iff)
  with r show False by (simp add: ResolveRemoteAddr_def atoi_def parse_uint_def is_digit_def)
qed

section \<open>Properties\<close>

text \<open>
  What a client dials for an address received over the tunnel: a bare port is a port of the local
  host, \<open>host:port\<close> is taken as it is, and an IPv6 address in brackets is rejected because its second
  colon-separated part is not the port.
\<close>

theorem remote_addresses_resolve:
  assumes "0 \<le> p" "p \<le> 65535" "CHR '':'' \<notin> set h"
  shows "ResolveRemoteAddr (itoa p) = Some (p, ''127.0.0.1:'' @ itoa p) \<and>
         ResolveRemoteAddr (h @ CHR '':'' # itoa p) = Some (p, h @ CHR '':'' # itoa p) \<and>
         ResolveRemoteAddr (''[::1]:'' @ itoa p) = None"
proof -
  have "in_int64 p" using assms by (simp add: in_int64_def)
  moreover have "split_on (CHR '':'') (''[::1]:'' @ itoa p) = ''['' # [] # split_on (CHR '':'') (''1]:'' @ itoa p)"
    by (simp split: list.split)
  then have "ResolveRemoteAddr (''[::1]:'' @ itoa p) = None"
    by (simp add: ResolveRemoteAddr_def atoi_def parse_uint_def)
  ultimately show ?thesis
    using assms by (simp add: resolve_port resolve_host_port)
qed

theorem remote_addresses_resolve_witness:
  "ResolveRemoteAddr ''443'' = Some (443, ''127.0.0.1:443'') \<and>
   ResolveRemoteAddr ''1.1.1.1:53'' = Some (53, ''1.1.1.1:53'')"
  using remote_addresses_resolve [of 443 "''1.1.1.1''"] remote_addresses_resolve [of 53 "''1.1.1.1''"]
  by (simp add: itoa_eval)

text \<open>
  C31. Dialling with retries: the result is that of the first attempt that succeeds, or an error after
  \<open>retry\<close> failed attempts; between attempts it sleeps 1, 2, 4, ... seconds and never after the last.
\<close>

theorem dialer_backs_off:
  assumes "0 < retry"
  shows "(if \<exists>k<retry. fst (attemptTcpDialer nd (env k)) \<noteq> None
          then (let k = (LEAST k. fst (attemptTcpDialer nd (env k)) \<noteq> None)
                in fst (TcpDialer retry nd env) = fst (attemptTcpDialer nd (env k)) \<and>
                   sleeps (snd (TcpDialer retry nd env)) = map (\<lambda>j. 2 ^ j) [0..<k])
          else fst (TcpDialer retry nd env) = None \<and>
               sleeps (snd (TcpDialer retry nd env)) = map (\<lambda>j. 2 ^ j) [0..<retry - 1])"
  using dial_loop_outcome [of "\<lambda>i. attemptTcpDialer nd (env i)" 0 retry 1, OF attempt_no_sleep assms]
  by (simp only: TcpDialer_def le0 simp_thms mult_1 diff_zero)

theorem dialer_backs_off_witness:
  "sleeps (snd (TcpDialer 3 True (\<lambda>i. \<lparr>dns_ok = True, dialled = None, nodelay_ok = True\<rparr>))) = [1, 2]"
  using dialer_backs_off [of 3 True "\<lambda>i. \<lparr>dns_ok = True, dialled = None, nodelay_ok = True\<rparr>"]
  by (simp add: attemptTcpDialer_def upt_rec)

end
