(* ===== verification/CliPool.thy ===== *)
theory CliPool
  imports CliShared Complex_Main
begin

text \<open>
  \<open>poolMaintainer\<close>, whose text is the same in the TCP, TCPMux, UDP, WebSocket and WSMux clients: every second it adds
  up the idle tunnels, every ten seconds it compares the load with the average and grows or shrinks
  the pool by one. The \<open>float64\<close> comparison is between small integers multiplied by 0.75 or 4, which
  is exact, so it is a comparison of rationals here.
\<close>

section \<open>State and steps\<close>

record pool =
  newPoolSize :: int
  poolConnectionsSum :: int
  stuck :: bool

definition factor_a :: "bool \<Rightarrow> int" where "factor_a aggressive = (if aggressive then 1 else 4)"
definition factor_b :: "bool \<Rightarrow> int" where "factor_b aggressive = (if aggressive then 2 else 5)"
definition factor_x :: "bool \<Rightarrow> int" where "factor_x aggressive = (if aggressive then 0 else 3)"
definition factor_y :: "bool \<Rightarrow> rat" where "factor_y aggressive = (if aggressive then 3 / 4 else 4)"

text \<open>The initial filling, before the loop.\<close>

definition pool_start :: "'z cli_core_scheme \<Rightarrow> pool \<times> effect list" where
  "pool_start s =
     (\<lparr>newPoolSize = ConnPoolSize s, poolConnectionsSum = 0, stuck = False\<rparr>,
      replicate (nat (ConnPoolSize s)) (Go GTunnelDialer))"

definition pool_tick :: "'z cli_core_scheme \<times> pool \<Rightarrow> 'z cli_core_scheme \<times> pool" where
  "pool_tick sp =
     (case sp of (s, p) \<Rightarrow>
       (s, p\<lparr>poolConnectionsSum := int32 (poolConnectionsSum p + poolConnections s)\<rparr>))"

text \<open>
  The load of the last ten seconds and the average of the pool, rounded up by adding 9. When
  \<open>controlFlow\<close> is full the send blocks the maintainer: \<open>stuck\<close>.
\<close>

definition pool_load :: "'z cli_core_scheme \<times> pool \<Rightarrow> ('z cli_core_scheme \<times> pool) \<times> effect list" where
  "pool_load sp =
     (case sp of (s, p) \<Rightarrow>
       (let load = go_div (loadConnections s + 9) 10;
            avg = go_div (poolConnectionsSum p + 9) 10;
            s1 = s\<lparr>loadConnections := 0\<rparr>;
            p1 = p\<lparr>poolConnectionsSum := 0\<rparr>;
            ag = AggressivePool s
        in if load + factor_a ag > avg * factor_b ag
           then ((s1, p1\<lparr>newPoolSize := newPoolSize p + 1\<rparr>), [Go GTunnelDialer])
           else if of_int (load + factor_x ag) < of_int avg * factor_y ag \<and> newPoolSize p > ConnPoolSize s
           then (case offer () (controlFlow s1) of
                   (ch, True) \<Rightarrow> ((s1\<lparr>controlFlow := ch\<rparr>, p1\<lparr>newPoolSize := newPoolSize p - 1\<rparr>), [])
                 | (_, False) \<Rightarrow> ((s1, p1\<lparr>newPoolSize := newPoolSize p - 1, stuck := True\<rparr>), []))
           else ((s1, p1), [])))"

definition pool_unstick :: "'z cli_core_scheme \<times> pool \<Rightarrow> ('z cli_core_scheme \<times> pool) option" where
  "pool_unstick sp =
     (case sp of (s, p) \<Rightarrow>
       (if stuck p
        then (case offer () (controlFlow s) of
                (ch, True) \<Rightarrow> Some (s\<lparr>controlFlow := ch\<rparr>, p\<lparr>stuck := False\<rparr>)
              | (_, False) \<Rightarrow> None)
        else None))"

text \<open>
  The loop of \<open>poolMaintainer\<close>: one case of its \<open>select\<close>, or the blocked send getting through. The
  maintainer that is blocked in the send reaches no \<open>select\<close>; \<open>False\<close> ends the loop.
\<close>

datatype pool_event = PoolCtxDone | PoolTick | PoolLoad | PoolUnstick

definition poolMaintainer ::
    "pool_event \<Rightarrow> 'z cli_core_scheme \<times> pool \<Rightarrow> (('z cli_core_scheme \<times> pool) \<times> bool \<times> effect list) option" where
  "poolMaintainer ev sp =
     (case ev of
        PoolUnstick \<Rightarrow> (case pool_unstick sp of None \<Rightarrow> None | Some sp' \<Rightarrow> Some (sp', True, []))
      | PoolCtxDone \<Rightarrow> if ctx_done (fst sp) \<and> \<not> stuck (snd sp) then Some (sp, False, []) else None
      | PoolTick \<Rightarrow> if stuck (snd sp) then None else Some (pool_tick sp, True, [])
      | PoolLoad \<Rightarrow>
          if stuck (snd sp) then None
          else (case pool_load sp of (sp', es) \<Rightarrow> Some (sp', True, es)))"

section \<open>The pool as a state machine\<close>

text \<open>
  The maintainer with the goroutines that change the shared counters: tunnels come and go, signals
  arrive. \<open>grown\<close>, \<open>shrunk\<close> and \<open>spent\<close> count the additional dials, the decisions to shrink and the signals that took a
  token instead of dialling.
\<close>

record pool_world =
  cli :: cli_core
  pl :: pool
  grown :: nat
  shrunk :: nat
  spent :: nat

inductive pool_step :: "pool_world \<Rightarrow> pool_world \<Rightarrow> bool" where
  tick: "\<not> stuck (pl w) \<Longrightarrow> pool_tick (cli w, pl w) = (s', p') \<Longrightarrow>
     pool_step w (w\<lparr>cli := s', pl := p'\<rparr>)"
| load: "\<not> stuck (pl w) \<Longrightarrow> pool_load (cli w, pl w) = ((s', p'), es) \<Longrightarrow>
     pool_step w (w\<lparr>cli := s', pl := p', grown := grown w + length es,
       shrunk := shrunk w + (if newPoolSize p' < newPoolSize (pl w) then 1 else 0)\<rparr>)"
| unstick: "pool_unstick (cli w, pl w) = Some (s', p') \<Longrightarrow> pool_step w (w\<lparr>cli := s', pl := p'\<rparr>)"
| signal: "on_chan_signal (cli w) = (s', es) \<Longrightarrow>
     pool_step w (w\<lparr>cli := s', spent := spent w + (if es = [] then 1 else 0)\<rparr>)"
| tunnels: "pool_step w (w\<lparr>cli := add_pool d (cli w)\<rparr>)"

definition pool_init :: "cli_core \<Rightarrow> pool_world" where
  "pool_init s = \<lparr>cli = s\<lparr>controlFlow := make_chan 100\<rparr>, pl = fst (pool_start s), grown = 0, shrunk = 0, spent = 0\<rparr>"

inductive pool_reach :: "cli_core \<Rightarrow> pool_world \<Rightarrow> bool" for s0 where
  init: "pool_reach s0 (pool_init s0)"
| step: "pool_reach s0 w \<Longrightarrow> pool_step w w' \<Longrightarrow> pool_reach s0 w'"

definition pool_inv :: "cli_core \<Rightarrow> pool_world \<Rightarrow> bool" where
  "pool_inv s0 w \<longleftrightarrow>
     ConnPoolSize (cli w) = ConnPoolSize s0 \<and> AggressivePool (cli w) = AggressivePool s0 \<and>
     ConnPoolSize s0 \<le> newPoolSize (pl w) \<and>
     newPoolSize (pl w) = ConnPoolSize s0 + int (grown w) - int (shrunk w) \<and>
     chan_ok (controlFlow (cli w)) \<and> cap (controlFlow (cli w)) = 100 \<and>
     shrunk w = length (buf (controlFlow (cli w))) + spent w + (if stuck (pl w) then 1 else 0)"

lemma core_simps [simp]:
  "ConnPoolSize (add_pool d s) = ConnPoolSize s" "AggressivePool (add_pool d s) = AggressivePool s"
  "controlFlow (add_pool d s) = controlFlow s"
  "ConnPoolSize (add_load d s) = ConnPoolSize s" "AggressivePool (add_load d s) = AggressivePool s"
  "controlFlow (add_load d s) = controlFlow s" "loadConnections (add_load d s) = int32 (loadConnections s + d)"
  by (simp_all add: add_pool_def add_load_def)

lemma pool_load_cases:
  assumes "pool_load (s, p) = ((s', p'), es)"
  obtains (grow) "s' = s\<lparr>loadConnections := 0\<rparr>"
      "p' = p\<lparr>poolConnectionsSum := 0, newPoolSize := newPoolSize p + 1\<rparr>" "es = [Go GTunnelDialer]"
  | (shrink) ch where "newPoolSize p > ConnPoolSize s" "offer () (controlFlow s) = (ch, True)"
      "s' = s\<lparr>loadConnections := 0, controlFlow := ch\<rparr>"
      "p' = p\<lparr>poolConnectionsSum := 0, newPoolSize := newPoolSize p - 1\<rparr>" "es = []"
  | (block) "newPoolSize p > ConnPoolSize s" "s' = s\<lparr>loadConnections := 0\<rparr>"
      "p' = p\<lparr>poolConnectionsSum := 0, newPoolSize := newPoolSize p - 1, stuck := True\<rparr>" "es = []"
  | (keep) "s' = s\<lparr>loadConnections := 0\<rparr>" "p' = p\<lparr>poolConnectionsSum := 0\<rparr>" "es = []"
  using assms
  by (cases rule: offer_cases [of "controlFlow s" "()"])
     (auto simp: pool_load_def Let_def split: if_splits)

lemma pool_step_inv: "pool_step w w' \<Longrightarrow> pool_inv s0 w \<Longrightarrow> pool_inv s0 w'"
proof (induction rule: pool_step.induct)
  case (tick w s' p')
  then show ?case by (auto simp: pool_inv_def pool_tick_def)
next
  case (load w s' p' es)
  from load(2) show ?case
  proof (cases rule: pool_load_cases)
    case grow
    then show ?thesis using load(1,3) by (simp add: pool_inv_def)
  next
    case (shrink ch)
    then show ?thesis using load(1,3) offer_True [OF shrink(2)] by (simp add: pool_inv_def)
  next
    case block
    then show ?thesis using load(1,3) by (simp add: pool_inv_def)
  next
    case keep
    then show ?thesis using load(1,3) by (simp add: pool_inv_def)
  qed
next
  case (unstick w s' p')
  then obtain ch where u: "stuck (pl w)" and o: "offer () (controlFlow (cli w)) = (ch, True)"
    and r: "s' = (cli w)\<lparr>controlFlow := ch\<rparr>" "p' = (pl w)\<lparr>stuck := False\<rparr>"
    by (auto simp: pool_unstick_def split: if_splits prod.splits bool.splits)
  then show ?case using unstick(2) u r offer_True [OF o] by (simp add: pool_inv_def)
next
  case (signal w s' es)
  show ?case
  proof (cases "take_chan (controlFlow (cli w))")
    case None
    then show ?thesis using signal by (auto simp: on_chan_signal_def Let_def pool_inv_def)
  next
    case (Some a)
    obtain ch where a: "a = ((), ch)" by (cases a) simp
    have "chan_ok (controlFlow (cli w))" using signal(2) by (simp add: pool_inv_def)
    from shrinks_ok [OF shrinks_take this] Some a take_chan_len [of "controlFlow (cli w)" "()" ch]
    show ?thesis using signal by (auto simp: on_chan_signal_def Let_def pool_inv_def)
  qed
next
  case (tunnels w d)
  then show ?case by (simp add: pool_inv_def)
qed

lemma pool_reach_inv: "pool_reach s0 w \<Longrightarrow> pool_inv s0 w"
proof (induction rule: pool_reach.induct)
  case init
  show ?case by (simp add: pool_inv_def pool_init_def pool_start_def)
next
  case (step w w')
  then show ?case using pool_step_inv by blast
qed

section \<open>Properties\<close>

text \<open>
  C11. Whatever the load and however tunnels come and go, the pool size the maintainer aims at never
  falls below the configured one and is that size plus the additional dials minus the decisions to
  shrink; every such decision is a token in \<open>controlFlow\<close>, a dial that was skipped for it, or the send that is
  still blocked.
\<close>

theorem pool_never_below_configured:
  assumes "pool_reach s0 w"
  shows "ConnPoolSize s0 \<le> newPoolSize (pl w) \<and>
         newPoolSize (pl w) = ConnPoolSize s0 + int (grown w) - int (shrunk w) \<and>
         shrunk w = length (buf (controlFlow (cli w))) + spent w + (if stuck (pl w) then 1 else 0) \<and>
         length (buf (controlFlow (cli w))) \<le> 100"
  using pool_reach_inv [OF assms] by (simp add: pool_inv_def chan_ok_def)

definition sample_core :: cli_core where
  "sample_core = \<lparr>ctx_done = False, poolConnections = 0, loadConnections = 25, controlFlow = make_chan 100,
     locked = False, usageMonitor = None, ConnPoolSize = 8, AggressivePool = True, Token = ''musix'',
     TunnelStatus = '''', RetryInterval = 3\<rparr>"

theorem pool_never_below_configured_witness:
  "\<exists>w :: pool_world. newPoolSize (pl w) = 9 \<and> grown w = 1 \<and> ConnPoolSize sample_core \<le> newPoolSize (pl w)"
proof -
  let ?s = "(cli (pool_init sample_core))\<lparr>loadConnections := 0\<rparr>"
  let ?p = "(pl (pool_init sample_core))\<lparr>newPoolSize := 9\<rparr>"
  have "pool_load (cli (pool_init sample_core), pl (pool_init sample_core)) = ((?s, ?p), [Go GTunnelDialer])"
    by (simp add: pool_load_def pool_init_def pool_start_def sample_core_def factor_a_def factor_b_def
        go_div_def Let_def)
  from pool_step.load [OF _ this] have "pool_step (pool_init sample_core)
      ((pool_init sample_core)\<lparr>cli := ?s, pl := ?p, grown := 1, shrunk := 0\<rparr>)"
    by (simp add: pool_init_def pool_start_def sample_core_def)
  from pool_never_below_configured [OF pool_reach.step [OF pool_reach.init this]] show ?thesis
    by - (rule exI [of _ "(pool_init sample_core)\<lparr>cli := ?s, pl := ?p, grown := 1, shrunk := 0\<rparr>"], simp)
qed

text \<open>
  The decision of the aggressive pool (the only one a configuration can select) with \<open>load\<close> the
  signals per second of the last ten seconds and \<open>avg\<close> the average number of idle tunnels, both rounded
  up: it grows exactly when \<open>load + 1 > 2 * avg\<close> and shrinks exactly when it did not grow, is above the
  configured size and \<open>load\<close> is less than three quarters of \<open>avg\<close>.
\<close>

theorem aggressive_pool_decision:
  assumes "AggressivePool s" "0 \<le> loadConnections s" "0 \<le> poolConnectionsSum p"
    and "pool_load (s, p) = ((s', p'), es)"
  shows "newPoolSize p' =
           (let load = (loadConnections s + 9) div 10; avg = (poolConnectionsSum p + 9) div 10
            in if 2 * avg < load + 1 then newPoolSize p + 1
               else if 4 * load < 3 * avg \<and> ConnPoolSize s < newPoolSize p then newPoolSize p - 1
               else newPoolSize p)"
proof -
  have three: "(of_int l < of_int a * (3 / 4 :: rat)) \<longleftrightarrow> 4 * l < 3 * a" for l a :: int
  proof -
    have "(of_int l < of_int a * (3 / 4 :: rat)) \<longleftrightarrow> (of_int (4 * l) < (of_int (3 * a) :: rat))"
      by (simp add: field_simps)
    then show ?thesis by (simp only: of_int_less_iff)
  qed
  show ?thesis
    using assms
    by (cases rule: offer_cases [of "controlFlow s" "()"])
       (auto simp: pool_load_def factor_a_def factor_b_def factor_x_def factor_y_def go_div_nonneg three Let_def
         split: if_splits)
qed

theorem aggressive_pool_decision_witness:
  "newPoolSize (snd (fst (pool_load (sample_core, \<lparr>newPoolSize = 12, poolConnectionsSum = 120, stuck = False\<rparr>)))) = 11"
proof -
  obtain s' p' es where l: "pool_load (sample_core, \<lparr>newPoolSize = 12, poolConnectionsSum = 120, stuck = False\<rparr>) =
      ((s', p'), es)"
    by (metis surj_pair)
  have "AggressivePool sample_core" "0 \<le> loadConnections sample_core" by (simp_all add: sample_core_def)
  from aggressive_pool_decision [OF this _ l] l show ?thesis by (simp add: sample_core_def Let_def)
qed

end
