(* ===== verification/CliTcp.thy ===== *)
theory CliTcp
  imports CliPool
begin

text \<open>
  The TCP client, \<open>internal/client/transport/tcp.go\<close>: \<open>TcpClient\<close> extends the shared \<open>cli_core\<close>. A
  goroutine that waits for the network is split where it waits.
\<close>

section \<open>State\<close>

record TcpClient = cli_core +
  controlChannel :: "conn option"
  RemoteAddr :: string
  Nodelay :: bool
  Sniffer :: bool
  monitors :: nat

definition NewTCPClient ::
    "string \<Rightarrow> string \<Rightarrow> int \<Rightarrow> int \<Rightarrow> bool \<Rightarrow> bool \<Rightarrow> bool \<Rightarrow> nat option \<Rightarrow> TcpClient" where
  "NewTCPClient remote token retry poolsize nodelay sniffer aggressive usage =
     \<lparr>ctx_done = False, poolConnections = 0, loadConnections = 0, controlFlow = make_chan 100,
      locked = False, usageMonitor = usage, ConnPoolSize = poolsize, AggressivePool = aggressive,
      Token = token, TunnelStatus = '''', RetryInterval = retry, controlChannel = None,
      RemoteAddr = remote, Nodelay = nodelay, Sniffer = sniffer, monitors = 0\<rparr>"

section \<open>Start and Restart\<close>

definition tcpc_Start :: "TcpClient \<Rightarrow> TcpClient \<times> effect list" where
  "tcpc_Start c = (c\<lparr>TunnelStatus := ''Disconnected (TCP)''\<rparr>, [Go GChannelDialer])"

definition tcpc_Restart :: "TcpClient \<Rightarrow> TcpClient \<times> effect list" where
  "tcpc_Restart c =
     (if locked c then (c, [])
      else (c\<lparr>locked := True, ctx_done := True\<rparr>,
            (case controlChannel c of None \<Rightarrow> [] | Some cc \<Rightarrow> [Close (cid cc)]) @ [Sleep 2]))"

definition tcpc_Restart_finish :: "TcpClient \<Rightarrow> TcpClient \<times> effect list" where
  "tcpc_Restart_finish c =
     ((reset_core (monitors c) c)\<lparr>controlChannel := None, monitors := monitors c + 1\<rparr>, [Go GStart])"

interpretation tcpc_restart: restartable locked tcpc_Restart tcpc_Restart_finish
  by unfold_locales (auto simp: tcpc_Restart_def tcpc_Restart_finish_def reset_core_def)

section \<open>The control channel\<close>

text \<open>One pass of \<open>channelDialer\<close> with the result of \<open>TcpDialer\<close>; \<open>True\<close> when it returns.\<close>

definition tcpc_channelDialer ::
    "bool \<Rightarrow> write_result \<Rightarrow> conn option \<Rightarrow> TcpClient \<Rightarrow> TcpClient \<times> bool \<times> effect list" where
  "tcpc_channelDialer deadline_ok w dial c =
     (case client_handshake (Token c) (RetryInterval c) deadline_ok w dial of
        (None, es) \<Rightarrow> (c, False, es)
      | (Some cc, es) \<Rightarrow>
          (c\<lparr>controlChannel := Some cc, TunnelStatus := ''Connected (TCP)''\<rparr>, True,
           es @ [Go GPoolMaintainer, Go GChannelHandler]))"

definition tcpc_channelHandler ::
    "cli_event \<Rightarrow> TcpClient \<times> cli_ctl \<Rightarrow> ((TcpClient \<times> cli_ctl) \<times> effect list) option" where
  "tcpc_channelHandler ev ck =
     (case ck of (c, k) \<Rightarrow> case controlChannel c of None \<Rightarrow> None | Some cc \<Rightarrow>
        (case ev of
           CMainCtxDone w \<Rightarrow>
             if main_running k \<and> ctx_done c
             then Some ((c, k\<lparr>main_running := False\<rparr>), fst (send_signal w cc SG_Closed))
             else None
         | CMainMessage w \<Rightarrow>
             if \<not> main_running k then None
             else (case take_chan (msgChan k) of
                None \<Rightarrow> None
              | Some (m, ch) \<Rightarrow>
                  (let k' = k\<lparr>msgChan := ch\<rparr>; halted = k'\<lparr>main_running := False\<rparr>
                   in if m = SG_Chan then (let (c', es) = on_chan_signal c in Some ((c', k'), es))
                      else if m = SG_HB then Some ((c, k'), [])
                      else if m = SG_Closed then Some ((c, halted), [Go GRestart])
                      else if m = SG_RTT
                      then (case send_signal w cc SG_RTT of
                              (es, True) \<Rightarrow> Some ((c, k'), es)
                            | (es, False) \<Rightarrow> Some ((c, halted), es @ [Go GRestart]))
                      else Some ((c, halted), [Go GRestart])))
         | _ \<Rightarrow>
             (case cli_reader ev (ctx_done c) k of
                None \<Rightarrow> None
              | Some (k', es) \<Rightarrow> Some ((c, k'), es))))"

section \<open>The pool\<close>

definition tcpc_poolMaintainer_begin :: "TcpClient \<Rightarrow> pool \<times> effect list" where
  "tcpc_poolMaintainer_begin = pool_start"

definition tcpc_poolMaintainer ::
    "pool_event \<Rightarrow> TcpClient \<times> pool \<Rightarrow> ((TcpClient \<times> pool) \<times> bool \<times> effect list) option" where
  "tcpc_poolMaintainer = poolMaintainer"

section \<open>Tunnels\<close>

text \<open>
  \<open>tunnelDialer\<close> up to the read: a failed dial ends it, a connection is counted and waits. Then the
  frame of the server decides: a target to dial over TCP, one to dial over UDP, or the end.
\<close>

definition tcpc_tunnelDialer :: "conn option \<Rightarrow> TcpClient \<Rightarrow> TcpClient \<times> conn option" where
  "tcpc_tunnelDialer dial c =
     (case dial of None \<Rightarrow> (c, None) | Some t \<Rightarrow> (add_pool 1 c, Some t))"

datatype tunnel_action = TunnelClosed | DialTCP string int | DialUDP string int

definition tcpc_tunnelDialer_received :: "conn \<Rightarrow> TcpClient \<Rightarrow> TcpClient \<times> tunnel_action \<times> effect list" where
  "tcpc_tunnelDialer_received t c =
     (case ReceiveBinaryTransportString NetConn (input t) of
        ((remote, transport, err), rest) \<Rightarrow>
          (let c' = add_pool (- 1) c
           in if err \<noteq> None then (c', TunnelClosed, [Close (cid t)])
              else case ResolveRemoteAddr remote of
                None \<Rightarrow> (c', TunnelClosed, [Close (cid t)])
              | Some (port, addr) \<Rightarrow>
                  if transport = SG_TCP then (c', DialTCP addr port, [])
                  else if transport = SG_UDP
                  then (c', DialUDP addr port, [DialedUDP (cid t) addr port (Sniffer c)])
                  else (c', TunnelClosed, [Close (cid t)])))"

definition tcpc_localDialer :: "conn \<Rightarrow> int \<Rightarrow> conn option \<Rightarrow> TcpClient \<Rightarrow> effect list" where
  "tcpc_localDialer t port dial c =
     (case dial of
        None \<Rightarrow> [Close (cid t)]
      | Some l \<Rightarrow> [Piped (cid t) (cid l) port (Sniffer c)])"

end
