(* ===== verification/TcpDials.thy ===== *)
theory TcpDials
  imports TcpSystem
begin

text \<open>
  The budget of the system of \<open>TcpSystem\<close>: every dial of the client is one of its initial pool, one the pool
  maintainer decided on, or the answer to a signal; every signal is for a local connection or a datagram. The invariant
  follows a request from \<open>reqNewConnChan\<close> of the server over the control channel, the reader and \<open>messageChan\<close> of
  the client to the dial.
\<close>

section \<open>What each connection carries\<close>

definition is_control :: "tcp_system \<Rightarrow> nat \<Rightarrow> bool" where
  "is_control s n \<longleftrightarrow> (\<exists>cc. TcpServer.controlChannel (srv (world s)) = Some cc \<and> cid cc = n)"

definition connected_on :: "tcp_system \<Rightarrow> nat \<Rightarrow> bool" where
  "connected_on s n \<longleftrightarrow> handler s \<noteq> None \<and> (\<exists>cc. TcpClient.controlChannel (client s) = Some cc \<and> cid cc = n)"

text \<open>
  A connection given away carries its target; one that was refused a part of the answer to a token; the control channel
  of the server that answer and then signals; all others nothing. The client is connected on the control channel of
  the server or on one it was refused after the whole answer, on which nothing follows.
\<close>

definition form :: "bytes \<Rightarrow> tcp_system \<Rightarrow> nat \<Rightarrow> bool" where
  "form F s n \<longleftrightarrow>
     (\<forall>l. (n, l) \<in> set (served s) \<longrightarrow> carried s n (remoteAddr l, SG_TCP)) \<and>
     (\<forall>r. (n, r) \<in> set (served_udp s) \<longrightarrow> carried s n (r, SG_UDP)) \<and>
     (n \<in> set (done_ids (world s)) - given s \<longrightarrow> (\<exists>x. wire s n @ x = F)) \<and>
     (n \<notin> set (done_ids (world s)) \<and> \<not> is_control s n \<longrightarrow> wire s n = []) \<and>
     (is_control s n \<and> \<not> connected_on s n \<longrightarrow> (\<exists>sigs. wire s n = F @ sigs)) \<and>
     (connected_on s n \<longrightarrow> is_control s n \<or> n \<in> set (done_ids (world s)) - given s \<and> wire s n = [])"

lemma formD:
  assumes "form F s n"
  shows "(n, l) \<in> set (served s) \<Longrightarrow> carried s n (remoteAddr l, SG_TCP)"
    and "(n, r) \<in> set (served_udp s) \<Longrightarrow> carried s n (r, SG_UDP)"
    and "n \<in> set (done_ids (world s)) - given s \<Longrightarrow> \<exists>x. wire s n @ x = F"
    and "n \<notin> set (done_ids (world s)) \<Longrightarrow> \<not> is_control s n \<Longrightarrow> wire s n = []"
    and "is_control s n \<Longrightarrow> \<not> connected_on s n \<Longrightarrow> \<exists>sigs. wire s n = F @ sigs"
    and "connected_on s n \<Longrightarrow> is_control s n \<or> n \<in> set (done_ids (world s)) - given s \<and> wire s n = []"
  using assms unfolding form_def by blast+

lemma formI:
  assumes "\<And>l. (n, l) \<in> set (served s) \<Longrightarrow> carried s n (remoteAddr l, SG_TCP)"
    and "\<And>r. (n, r) \<in> set (served_udp s) \<Longrightarrow> carried s n (r, SG_UDP)"
    and "n \<in> set (done_ids (world s)) - given s \<Longrightarrow> \<exists>x. wire s n @ x = F"
    and "n \<notin> set (done_ids (world s)) \<Longrightarrow> \<not> is_control s n \<Longrightarrow> wire s n = []"
    and "is_control s n \<Longrightarrow> \<not> connected_on s n \<Longrightarrow> \<exists>sigs. wire s n = F @ sigs"
    and "connected_on s n \<Longrightarrow> is_control s n \<or> n \<in> set (done_ids (world s)) - given s \<and> wire s n = []"
  shows "form F s n"
  using assms unfolding form_def by blast

lemma once_arrived:
  assumes "tcp_inv w"
  shows "count (srv_ids (srv w)) n + count (mset (done_ids w)) n \<le> 1"
proof -
  have "mset (arrived w) = srv_ids (srv w) + loop_ids (hloops w) + mset (done_ids w) + mset (leaked w)"
    and d: "distinct (arrived w)" using assms by (simp_all add: tcp_inv_def)
  then have "count (srv_ids (srv w)) n + count (mset (done_ids w)) n \<le> count (mset (arrived w)) n" by simp
  also have "\<dots> \<le> 1" using d by (simp add: distinct_count_atmost_1)
  finally show ?thesis .
qed

lemma queue_not_control:
  assumes "tcp_inv (world s)" "c \<in> set (buf (tunnelChannel (srv (world s))))"
  shows "\<not> is_control s (cid c) \<and> cid c \<notin> set (done_ids (world s))"
proof -
  have q: "0 < count (mset (conn_ids (buf (tunnelChannel (srv (world s)))))) (cid c)"
    using assms(2) by (simp add: conn_ids_def)
  have "\<not> is_control s (cid c)"
  proof
    assume "is_control s (cid c)"
    then have "count (srv_ids (srv (world s))) (cid c) = count (mset (conn_ids (buf (tunnelChannel (srv (world s)))))) (cid c) +
        count (mset (local_ids (buf (localChannel (srv (world s)))))) (cid c) + 1"
      by (auto simp: is_control_def srv_ids_def)
    then show False using q once_arrived [OF assms(1), of "cid c"] by linarith
  qed
  then show ?thesis using queue_arrived [OF assms] by simp
qed

lemma control_not_done:
  assumes "tcp_inv (world s)" "is_control s n"
  shows "n \<notin> set (done_ids (world s))"
proof
  assume "n \<in> set (done_ids (world s))"
  then have "n \<in># mset (done_ids (world s))" by simp
  then have "1 \<le> count (mset (done_ids (world s))) n" by (simp only: count_greater_eq_one_iff)
  moreover have "n \<in># srv_ids (srv (world s))" using assms(2) by (auto simp: is_control_def srv_ids_def)
  then have "1 \<le> count (srv_ids (srv (world s))) n" by (simp only: count_greater_eq_one_iff)
  ultimately show False using once_arrived [OF assms(1), of n] by linarith
qed

section \<open>Preservation by the server\<close>

text \<open>A connection the step neither writes on nor gives away.\<close>

lemma form_aside:
  assumes f: "form F s n" and i: "tcp_inv (world s')" and g: "given s \<subseteq> set (done_ids (world s))"
    and s': "wire s' n = wire s n" "set (done_ids (world s)) \<subseteq> set (done_ids (world s'))"
      "is_control s' n \<longleftrightarrow> is_control s n" "connected_on s' n \<longleftrightarrow> connected_on s n" "n \<in> given s' \<longleftrightarrow> n \<in> given s"
      "n \<in> set (flowing s') \<longleftrightarrow> n \<in> set (flowing s)"
      "\<And>l. (n, l) \<in> set (served s') \<Longrightarrow> (n, l) \<in> set (served s)"
      "\<And>r. (n, r) \<in> set (served_udp s') \<Longrightarrow> (n, r) \<in> set (served_udp s)"
  shows "form F s' n"
proof (rule formI)
  show "carried s' n (remoteAddr l, SG_TCP)" if "(n, l) \<in> set (served s')" for l
    using formD(1) [OF f s'(7) [OF that]] s'(1,6) by (simp add: carried_def)
  show "carried s' n (r, SG_UDP)" if "(n, r) \<in> set (served_udp s')" for r
    using formD(2) [OF f s'(8) [OF that]] s'(1,6) by (simp add: carried_def)
  show "\<exists>x. wire s' n @ x = F" if "n \<in> set (done_ids (world s')) - given s'"
  proof (cases "n \<in> set (done_ids (world s))")
    case True
    then show ?thesis using that formD(3) [OF f] s'(1,5) by simp
  next
    case False
    then show ?thesis using that formD(4) [OF f] s'(1,3) control_not_done [OF i, of n] by auto
  qed
  show "wire s' n = []" if "n \<notin> set (done_ids (world s'))" "\<not> is_control s' n"
    using that formD(4) [OF f] s'(1-3) by auto
  show "\<exists>sigs. wire s' n = F @ sigs" if "is_control s' n" "\<not> connected_on s' n"
    using that formD(5) [OF f] s'(1,3,4) by simp
  show "is_control s' n \<or> n \<in> set (done_ids (world s')) - given s' \<and> wire s' n = []" if "connected_on s' n"
    using that formD(6) [OF f] s'(1-5) by auto
qed

lemma form_server:
  assumes f: "\<And>n. form F s n" and i: "tcp_inv (world s)" "tcp_inv w'" and g: "given s \<subseteq> set (done_ids (world s))"
    and st: "tcp_step (world s) ev es w'" and F: "F = transport_enc (TcpConfig.Token (config (srv (world s))), SG_Chan)"
    and fl: "set (flowing s) \<subseteq> given s"
  shows "form F (serve ev es w' s) n"
proof -
  let ?s = "serve ev es w' s"
  have conn: "connected_on ?s m \<longleftrightarrow> connected_on s m" for m by (simp add: connected_on_def serve_def)
  have wire: "wire ?s m = wire s m @ sent m es" for m by (simp add: serve_def)
  have d: "done_ids (world ?s) = done_ids (world s) @ gone es" using done_step [OF st] by (simp add: serve_def)
  have i': "tcp_inv (world ?s)" using i(2) by (simp add: serve_def)
  have ungiven: "(m, l) \<notin> set (served s)" "(m, r) \<notin> set (served_udp s)" if "m \<notin> given s" for m l r
    using that by (auto dest: given_served)
  have keep: "form F ?s m" if "sent m es = []" "is_control ?s m \<longleftrightarrow> is_control s m"
      "m \<notin> fst ` set (answered (world s) ev es)" "m \<notin> fst ` set (answered_udp (world s) ev es)" "m \<notin> set (flows es)" for m
    by (rule form_aside [OF f i' g]) (use that conn d in \<open>auto simp: serve_def given_def rev_image_eqI\<close>)
  have queued: "\<not> is_control s (cid c)" "cid c \<notin> set (done_ids (world s))" "cid c \<notin> given s" "wire s (cid c) = []"
      "\<not> connected_on s (cid c)" if "c \<in> set (buf (tunnelChannel (srv (world s))))" for c
    using queue_not_control [OF i(1) that] formD(4,6) [OF f [of "cid c"]] g by auto
  from st i(1) show ?thesis
  proof (cases rule: step_signals)
    case (won c cc)
    have ctl: "is_control ?s m \<longleftrightarrow> m = cid c" for m using won(3,4) by (auto simp: is_control_def serve_def)
    have no: "\<not> is_control s m" for m using won(2) by (simp add: is_control_def)
    note q = queued [OF won(1)]
    show ?thesis
    proof (cases "n = cid c")
      case True
      have "n \<notin> set (done_ids (world ?s))" using control_not_done [OF i'] ctl True by blast
      moreover have "n \<notin> given ?s" using q(3) True won(7,8) by (auto simp: given_def serve_def)
      ultimately show ?thesis
        using True ctl q won(6) F wire [of n] by (intro formI) (auto dest: given_served)
    next
      case False
      then show ?thesis using won(6-9) ctl no by (intro keep) auto
    qed
  next
    case (lost c x)
    have ctl: "is_control ?s m \<longleftrightarrow> is_control s m" for m using lost(2) by (simp add: is_control_def serve_def)
    note q = queued [OF lost(1)]
    show ?thesis
    proof (cases "n = cid c")
      case True
      have "n \<notin> given ?s" using q(3) True lost(7,8) by (auto simp: given_def serve_def)
      moreover have "n \<in> set (done_ids (world ?s))" using lost(3) True by (simp add: serve_def)
      ultimately show ?thesis
        using True ctl q lost(5) F wire [of n] conn by (intro formI) (auto dest: given_served)
    next
      case False
      then show ?thesis using lost(4,7-9) ctl by (intro keep) auto
    qed
  next
    case (control cc)
    have ctl: "is_control ?s m \<longleftrightarrow> is_control s m" for m using control(1,2) by (simp add: is_control_def serve_def)
    show ?thesis
    proof (cases "n = cid cc")
      case True
      have c: "is_control ?s n" "is_control s n" using control(1,2) True by (auto simp: is_control_def serve_def)
      have nd: "n \<notin> set (done_ids (world ?s))" using control_not_done [OF i' c(1)] .
      then have "n \<notin> given ?s" using g d control(5,6) by (auto simp: given_def serve_def)
      then show ?thesis
        using c nd formD(5) [OF f c(2)] conn wire [of n] by (intro formI) (auto dest: given_served)
    next
      case False
      then show ?thesis using control(3,5-7) ctl by (intro keep) auto
    qed
  next
    case (gives t)
    have ctl: "is_control ?s m \<longleftrightarrow> is_control s m" for m using gives(1) by (simp add: is_control_def serve_def)
    note q = queued [OF gives(2)]
    have nf: "cid t \<notin> set (flowing s)" using q(3) fl by auto
    have new: "carried ?s (cid t) m" if "sent (cid t) es @ x = transport_enc m" "cid t \<in> set (flows es) \<Longrightarrow> x = []" for m x
    proof (cases "cid t \<in> set (flows es)")
      case True
      then have "wire ?s (cid t) = transport_enc m @ []" using that q(4) wire by simp
      moreover have "cid t \<in> set (flowing ?s)" using True by (simp add: serve_def)
      ultimately show ?thesis unfolding carried_def by auto
    next
      case False
      have "wire ?s (cid t) @ x = transport_enc m @ []" using that(1) q(4) wire by simp
      then have "carries (wire ?s (cid t)) m" unfolding carries_def by blast
      moreover have "cid t \<notin> set (flowing ?s)" using False nf by (simp add: serve_def)
      ultimately show ?thesis by (simp add: carried_def)
    qed
    from st show ?thesis
    proof (cases rule: step_effects)
      case other
      then show ?thesis using gives(5) by simp
    next
      case (user i p t' x)
      then have t: "cid t' = cid t" using gives(5) by simp
      show ?thesis
      proof (cases "n = cid t")
        case True
        have "n \<in> given ?s" "n \<in> set (done_ids (world ?s))" using user(4,8) t True d by (auto simp: given_def serve_def)
        moreover have "carried ?s n (remoteAddr p, SG_TCP)" using new [of x] user(7,9) t True by auto
        ultimately show ?thesis
          using True q ctl conn user(4,5) t by (intro formI) (auto simp: serve_def ungiven)
      next
        case False
        then show ?thesis using user(4-6,9) t ctl by (intro keep) auto
      qed
    next
      case (datagrams i k t' x)
      then have t: "cid t' = cid t" using gives(5) by simp
      show ?thesis
      proof (cases "n = cid t")
        case True
        have "n \<in> given ?s" "n \<in> set (done_ids (world ?s))" using datagrams(5,7) t True d by (auto simp: given_def serve_def)
        moreover have "carried ?s n (u_remoteAddr (uconns (uls (world s) ! i) ! k), SG_UDP)"
          using new [of x] datagrams(8,10) t True by auto
        ultimately show ?thesis
          using True q ctl conn datagrams(4,5) t by (intro formI) (auto simp: serve_def ungiven)
      next
        case False
        then show ?thesis using datagrams(4-6,10) t ctl by (intro keep) auto
      qed
    qed
  next
    case silent
    have "is_control ?s m \<longleftrightarrow> is_control s m" for m using silent(1) by (simp add: is_control_def serve_def)
    then show ?thesis using silent by (intro keep) auto
  qed
qed

section \<open>Preservation by the client\<close>

lemma form_client:
  assumes "form F s n" "wire s' n = wire s n" "world s' = world s" "served s' = served s" "served_udp s' = served_udp s"
    "flowing s' = flowing s" "connected_on s' n \<longleftrightarrow> connected_on s n"
  shows "form F s' n"
  using assms unfolding form_def given_def is_control_def carried_def by simp

text \<open>What the handshake of the client accepts, and what it leaves on the connection.\<close>

lemma client_accepts:
  assumes "tcpc_channelDialer dl wr (Some a) c = (c', True, es)"
  obtains cc m st where "TcpClient.controlChannel c' = Some cc" "cid cc = cid a" "transport_dec (input a) = Some (m, st)"
    "input cc = st" "fst m = cli_core.Token c" "ConnPoolSize c' = ConnPoolSize c"
proof -
  obtain cc fs where h: "client_handshake (cli_core.Token c) (RetryInterval c) dl wr (Some a) = (Some cc, fs)"
    "c' = c\<lparr>TcpClient.controlChannel := Some cc, TunnelStatus := ''Connected (TCP)''\<rparr>"
    using assms by (auto simp: tcpc_channelDialer_def split: option.splits prod.splits)
  obtain msg tr err st where r: "ReceiveBinaryTransportString NetConn (input a) = ((msg, tr, err), st)"
    by (metis surj_pair)
  have "err = None" "msg = cli_core.Token c" "cc = a\<lparr>input := st\<rparr>"
    using h(1) r by (cases wr; auto simp: client_handshake_def send_transport_cases split: if_splits)+
  then show ?thesis using that [of cc "(msg, tr)" st] h(2) r by (simp add: transport_dec_def)
qed

lemma accepted_control:
  assumes f: "form F s (cid a)" and F: "F = transport_enc (tok, SG_Chan)" "length tok < 65536"
    and w: "wires_ok T s" "fst m \<notin> T" "\<forall>r\<in>T. length r < 65536" and n: "\<not> connected_on s (cid a)"
    and a: "pending (input a) = wire s (cid a)" "transport_dec (input a) = Some (m, st)"
  shows "is_control s (cid a) \<and> wire s (cid a) = F @ pending st \<or>
         cid a \<in> set (done_ids (world s)) - given s \<and> pending st = []"
proof -
  have ok: "fits16 (fst m)" "wire s (cid a) = transport_enc m @ pending st"
    using transport_dec_Some [OF a(2)] a(1) by auto
  have fit: "fits16 (fst (tok, SG_Chan))" using F(2) by (simp add: fits16_def)
  have same: "m = k" if "carried s (cid a) k" "fits16 (fst k)" for k
  proof -
    have "carries (wire s (cid a)) k" using that(1) by (auto simp: carried_def carries_def split: if_splits intro: exI [of _ "[]"])
    then show ?thesis using carried_frame [OF _ that(2) a(2,1)] by simp
  qed
  have "cid a \<notin> given s"
  proof
    assume "cid a \<in> given s"
    then consider l where "(cid a, l) \<in> set (served s)" | r where "(cid a, r) \<in> set (served_udp s)"
      by (auto simp: given_def)
    then show False
    proof cases
      case (1 l)
      then have "remoteAddr l \<in> T" using w(1) by (auto simp: wires_ok_def)
      then show False using same [OF formD(1) [OF f 1]] w(2,3) by (auto simp: fits16_def)
    next
      case (2 r)
      then have "r \<in> T" using w(1) by (auto simp: wires_ok_def)
      then show False using same [OF formD(2) [OF f 2]] w(2,3) by (auto simp: fits16_def)
    qed
  qed
  moreover have "wire s (cid a) \<noteq> []" using ok(2) transport.enc_nonempty [of m] by simp
  then have "is_control s (cid a) \<or> cid a \<in> set (done_ids (world s))" using formD(4) [OF f] by blast
  moreover have "wire s (cid a) = F @ pending st" if c: "is_control s (cid a)"
  proof -
    obtain sigs where s: "wire s (cid a) = F @ sigs" using formD(5) [OF f c n] by blast
    then have "transport_enc m @ pending st = transport_enc (tok, SG_Chan) @ sigs" using ok(2) F(1) by simp
    from transport.unambiguous [OF ok(1) fit this] s show ?thesis by simp
  qed
  moreover have "pending st = []" if d: "cid a \<in> set (done_ids (world s)) - given s"
  proof -
    obtain x where "wire s (cid a) @ x = F" using formD(3) [OF f d] by blast
    then have "transport_enc m @ (pending st @ x) = transport_enc (tok, SG_Chan) @ []" using ok(2) F(1) by simp
    from transport.unambiguous [OF ok(1) fit this] show ?thesis by simp
  qed
  ultimately show ?thesis by blast
qed

lemma form_step:
  assumes "system_step cfg s s'" "\<And>n. form F s n" "wires_ok T s" "tcp_inv (world s)" "tcp_inv (world s')"
    and F: "F = transport_enc (tok, SG_Chan)" "length tok < 65536" "TcpConfig.Token (config (srv (world s))) = tok"
    and T: "\<forall>r\<in>T. length r < 65536" "handler s = None \<Longrightarrow> cli_core.Token (client s) \<notin> T"
  shows "form F s' n"
  using assms
proof (induction arbitrary: n rule: system_step.induct)
  case (server s ev es w' n)
  have "given s \<subseteq> set (done_ids (world s))" "set (flowing s) \<subseteq> given s" using server(4) by (simp_all add: wires_ok_def)
  then show ?case using server(1,3,5-9) by (intro form_server) (simp_all add: serve_def)
next
  case (traffic t s bs n)
  note f = traffic(2) and w = traffic(3)
  have t: "t \<in> given s" "t \<in> set (done_ids (world s))" using traffic(1) w by (auto simp: wires_ok_def)
  let ?s = "s\<lparr>wire := (wire s)(t := wire s t @ bs)\<rparr>"
  show ?case
  proof (cases "n = t")
    case False
    then show ?thesis by (intro form_client [OF f [of n]]) (simp_all add: connected_on_def)
  next
    case True
    have c: "carried ?s n m" if "carried s n m" for m using that traffic(1) True by (auto simp: carried_def)
    have "\<not> is_control s n" using control_not_done [OF traffic(4)] t(2) True by blast
    then have k: "\<not> is_control ?s n" by (simp add: is_control_def)
    have "\<not> connected_on s n" using formD(6) [OF f [of n]] \<open>\<not> is_control s n\<close> t(1) True by blast
    then have "\<not> connected_on ?s n" by (simp add: connected_on_def)
    moreover have "n \<in> given ?s" "n \<in> set (done_ids (world ?s))" using t True by (simp_all add: given_def)
    ultimately show ?thesis using c k formD(1,2) [OF f [of n]] by (intro formI) auto
  qed
next
  case (connect s a dl wr c' es cc p fs n)
  note f = connect(7)
  from connect(4) obtain cc' m st where h: "TcpClient.controlChannel c' = Some cc'" "cid cc' = cid a"
    "transport_dec (input a) = Some (m, st)" "input cc' = st" "fst m = cli_core.Token (client s)"
    by (rule client_accepts)
  have cc: "cc' = cc" using h(1) connect(5) by simp
  have nc: "\<not> connected_on s i" for i using connect(1) by (simp add: connected_on_def)
  let ?s = "s\<lparr>client := c', handler := Some new_cli_ctl, maintainer := Some p, owed := owed s + dials fs,
      wire := (wire s)(cid a := pending (input cc))\<rparr>"
  have conn: "connected_on ?s i \<longleftrightarrow> i = cid a" for i using h(1,2) by (auto simp: connected_on_def)
  have same: "is_control ?s i \<longleftrightarrow> is_control s i" "given ?s = given s" for i by (simp_all add: is_control_def given_def)
  show ?case
  proof (cases "n = cid a")
    case False
    then show ?thesis using conn nc by (intro form_client [OF f [of n]]) simp_all
  next
    case True
    have "is_control s (cid a) \<or> cid a \<in> set (done_ids (world s)) - given s \<and> pending st = []"
      using accepted_control [OF f F(1,2) connect(8) _ connect(14) nc connect(3) h(3)] h(5) connect(15) connect(1) by auto
    moreover have "cid a \<notin> given s" if "is_control s (cid a)"
      using control_not_done [OF connect(9) that] connect(8) by (auto simp: wires_ok_def)
    ultimately have k: "n \<notin> given ?s" "is_control ?s n \<or> n \<in> set (done_ids (world ?s)) - given ?s \<and> wire ?s n = []"
      using True same h(4) cc by auto
    have "n \<notin> given s" using k(1) same(2) by simp
    then show ?thesis
      using k conn True control_not_done [of ?s n] connect(9) by (intro formI) (auto dest: given_served)
  qed
next
  case (read_control s k cc b rest c' k' es n)
  note f = read_control(5)
  let ?s = "s\<lparr>client := c', handler := Some k', wire := (wire s)(cid cc := rest)\<rparr>"
  have kc: "TcpClient.controlChannel c' = TcpClient.controlChannel (client s)" using client_keeps_control(1) [OF read_control(4)] .
  have conn: "connected_on ?s i \<longleftrightarrow> connected_on s i" "connected_on s i \<longleftrightarrow> i = cid cc" for i
    using kc read_control(1,2) by (auto simp: connected_on_def)
  show ?case
  proof (cases "n = cid cc")
    case False
    then show ?thesis using conn by (intro form_client [OF f [of n]]) simp_all
  next
    case True
    have "is_control s n" using formD(6) [OF f [of n]] conn True read_control(3) by auto
    then have k: "is_control ?s n" "n \<notin> set (done_ids (world s))" "n \<notin> given s"
      using control_not_done [OF read_control(7)] read_control(6) by (auto simp: is_control_def wires_ok_def)
    then show ?thesis using conn True by (intro formI) (auto dest: given_served)
  qed
next
  case (handle s k ev c' k' es n)
  then show ?case using client_keeps_control(1) [OF handle(3)] by (intro form_client [OF handle(4) [of n]]) (simp_all add: connected_on_def)
next
  case (maintain s p ev c' p' stays es n)
  then show ?case using client_keeps_control(4) [OF maintain(2) [unfolded tcpc_poolMaintainer_def]]
    by (intro form_client [OF maintain(3) [of n]]) (simp_all add: connected_on_def)
next
  case (dial s t c' t' k n)
  then show ?case using client_keeps_control(2) [OF dial(2)] by (intro form_client [OF dial(9) [of n]]) (simp_all add: connected_on_def)
next
  case (dial_fails s c' n)
  then show ?case using client_keeps_control(2) [OF dial_fails(2)] by (intro form_client [OF dial_fails(3) [of n]]) (simp_all add: connected_on_def)
next
  case (receive t s k c' act es n)
  then show ?case using client_keeps_control(3) [OF receive(4)] by (intro form_client [OF receive(5) [of n]]) (simp_all add: connected_on_def)
next
  case (join t addr port s k l es n)
  then show ?case by (intro form_client [OF join(6) [of n]]) (simp_all add: connected_on_def)
next
  case (cancel s n)
  then show ?case by (intro form_client [OF cancel(1) [of n]]) (simp_all add: connected_on_def)
qed

section \<open>The budget\<close>

text \<open>The signals between the reader of the client's control channel and its main loop.\<close>

definition waiting_signals :: "cli_ctl \<Rightarrow> nat" where
  "waiting_signals k = (case held (cli_ctl.rd k) of None \<Rightarrow> 0 | Some b \<Rightarrow> units [b]) + units (buf (msgChan k))"

lemma dials_simps [simp]:
  "dials [] = 0" "dials (Go g # es) = (if g = GTunnelDialer then 1 else 0) + dials es" "dials (Sleep d # es) = dials es"
  "dials (Close c # es) = dials es" "dials (Wrote n bs # es) = dials es" "dials (es @ fs) = dials es + dials fs"
  "dials (replicate m (Go GTunnelDialer)) = m"
  by (simp_all add: dials_def)

lemma signal_dials_none: "send_signal wr c b = (es, ok) \<Longrightarrow> dials es = 0"
  by (cases wr) (auto simp: send_signal_def SendBinaryByte_def do_write_def)

lemma signal_dials [simp]: "dials (fst (send_signal wr c b)) = 0"
  using signal_dials_none [of wr c b] by (cases "send_signal wr c b") simp

text \<open>The control handler dials for signals it takes from \<open>messageChan\<close>, and its reader puts there what it read.\<close>

lemma reader_signals:
  assumes "cli_reader ev d k = Some (k', es)"
  shows "dials es = 0 \<and> waiting_signals k' \<le> waiting_signals k + (case ev of CReaderReads (ReadOk b) \<Rightarrow> units [b] | _ \<Rightarrow> 0)"
  using assms
  by (auto simp: cli_reader_def reader_read_def reader_deliver_def waiting_signals_def Let_def offer_def
      split: if_splits cli_event.splits option.splits prod.splits read_outcome.splits)

lemma handler_signals:
  assumes "tcpc_channelHandler ev (c, k) = Some ((c', k'), es)"
  shows "dials es + waiting_signals k' \<le> waiting_signals k + (case ev of CReaderReads (ReadOk b) \<Rightarrow> units [b] | _ \<Rightarrow> 0)"
proof (cases ev)
  case (CMainCtxDone wr)
  then show ?thesis
    using assms by (auto simp: tcpc_channelHandler_def waiting_signals_def split: option.splits if_splits)
next
  case (CMainMessage wr)
  then obtain m ch where t: "take_chan (msgChan k) = Some (m, ch)"
    using assms by (auto simp: tcpc_channelHandler_def split: option.splits if_splits)
  then obtain ms where ms: "buf (msgChan k) = m # ms" "buf ch = ms" by (auto simp: chan_simps)
  then show ?thesis
    using assms CMainMessage t signal_dials_none no_signal
    by (auto simp: tcpc_channelHandler_def on_chan_signal_def waiting_signals_def Let_def
        split: option.splits if_splits prod.splits bool.splits)
qed (use assms reader_signals in \<open>fastforce simp: tcpc_channelHandler_def split: option.splits\<close>)+

definition budget_ok :: "bytes \<Rightarrow> TcpClient \<Rightarrow> tcp_system \<Rightarrow> bool" where
  "budget_ok F c0 s \<longleftrightarrow>
     (case handler s of
        None \<Rightarrow> maintainer s = None \<and> owed s = 0 \<and> tunnels s = [] \<and> cli_core.Token (client s) = cli_core.Token c0 \<and>
          ConnPoolSize (client s) = ConnPoolSize c0 \<and> requests_of (world s) \<le> demands s \<and>
          (\<forall>n sigs. is_control s n \<longrightarrow> wire s n = F @ sigs \<longrightarrow> requests_of (world s) + units sigs \<le> demands s)
      | Some k \<Rightarrow> \<exists>cc. TcpClient.controlChannel (client s) = Some cc \<and>
          requests_of (world s) + units (wire s (cid cc)) + waiting_signals k + length (tunnels s) + owed s
            \<le> nat (ConnPoolSize c0) + enlarged s + demands s)"

lemma budget_server:
  assumes b: "budget_ok F c0 s" and f: "\<And>n. form F s n" and i: "tcp_inv (world s)"
    and st: "tcp_step (world s) ev es w'" and F: "F = transport_enc (TcpConfig.Token (config (srv (world s))), SG_Chan)"
  shows "budget_ok F c0 (serve ev es w' s)"
proof -
  let ?s = "serve ev es w' s"
  have wire: "wire ?s n = wire s n @ sent n es" for n by (simp add: serve_def)
  have quiet: "\<not> is_control s (cid c) \<and> wire s (cid c) = [] \<and> \<not> connected_on s (cid c)"
    if "c \<in> set (buf (tunnelChannel (srv (world s))))" for c
    using queue_not_control [OF i that] formD(4,6) [OF f [of "cid c"]] by blast
  have req: "requests_of w' \<le> requests_of (world s) + demanded ev"
    using st i by (cases rule: step_signals) auto
  have known: "units (sent n es) + requests_of w' \<le> requests_of (world s) + demanded ev" if "is_control s n \<or> connected_on s n" for n
    using st i
  proof (cases rule: step_signals)
    case (won c cc)
    then show ?thesis using quiet [OF won(1)] that req by auto
  next
    case (lost c x)
    then show ?thesis using quiet [OF lost(1)] that req by (cases "n = cid c") auto
  next
    case (control cc)
    then show ?thesis using req by (cases "n = cid cc") auto
  next
    case (gives t)
    then show ?thesis using quiet [OF gives(2)] that req by (cases "n = cid t") auto
  qed (use req in auto)
  show ?thesis
  proof (cases "handler s")
    case None
    have "requests_of w' + units sigs \<le> demands s + demanded ev"
      if n: "is_control ?s n" and e: "wire s n @ sent n es = F @ sigs" for n sigs
    proof (cases "is_control s n")
      case True
      moreover have "\<not> connected_on s n" using None by (simp add: connected_on_def)
      ultimately obtain old where o: "wire s n = F @ old" using formD(5) [OF f] by blast
      then have "sigs = old @ sent n es" using e by simp
      moreover have "requests_of (world s) + units old \<le> demands s" using b None True o by (simp add: budget_ok_def)
      ultimately show ?thesis using known [OF disjI1 [OF True]] by simp
    next
      case False
      from st i have "wire s n = [] \<and> sent n es = F"
      proof (cases rule: step_signals)
        case (won c cc)
        then have "n = cid c" using n by (auto simp: is_control_def serve_def)
        then show ?thesis using quiet [OF won(1)] won(6) F by simp
      qed (use n False in \<open>auto simp: is_control_def serve_def\<close>)
      then have "sigs = []" using e by simp
      then show ?thesis using req b None by (simp add: budget_ok_def)
    qed
    then show ?thesis using b None req wire by (auto simp: budget_ok_def serve_def)
  next
    case (Some k)
    then obtain cc where cc: "TcpClient.controlChannel (client s) = Some cc"
      "requests_of (world s) + units (wire s (cid cc)) + waiting_signals k + length (tunnels s) + owed s
            \<le> nat (ConnPoolSize c0) + enlarged s + demands s"
      using b by (auto simp: budget_ok_def)
    have "connected_on s (cid cc)" using Some cc(1) by (simp add: connected_on_def)
    from known [OF disjI2 [OF this]] show ?thesis
      using cc Some by (simp add: budget_ok_def serve_def)
  qed
qed

lemma received_keeps:
  "tcpc_tunnelDialer_received t c = (c', act, es) \<Longrightarrow>
     cli_core.Token c' = cli_core.Token c \<and> ConnPoolSize c' = ConnPoolSize c"
  by (auto simp: tcpc_tunnelDialer_received_def add_pool_def Let_def split: option.splits if_splits prod.splits)

lemma budget_step:
  assumes "system_step cfg s s'" "budget_ok F c0 s" "\<And>n. form F s n" "wires_ok T s" "tcp_inv (world s)"
    and F: "F = transport_enc (tok, SG_Chan)" "length tok < 65536" "TcpConfig.Token (config (srv (world s))) = tok"
    and T: "\<forall>r\<in>T. length r < 65536" "cli_core.Token c0 \<notin> T"
  shows "budget_ok F c0 s'"
  using assms
proof (induction rule: system_step.induct)
  case (server s ev es w')
  then show ?case by (intro budget_server) simp_all
next
  case (traffic t s bs)
  note f = traffic(3)
  have t: "t \<in> given s" "t \<in> set (done_ids (world s))" using traffic(1,4) by (auto simp: wires_ok_def)
  have "\<not> is_control s t" using control_not_done [OF traffic(5)] t(2) by blast
  moreover have "\<not> connected_on s t" using formD(6) [OF f [of t]] \<open>\<not> is_control s t\<close> t(1) by blast
  ultimately show ?case
    using traffic(2) by (auto simp: budget_ok_def is_control_def connected_on_def split: option.splits)
next
  case (connect s a dl wr c' es cc p fs)
  note f = connect(8)
  from connect(4) obtain cc' m st where h: "TcpClient.controlChannel c' = Some cc'" "cid cc' = cid a"
    "transport_dec (input a) = Some (m, st)" "input cc' = st" "fst m = cli_core.Token (client s)" "ConnPoolSize c' = ConnPoolSize (client s)"
    by (rule client_accepts)
  have cc: "cc' = cc" using h(1) connect(5) by simp
  have nc: "\<not> connected_on s (cid a)" using connect(1) by (simp add: connected_on_def)
  have b: "owed s = 0" "tunnels s = []" "cli_core.Token (client s) = cli_core.Token c0" "ConnPoolSize (client s) = ConnPoolSize c0"
    "requests_of (world s) \<le> demands s"
    "\<And>n sigs. is_control s n \<Longrightarrow> wire s n = F @ sigs \<Longrightarrow> requests_of (world s) + units sigs \<le> demands s"
    using connect(1,7) by (auto simp: budget_ok_def)
  have "is_control s (cid a) \<and> wire s (cid a) = F @ pending st \<or> cid a \<in> set (done_ids (world s)) - given s \<and> pending st = []"
    using accepted_control [OF f connect(11,12,9) _ connect(14) nc connect(3) h(3)] h(5) b(3) connect(15) by simp
  then have "requests_of (world s) + units (pending st) \<le> demands s" using b(5,6) by auto
  moreover have "dials fs = nat (ConnPoolSize c0)"
    using connect(6) h(6) b(4) by (auto simp: tcpc_poolMaintainer_begin_def pool_start_def)
  moreover have "waiting_signals new_cli_ctl = 0" by (simp add: waiting_signals_def new_cli_ctl_def new_reader_def)
  ultimately show ?case using b(1,2) h(1,2,4) cc by (simp add: budget_ok_def)
next
  case (read_control s k cc b rest c' k' es)
  have kc: "TcpClient.controlChannel c' = TcpClient.controlChannel (client s)" using client_keeps_control(1) [OF read_control(4)] .
  show ?case
    using read_control(1-3,5) kc handler_signals [OF read_control(4)] by (simp add: budget_ok_def)
next
  case (handle s k ev c' k' es)
  have kc: "TcpClient.controlChannel c' = TcpClient.controlChannel (client s)" using client_keeps_control(1) [OF handle(3)] .
  have "dials es + waiting_signals k' \<le> waiting_signals k"
    using handler_signals [OF handle(3)] handle(2) by (auto split: cli_event.splits read_outcome.splits)
  then show ?case using handle(1,4) kc by (auto simp: budget_ok_def)
next
  case (maintain s p ev c' p' stays es)
  have kc: "TcpClient.controlChannel c' = TcpClient.controlChannel (client s)"
    using client_keeps_control(4) [OF maintain(2) [unfolded tcpc_poolMaintainer_def]] .
  show ?case using maintain(1,3) kc by (auto simp: budget_ok_def split: option.splits)
next
  case (dial s t c' t' k)
  then show ?case using client_keeps_control(2) [OF dial(2)] by (auto simp: budget_ok_def split: option.splits)
next
  case (dial_fails s c')
  then show ?case using client_keeps_control(2) [OF dial_fails(2)] by (auto simp: budget_ok_def split: option.splits)
next
  case (receive t s k c' act es)
  show ?case using receive(5) client_keeps_control(3) [OF receive(4)] received_keeps [OF receive(4)] by (auto simp: budget_ok_def is_control_def split: option.splits)
next
  case (join t addr port s k l es)
  then show ?case by (auto simp: budget_ok_def is_control_def split: option.splits)
next
  case (cancel s)
  then show ?case by (auto simp: budget_ok_def is_control_def split: option.splits)
qed

lemma reach_budget:
  assumes "system_reach cfg c0 s" "\<forall>r\<in>tcp_targets cfg. length r < 65536" "cli_core.Token c0 \<notin> tcp_targets cfg"
    "length (TcpConfig.Token cfg) < 65536"
  shows "(\<forall>n. form (transport_enc (TcpConfig.Token cfg, SG_Chan)) s n) \<and>
         budget_ok (transport_enc (TcpConfig.Token cfg, SG_Chan)) c0 s"
  using assms(1)
proof (induction rule: system_reach.induct)
  case init
  have "\<not> is_control (system_init cfg c0) n" for n
    by (simp add: is_control_def system_init_def tcp_init_def tcp_Start_def tcp_set_status_def NewTCPServer_def)
  then show ?case
    by (simp add: form_def budget_ok_def connected_on_def given_def)
       (simp add: system_init_def tcp_init_def tcp_Start_def tcp_set_status_def NewTCPServer_def tcpc_Start_def)
next
  case (step s s')
  let ?F = "transport_enc (TcpConfig.Token cfg, SG_Chan)" and ?T = "tcp_targets cfg"
  have f: "form ?F s n" for n using step(3) by blast
  have b: "budget_ok ?F c0 s" using step(3) by blast
  have inv: "wires_ok ?T s" "tcp_inv (world s)" using system_reach_inv [OF step(1) assms(2)] by blast+
  have inv': "tcp_inv (world s')" using tcp_reach_inv system_reach_world [OF system_reach.step [OF step(1,2)]] by blast
  have tok: "TcpConfig.Token (config (srv (world s))) = TcpConfig.Token cfg"
    using tcp_reach_safe [OF system_reach_world [OF step(1)]] by (simp add: tcp_safe_def)
  have free: "cli_core.Token (client s) \<notin> ?T" if "handler s = None"
    using b that assms(3) by (simp add: budget_ok_def)
  have "form ?F s' n" for n
    by (rule form_step [OF step(2) f inv inv' refl assms(4) tok assms(2) free])
  moreover have "budget_ok ?F c0 s'"
    by (rule budget_step [OF step(2) b f inv refl assms(4) tok assms(2,3)])
  ultimately show ?case by blast
qed

section \<open>Properties\<close>

text \<open>
  C4. The client never opens more tunnels than it is asked for: the tunnels it dialled and the dials it still owes are at most
  its configured pool size, plus the dials of the pool maintainer, plus the local connections and datagrams that came to
  the server. This holds for every interleaving of both programs and whatever others send to the server, as long as the
  client's token is none of the targets of the ports list: the client takes any frame with its token for the
  answer to its handshake, whatever its transport byte.
\<close>

theorem dials_within_budget:
  assumes "system_reach cfg c0 s" "\<forall>r\<in>tcp_targets cfg. length r < 65536" "cli_core.Token c0 \<notin> tcp_targets cfg"
    "length (TcpConfig.Token cfg) < 65536"
  shows "length (tunnels s) + owed s \<le> nat (ConnPoolSize c0) + enlarged s + demands s"
  using reach_budget [OF assms] by (auto simp: budget_ok_def split: option.splits)

theorem dials_within_budget_witness:
  "system_reach sample_cfg sample_client ready \<and> length (tunnels ready) = 1 \<and> ConnPoolSize sample_client = 1 \<and>
   length (tunnels ready) + owed ready \<le> nat (ConnPoolSize sample_client) + enlarged ready + demands ready"
proof -
  have "\<forall>r\<in>tcp_targets sample_cfg. length r < 65536"
    using length_itoa_port [of 443] by (simp add: sample_targets valid_port_def)
  moreover have "cli_core.Token sample_client \<notin> tcp_targets sample_cfg"
    using itoa_nonneg_digits [of 443 "CHR ''m''"]
    by (auto simp: sample_targets sample_client_def NewTCPClient_def is_digit_def dest: arg_cong [where f = "\<lambda>x. CHR ''m'' \<in> set x"])
  moreover have "length (TcpConfig.Token sample_cfg) < 65536" by (simp add: sample_cfg_def sample_config_def)
  ultimately show ?thesis
    using dials_within_budget [OF ready_reachable] ready_reachable
    by (simp add: ready_def system_init_def sample_client_def NewTCPClient_def)
qed

end
