(* ===== verification/MuxServer.thy ===== *)
theory MuxServer
  imports Control
begin

text \<open>
  What the two multiplexing servers (\<open>tcpmux.go\<close>, \<open>wsmux.go\<close>) have in common: the queue of local
  connections with the counters of streams and sessions, and \<open>handleSession\<close>, whose text is the
  same in both files. The transports extend the record \<open>mux_core\<close> with their own fields. A session
  is the identity of the connection it runs on; opening a stream succeeds or not.
\<close>

section \<open>The shared part of the state\<close>

record mux_core =
  ctx_done :: bool
  localChannel :: "LocalTCPConn chan"
  reqNewConnChan :: "unit chan"
  streamCounter :: int
  sessionCounter :: int
  MuxCon :: nat
  Sniffer :: bool

text \<open>\<open>atomic.AddInt32\<close> on the counters, and the test that asks for another session.\<close>

definition add_stream :: "int \<Rightarrow> 'z mux_core_scheme \<Rightarrow> 'z mux_core_scheme" where
  "add_stream d s = s\<lparr>streamCounter := int32 (streamCounter s + d)\<rparr>"

definition add_session :: "int \<Rightarrow> 'z mux_core_scheme \<Rightarrow> 'z mux_core_scheme" where
  "add_session d s = s\<lparr>sessionCounter := int32 (sessionCounter s + d)\<rparr>"

definition needs_session :: "'z mux_core_scheme \<Rightarrow> bool" where
  "needs_session s \<longleftrightarrow> streamCounter s \<ge> int32 (sessionCounter s * int32 (int (MuxCon s)))"

definition request_conn :: "'z mux_core_scheme \<Rightarrow> 'z mux_core_scheme" where
  "request_conn s = s\<lparr>reqNewConnChan := fst (offer () (reqNewConnChan s))\<rparr>"

text \<open>
  One pass of \<open>acceptLocalConn\<close>; the keep-alive options that \<open>wsmux.go\<close> also sets have no effect on
  the state.
\<close>

definition mux_acceptLocalConn ::
    "string \<Rightarrow> int \<Rightarrow> accept_result \<Rightarrow> 'z mux_core_scheme \<Rightarrow> 'z mux_core_scheme \<times> effect list" where
  "mux_acceptLocalConn remote now r s =
     (case r of
        AcceptErr \<Rightarrow> (s, [])
      | Accepted c \<Rightarrow>
          if \<not> is_tcp c then (s, [Close (cid c)])
          else case offer \<lparr>lconn = c, remoteAddr = remote, timeCreated = now\<rparr> (localChannel s) of
                 (ch, True) \<Rightarrow>
                   (let s1 = add_stream 1 (s\<lparr>localChannel := ch\<rparr>)
                    in (if needs_session s1 then request_conn s1 else s1, []))
               | (_, False) \<Rightarrow> (s, [Close (cid c)]))"

section \<open>One session\<close>

text \<open>
  Where \<open>handleSession\<close> is: taking a slot of \<open>counter\<close>, at the \<open>select\<close>, putting a local connection
  back after a failed send, putting one back in \<open>handleSessionError\<close>, or returned. \<open>streams\<close>
  counts the goroutines that copy a stream; each gives its slot back when it ends.
\<close>

datatype session_pc =
    Acquire
  | Select
  | PutBack LocalTCPConn
  | ErrorPut LocalTCPConn
  | Ended

record session_run =
  session :: nat
  counter :: "unit chan"
  pc :: session_pc
  streams :: nat

definition new_session :: "nat \<Rightarrow> nat \<Rightarrow> session_run" where
  "new_session muxcon i = \<lparr>session = i, counter = make_chan muxcon, pc = Acquire, streams = 0\<rparr>"

datatype open_result = OpenErr | OpenOk write_result

datatype session_event =
    SAcquire
  | SCtxDone
  | STake int open_result
  | SPutBack
  | SErrorPut
  | SStreamEnds

text \<open>\<open><-counter\<close>: a slot back; on the closed channel of an ended session it returns at once.\<close>

definition release :: "session_run \<Rightarrow> session_run" where
  "release r = r\<lparr>counter := (counter r)\<lparr>buf := tl (buf (counter r))\<rparr>\<rparr>"

text \<open>The deferred calls: \<open>close(counter)\<close> and \<open>session.Close()\<close>.\<close>

definition end_session :: "session_run \<Rightarrow> session_run" where
  "end_session r = r\<lparr>counter := (counter r)\<lparr>is_closed := True\<rparr>, pc := Ended\<rparr>"

definition mux_handleSession ::
    "session_event \<Rightarrow> 'z mux_core_scheme \<times> session_run \<Rightarrow>
       (('z mux_core_scheme \<times> session_run) \<times> effect list) option" where
  "mux_handleSession ev sr =
     (case sr of (s, r) \<Rightarrow>
       (case (ev, pc r) of
          (SAcquire, Acquire) \<Rightarrow>
            (case offer () (counter r) of
               (ch, True) \<Rightarrow> Some ((s, r\<lparr>counter := ch, pc := Select\<rparr>), [])
             | (_, False) \<Rightarrow> None)
        | (SCtxDone, Select) \<Rightarrow>
            if ctx_done s then Some ((s, end_session r), [Close (session r)]) else None
        | (STake now opened, Select) \<Rightarrow>
            (case take_chan (localChannel s) of
               None \<Rightarrow> None
             | Some (l, ch) \<Rightarrow>
                 (let s1 = s\<lparr>localChannel := ch\<rparr>
                  in if 3000 < now - timeCreated l
                     then Some ((add_stream (- 1) s1, (release r)\<lparr>pc := Acquire\<rparr>), [Close (cid (lconn l))])
                     else case opened of
                            OpenErr \<Rightarrow> Some ((add_session (- 1) s1, r\<lparr>pc := ErrorPut l\<rparr>), [])
                          | OpenOk w \<Rightarrow>
                              (case send_string w (session r) (remoteAddr l) of
                                 (es, False) \<Rightarrow> Some ((s1, r\<lparr>pc := PutBack l\<rparr>), es)
                               | (es, True) \<Rightarrow>
                                   Some ((s1, r\<lparr>streams := streams r + 1, pc := Acquire\<rparr>),
                                         es @ [PipedStream (session r) (cid (lconn l))
                                                 (local_port (lconn l)) (Sniffer s)]))))
        | (SPutBack, PutBack l) \<Rightarrow>
            (case offer l (localChannel s) of
               (ch, True) \<Rightarrow> Some ((s\<lparr>localChannel := ch\<rparr>, r\<lparr>pc := Acquire\<rparr>), [])
             | (_, False) \<Rightarrow> None)
        | (SErrorPut, ErrorPut l) \<Rightarrow>
            (case offer l (localChannel s) of
               (ch, True) \<Rightarrow>
                 Some ((request_conn (s\<lparr>localChannel := ch\<rparr>), end_session r), [Close (session r)])
             | (_, False) \<Rightarrow> None)
        | (SStreamEnds, _) \<Rightarrow>
            if 0 < streams r
            then Some ((add_stream (- 1) s, (release r)\<lparr>streams := streams r - 1\<rparr>), [])
            else None
        | _ \<Rightarrow> None))"

section \<open>Slots\<close>

text \<open>
  The slots of a session are taken by its streams, by the pass of the loop that is under way, and
  by the sends that failed: a failed send puts the connection back but not the slot. \<open>failed\<close>
  counts those.
\<close>

definition pc_slots :: "session_pc \<Rightarrow> nat" where
  "pc_slots p = (case p of Select \<Rightarrow> 1 | ErrorPut _ \<Rightarrow> 1 | _ \<Rightarrow> 0)"

fun putting_back :: "session_pc \<Rightarrow> bool" where
  "putting_back (PutBack l) = True"
| "putting_back _ = False"

fun pc_local :: "session_pc \<Rightarrow> nat list" where
  "pc_local (PutBack l) = [cid (lconn l)]"
| "pc_local (ErrorPut l) = [cid (lconn l)]"
| "pc_local _ = []"

lemma pc_slots_simps [simp]:
  "pc_slots Acquire = 0" "pc_slots Select = 1" "pc_slots (PutBack l) = 0"
  "pc_slots (ErrorPut l) = 1" "pc_slots Ended = 0"
  by (simp_all add: pc_slots_def)

lemma release_simps [simp]:
  "session (release r) = session r" "pc (release r) = pc r" "streams (release r) = streams r"
  "cap (counter (release r)) = cap (counter r)"
  "buf (counter (release r)) = tl (buf (counter r))"
  by (simp_all add: release_def)

lemma end_session_simps [simp]:
  "session (end_session r) = session r" "pc (end_session r) = Ended"
  "streams (end_session r) = streams r" "cap (counter (end_session r)) = cap (counter r)"
  "buf (counter (end_session r)) = buf (counter r)"
  by (simp_all add: end_session_def)

definition slots_inv :: "nat \<Rightarrow> nat \<Rightarrow> session_run \<Rightarrow> bool" where
  "slots_inv muxcon failed r \<longleftrightarrow>
     cap (counter r) = muxcon \<and> length (buf (counter r)) \<le> muxcon \<and>
     (if pc r = Ended then streams r \<le> length (buf (counter r))
      else length (buf (counter r)) = streams r + failed + pc_slots (pc r))"

text \<open>The cases of a step, one lemma for all the facts below.\<close>

lemma mux_session_cases:
  assumes "mux_handleSession ev (s, r) = Some ((s', r'), es)"
  obtains
    (acquire) ch where "pc r = Acquire" "offer () (counter r) = (ch, True)" "s' = s"
      "r' = r\<lparr>counter := ch, pc := Select\<rparr>" "es = []"
  | (ctx) "pc r = Select" "ctx_done s" "s' = s" "r' = end_session r" "es = [Close (session r)]"
  | (expired) now l ch where "pc r = Select" "take_chan (localChannel s) = Some (l, ch)"
      "3000 < now - timeCreated l" "s' = add_stream (- 1) (s\<lparr>localChannel := ch\<rparr>)"
      "r' = (release r)\<lparr>pc := Acquire\<rparr>" "es = [Close (cid (lconn l))]"
  | (open_err) now l ch where "pc r = Select" "take_chan (localChannel s) = Some (l, ch)"
      "\<not> 3000 < now - timeCreated l" "s' = add_session (- 1) (s\<lparr>localChannel := ch\<rparr>)"
      "r' = r\<lparr>pc := ErrorPut l\<rparr>" "es = []"
  | (send_err) l ch k where "pc r = Select" "take_chan (localChannel s) = Some (l, ch)"
      "s' = s\<lparr>localChannel := ch\<rparr>" "r' = r\<lparr>pc := PutBack l\<rparr>"
      "es = fst (send_string (WriteErr k) (session r) (remoteAddr l))"
  | (copying) now l ch where "pc r = Select" "take_chan (localChannel s) = Some (l, ch)"
      "\<not> 3000 < now - timeCreated l" "s' = s\<lparr>localChannel := ch\<rparr>"
      "r' = r\<lparr>streams := streams r + 1, pc := Acquire\<rparr>"
      "es = fst (send_string WriteOk (session r) (remoteAddr l)) @
        [PipedStream (session r) (cid (lconn l)) (local_port (lconn l)) (Sniffer s)]"
  | (put_back) l ch where "pc r = PutBack l" "offer l (localChannel s) = (ch, True)"
      "s' = s\<lparr>localChannel := ch\<rparr>" "r' = r\<lparr>pc := Acquire\<rparr>" "es = []"
  | (error_put) l ch where "pc r = ErrorPut l" "offer l (localChannel s) = (ch, True)"
      "s' = request_conn (s\<lparr>localChannel := ch\<rparr>)" "r' = end_session r" "es = [Close (session r)]"
  | (stream_ends) "0 < streams r" "s' = add_stream (- 1) s"
      "r' = (release r)\<lparr>streams := streams r - 1\<rparr>" "es = []"
proof (cases ev)
  case (STake now opened)
  then obtain l ch where p: "pc r = Select" and t: "take_chan (localChannel s) = Some (l, ch)"
    using assms by (auto simp: mux_handleSession_def split: session_pc.splits option.splits)
  show thesis
  proof (cases "3000 < now - timeCreated l")
    case True
    then show thesis using STake p t assms expired by (auto simp: mux_handleSession_def)
  next
    case young: False
    show thesis
    proof (cases opened)
      case OpenErr
      then show thesis using STake p t young assms open_err by (auto simp: mux_handleSession_def)
    next
      case (OpenOk w)
      obtain fs ok where q: "send_string w (session r) (remoteAddr l) = (fs, ok)" by fastforce
      show thesis
      proof (cases w)
        case WriteOk
        then have "ok" using q send_string_simps(1) [of w "session r" "remoteAddr l"] by simp
        then show thesis
          using STake p t young assms OpenOk q WriteOk copying [of l ch now]
          by (auto simp: mux_handleSession_def)
      next
        case (WriteErr k)
        then have "\<not> ok" using q send_string_simps(1) [of w "session r" "remoteAddr l"] by simp
        then show thesis
          using STake p t young assms OpenOk q WriteErr send_err [of l ch k]
          by (auto simp: mux_handleSession_def)
      qed
    qed
  qed
next
  case SAcquire
  then show thesis
    using assms acquire by (auto simp: mux_handleSession_def split: session_pc.splits prod.splits bool.splits)
next
  case SCtxDone
  then show thesis
    using assms ctx by (auto simp: mux_handleSession_def split: session_pc.splits if_splits)
next
  case SPutBack
  then show thesis
    using assms put_back by (auto simp: mux_handleSession_def split: session_pc.splits prod.splits bool.splits)
next
  case SErrorPut
  then show thesis
    using assms error_put by (auto simp: mux_handleSession_def split: session_pc.splits prod.splits bool.splits)
next
  case SStreamEnds
  then show thesis
    using assms stream_ends by (auto simp: mux_handleSession_def split: if_splits)
qed

inductive session_reach :: "nat \<Rightarrow> session_run \<Rightarrow> nat \<Rightarrow> bool" for muxcon where
  new: "session_reach muxcon (new_session muxcon i) 0"
| step: "session_reach muxcon r failed \<Longrightarrow> mux_handleSession ev (s :: mux_core, r) = Some ((s', r'), es) \<Longrightarrow>
     session_reach muxcon r' (if pc r = Select \<and> putting_back (pc r') then failed + 1 else failed)"

lemma slots_step:
  assumes "mux_handleSession ev (s, r) = Some ((s', r'), es)" "slots_inv muxcon failed r"
  shows "slots_inv muxcon (if pc r = Select \<and> putting_back (pc r') then failed + 1 else failed) r'"
  using assms(1)
proof (cases rule: mux_session_cases)
  case (acquire ch)
  then show ?thesis using assms(2) by (auto simp: slots_inv_def offer_def split: if_splits)
next
  case stream_ends
  then show ?thesis
    using assms(2) by (cases "buf (counter r)"; cases "pc r") (auto simp: slots_inv_def)
qed (use assms(2) in \<open>cases "buf (counter r)"; auto simp: slots_inv_def\<close>)+

lemma session_reach_inv: "session_reach muxcon r failed \<Longrightarrow> slots_inv muxcon failed r"
proof (induction rule: session_reach.induct)
  case (new i)
  show ?case by (simp add: slots_inv_def new_session_def)
next
  case (step r failed ev s s' r' es)
  then show ?case using slots_step by blast
qed

section \<open>The counters\<close>

text \<open>
  All sessions of a server with the shared part of its state: local connections are accepted,
  sessions join (\<open>handleLoop\<close>), each takes its steps, requests are drained by the control channel.
\<close>

record mux_world =
  core :: mux_core
  sessions :: "session_run list"

definition mux_join :: "nat \<Rightarrow> mux_world \<Rightarrow> mux_world" where
  "mux_join i w = w\<lparr>core := add_session 1 (core w),
     sessions := sessions w @ [new_session (MuxCon (core w)) i]\<rparr>"

inductive mux_step :: "mux_world \<Rightarrow> mux_world \<Rightarrow> bool" where
  accept: "mux_acceptLocalConn remote now res (core w) = (s', es) \<Longrightarrow> mux_step w (w\<lparr>core := s'\<rparr>)"
| join: "mux_step w (mux_join i w)"
| session: "i < length (sessions w) \<Longrightarrow>
     mux_handleSession ev (core w, sessions w ! i) = Some ((s', r'), es) \<Longrightarrow>
     mux_step w (w\<lparr>core := s', sessions := (sessions w)[i := r']\<rparr>)"
| request: "take_chan (reqNewConnChan (core w)) = Some (u, ch) \<Longrightarrow>
     mux_step w (w\<lparr>core := (core w)\<lparr>reqNewConnChan := ch\<rparr>\<rparr>)"
| cancelled: "mux_step w (w\<lparr>core := (core w)\<lparr>ctx_done := True\<rparr>\<rparr>)"

definition fresh_core :: "nat \<Rightarrow> nat \<Rightarrow> bool \<Rightarrow> mux_core" where
  "fresh_core qsize muxcon sniff = \<lparr>ctx_done = False, localChannel = make_chan qsize,
     reqNewConnChan = make_chan qsize, streamCounter = 0, sessionCounter = 0, MuxCon = muxcon, Sniffer = sniff\<rparr>"

inductive mux_reach :: "nat \<Rightarrow> nat \<Rightarrow> bool \<Rightarrow> mux_world \<Rightarrow> bool" for qsize muxcon sniff where
  init: "mux_reach qsize muxcon sniff \<lparr>core = fresh_core qsize muxcon sniff, sessions = []\<rparr>"
| step: "mux_reach qsize muxcon sniff w \<Longrightarrow> mux_step w w' \<Longrightarrow> mux_reach qsize muxcon sniff w'"

text \<open>The local connections a session answers for: in hand or being copied.\<close>

definition load :: "session_run \<Rightarrow> nat" where
  "load r = length (pc_local (pc r)) + streams r"

definition in_flight :: "mux_world \<Rightarrow> nat" where
  "in_flight w = length (buf (localChannel (core w))) + sum_list (map load (sessions w))"

definition slots_ok :: "nat \<Rightarrow> session_run \<Rightarrow> bool" where
  "slots_ok muxcon r \<longleftrightarrow> (\<exists>failed. slots_inv muxcon failed r)"

definition mux_inv :: "nat \<Rightarrow> nat \<Rightarrow> mux_world \<Rightarrow> bool" where
  "mux_inv qsize muxcon w \<longleftrightarrow>
     streamCounter (core w) = int32 (int (in_flight w)) \<and> MuxCon (core w) = muxcon \<and>
     chan_ok (localChannel (core w)) \<and> cap (localChannel (core w)) = qsize \<and>
     (\<forall>r\<in>set (sessions w). slots_ok muxcon r)"

lemma add_counter_simps [simp]:
  "localChannel (add_stream d s) = localChannel s" "localChannel (add_session d s) = localChannel s"
  "MuxCon (add_stream d s) = MuxCon s" "MuxCon (add_session d s) = MuxCon s"
  "streamCounter (add_session d s) = streamCounter s"
  "streamCounter (add_stream d s) = int32 (streamCounter s + d)"
  "localChannel (request_conn s) = localChannel s" "MuxCon (request_conn s) = MuxCon s"
  "streamCounter (request_conn s) = streamCounter s"
  by (simp_all add: add_stream_def add_session_def request_conn_def)

lemma load_simps [simp]:
  "load (r\<lparr>pc := p\<rparr>) = length (pc_local p) + streams r"
  "load (r\<lparr>counter := c\<rparr>) = load r"
  "load (r\<lparr>streams := n\<rparr>) = length (pc_local (pc r)) + n"
  "load (release r) = load r"
  by (simp_all add: load_def)

text \<open>A session step moves connections between the queue and the session, or loses one and counts it.\<close>

lemma mux_session_moves:
  assumes "mux_handleSession ev (s, r) = Some ((s', r'), es)"
  shows "streamCounter s' = streamCounter s \<and>
           length (buf (localChannel s')) + load r' = length (buf (localChannel s)) + load r \<or>
         streamCounter s' = int32 (streamCounter s + (- 1)) \<and>
           Suc (length (buf (localChannel s')) + load r') = length (buf (localChannel s)) + load r"
  using assms
proof (cases rule: mux_session_cases)
  case (expired now l ch)
  then show ?thesis using take_chan_len [OF expired(2)] by (simp add: load_def)
next
  case (open_err now l ch)
  then show ?thesis using take_chan_len [OF open_err(2)] by (simp add: load_def)
next
  case (send_err l ch k)
  then show ?thesis using take_chan_len [OF send_err(2)] by (simp add: load_def)
next
  case (copying now l ch)
  then show ?thesis using take_chan_len [OF copying(2)] by (simp add: load_def)
next
  case (put_back l ch)
  then show ?thesis using offer_True [OF put_back(2)] by (simp add: load_def)
next
  case (error_put l ch)
  then show ?thesis using offer_True [OF error_put(2)] by (simp add: load_def)
qed (simp_all add: load_def)

lemma mux_session_keeps:
  assumes "mux_handleSession ev (s, r) = Some ((s', r'), es)" "chan_ok (localChannel s)"
  shows "MuxCon s' = MuxCon s \<and> chan_ok (localChannel s') \<and> cap (localChannel s') = cap (localChannel s)"
  using assms(1)
proof (cases rule: mux_session_cases)
  case (expired now l ch)
  then show ?thesis using shrinks_ok [OF shrinks_take [OF expired(2)] assms(2)] by simp
next
  case (open_err now l ch)
  then show ?thesis using shrinks_ok [OF shrinks_take [OF open_err(2)] assms(2)] by simp
next
  case (send_err l ch k)
  then show ?thesis using shrinks_ok [OF shrinks_take [OF send_err(2)] assms(2)] by simp
next
  case (copying now l ch)
  then show ?thesis using shrinks_ok [OF shrinks_take [OF copying(2)] assms(2)] by simp
next
  case (put_back l ch)
  then show ?thesis using offer_True [OF put_back(2)] assms(2) by simp
next
  case (error_put l ch)
  then show ?thesis using offer_True [OF error_put(2)] assms(2) by simp
qed (use assms(2) in simp_all)

lemma mux_accept_moves:
  assumes "mux_acceptLocalConn remote now res s = (s', es)"
  shows "streamCounter s' = streamCounter s \<and> localChannel s' = localChannel s \<and> MuxCon s' = MuxCon s \<or>
         streamCounter s' = int32 (streamCounter s + 1) \<and> MuxCon s' = MuxCon s \<and>
           (\<exists>l. offer l (localChannel s) = (localChannel s', True))"
  using assms
  by (auto simp: mux_acceptLocalConn_def Let_def
      split: accept_result.splits if_splits prod.splits bool.splits)

lemma slots_new: "slots_ok m (new_session m i)"
  unfolding slots_ok_def by (rule exI [of _ 0]) (simp add: slots_inv_def new_session_def)

lemma load_new [simp]: "load (new_session m i) = 0"
  by (simp add: load_def new_session_def)

lemma mux_step_inv: "mux_step w w' \<Longrightarrow> mux_inv qsize muxcon w \<Longrightarrow> mux_inv qsize muxcon w'"
proof (induction rule: mux_step.induct)
  case (accept remote now res w s' es)
  from mux_accept_moves [OF accept(1)] show ?case
  proof
    assume "streamCounter s' = streamCounter (core w) \<and> localChannel s' = localChannel (core w) \<and>
      MuxCon s' = MuxCon (core w)"
    then show ?thesis using accept(2) by (simp add: mux_inv_def in_flight_def)
  next
    assume a: "streamCounter s' = int32 (streamCounter (core w) + 1) \<and> MuxCon s' = MuxCon (core w) \<and>
           (\<exists>l. offer l (localChannel (core w)) = (localChannel s', True))"
    then obtain l where "offer l (localChannel (core w)) = (localChannel s', True)" by blast
    note o = offer_True [OF this]
    have "streamCounter s' = int32 (int (in_flight w) + 1)"
      using a accept(2) int32_add [of "int (in_flight w)" 1] by (simp add: mux_inv_def)
    moreover have "int (in_flight w) + 1 = int (in_flight (w\<lparr>core := s'\<rparr>))"
      using o by (simp add: in_flight_def)
    ultimately show ?thesis using a o accept(2) by (simp add: mux_inv_def)
  qed
next
  case (join w i)
  then show ?case by (simp add: mux_inv_def mux_join_def in_flight_def slots_new)
next
  case (session i w ev s' r' es)
  have sum: "sum_list (map load ((sessions w)[i := r'])) + load (sessions w ! i) =
      sum_list (map load (sessions w)) + load r'"
    using sum_list_update [OF session(1)] .
  have keeps: "MuxCon s' = MuxCon (core w) \<and> chan_ok (localChannel s') \<and>
      cap (localChannel s') = cap (localChannel (core w))"
    using mux_session_keeps [OF session(2)] session(3) by (simp add: mux_inv_def)
  have "slots_ok muxcon (sessions w ! i)"
    using session(1,3) by (simp add: mux_inv_def)
  then have "slots_ok muxcon r'"
    using slots_step [OF session(2)] unfolding slots_ok_def by blast
  then have slots: "\<forall>r\<in>set ((sessions w)[i := r']). slots_ok muxcon r"
    using session(3) set_update_subset_insert [of "sessions w" i r'] by (auto simp: mux_inv_def)
  from mux_session_moves [OF session(2)] have "streamCounter s' =
      int32 (int (in_flight (w\<lparr>core := s', sessions := (sessions w)[i := r']\<rparr>)))"
  proof
    assume "streamCounter s' = streamCounter (core w) \<and>
      length (buf (localChannel s')) + load r' = length (buf (localChannel (core w))) + load (sessions w ! i)"
    then have "in_flight (w\<lparr>core := s', sessions := (sessions w)[i := r']\<rparr>) = in_flight w"
      "streamCounter s' = streamCounter (core w)"
      using sum by (simp_all add: in_flight_def)
    then show ?thesis using session(3) by (simp add: mux_inv_def)
  next
    assume "streamCounter s' = int32 (streamCounter (core w) + (- 1)) \<and>
      Suc (length (buf (localChannel s')) + load r') = length (buf (localChannel (core w))) + load (sessions w ! i)"
    then have "Suc (in_flight (w\<lparr>core := s', sessions := (sessions w)[i := r']\<rparr>)) = in_flight w"
      and c: "streamCounter s' = int32 (streamCounter (core w) + (- 1))"
      using sum by (simp_all add: in_flight_def)
    then have "int (in_flight w) + (- 1) =
        int (in_flight (w\<lparr>core := s', sessions := (sessions w)[i := r']\<rparr>))" by linarith
    then show ?thesis using session(3) c int32_add [of "int (in_flight w)" "- 1"] by (simp add: mux_inv_def)
  qed
  then show ?case using keeps slots session(3) by (simp add: mux_inv_def)
next
  case (request w u ch)
  then show ?case by (simp add: mux_inv_def in_flight_def)
next
  case (cancelled w)
  then show ?case by (simp add: mux_inv_def in_flight_def)
qed

lemma mux_reach_inv: "mux_reach qsize muxcon sniff w \<Longrightarrow> mux_inv qsize muxcon w"
proof (induction rule: mux_reach.induct)
  case init
  show ?case by (simp add: mux_inv_def in_flight_def fresh_core_def int32_id)
next
  case (step w w')
  then show ?case using mux_step_inv by blast
qed

lemma slots_streams: "slots_ok muxcon r \<Longrightarrow> streams r \<le> muxcon"
  by (auto simp: slots_ok_def slots_inv_def split: if_splits)

lemma stuck_session:
  assumes "pc r = Acquire" "streams r = 0" "\<not> length (buf (counter r)) < cap (counter r)"
  shows "mux_handleSession ev (s, r) = None"
  using assms by (cases ev) (simp_all add: mux_handleSession_def chan_simps(6))

section \<open>Properties\<close>



text \<open>
  C39. A session gives back a slot only when a stream ends: every send of a target address that fails
  costs a slot for good, the slots of streams and failures together never exceed \<open>mux_con\<close>, and after
  \<open>mux_con\<close> failures the session can do nothing any more - it takes no connection, does not end and
  does not notice a cancelled context.
\<close>

theorem failed_sends_exhaust_session:
  assumes "session_reach muxcon r failed" "pc r \<noteq> Ended"
  shows "streams r + failed \<le> muxcon \<and>
         (failed = muxcon \<and> pc r = Acquire \<longrightarrow> (\<forall>ev s. mux_handleSession ev (s :: mux_core, r) = None))"
proof -
  have inv: "slots_inv muxcon failed r" using session_reach_inv [OF assms(1)] .
  then have "streams r + failed \<le> muxcon" using assms(2) by (simp add: slots_inv_def)
  moreover have "\<forall>ev s. mux_handleSession ev (s :: mux_core, r) = None"
    if "failed = muxcon" "pc r = Acquire"
  proof -
    have "streams r = 0" "\<not> length (buf (counter r)) < cap (counter r)"
      using inv that by (simp_all add: slots_inv_def)
    then show ?thesis using stuck_session that(2) by blast
  qed
  ultimately show ?thesis by blast
qed

definition one_local :: LocalTCPConn where
  "one_local = \<lparr>lconn = \<lparr>cid = 3, is_tcp = True, peer_ip = ''198.51.100.7'', local_port = 443,
     input = \<lparr>pending = [], fault = EOF\<rparr>\<rparr>, remoteAddr = ''443'', timeCreated = 0\<rparr>"

theorem failed_sends_exhaust_session_witness:
  "\<exists>r. session r = 5 \<and> pc r = Acquire \<and> (\<forall>ev s. mux_handleSession ev (s :: mux_core, r) = None)"
proof -
  let ?c = "fresh_core 4 1 True"
  let ?r0 = "new_session 1 5"
  let ?r1 = "?r0\<lparr>counter := (make_chan 1)\<lparr>buf := [()]\<rparr>, pc := Select\<rparr>"
  let ?q = "?c\<lparr>localChannel := (make_chan 4)\<lparr>buf := [one_local]\<rparr>\<rparr>"
  let ?r2 = "?r1\<lparr>pc := PutBack one_local\<rparr>"
  let ?r3 = "?r1\<lparr>pc := Acquire\<rparr>"
  have s1: "mux_handleSession SAcquire (?c, ?r0) = Some ((?c, ?r1), [])"
    by (simp add: mux_handleSession_def new_session_def offer_def)
  obtain es where s2: "mux_handleSession (STake 10 (OpenOk (WriteErr 0))) (?q, ?r1) = Some ((?c, ?r2), es)"
    by (simp add: mux_handleSession_def take_chan_def one_local_def send_string_def SendBinaryString_def
        do_write_def new_session_def fresh_core_def)
  have s3: "mux_handleSession SPutBack (?c, ?r2) = Some ((?q, ?r3), [])"
    by (simp add: mux_handleSession_def offer_def fresh_core_def)
  have "session_reach 1 ?r1 0"
    using session_reach.step [OF session_reach.new [of 1 5] s1] by (simp add: new_session_def)
  from session_reach.step [OF this s2] have "session_reach 1 ?r2 1" by simp
  from session_reach.step [OF this s3] have "session_reach 1 ?r3 1" by simp
  from failed_sends_exhaust_session [OF this] show ?thesis
    by (intro exI [of _ ?r3]) (simp add: new_session_def)
qed

end
