(* ===== verification/SrvTcpMux.thy ===== *)
theory SrvTcpMux
  imports MuxServer PortMap
begin

text \<open>
  The TCPMux server, \<open>internal/server/transport/tcpmux.go\<close>: \<open>TcpMuxServer\<close> extends the shared
  \<open>mux_core\<close>. Unlike the TCP server it hands connections to the handshake over an unbuffered channel
  and only queues sessions once there is a control channel. \<open>smux.Client\<close> is outside the program:
  whether it succeeds is an argument.
\<close>

section \<open>State\<close>

record TcpMuxConfig =
  BindAddr :: string
  TunnelStatus :: string
  SnifferLog :: string
  Token :: string
  Ports :: "string list"
  Nodelay :: bool
  cSniffer :: bool
  ChannelSize :: nat
  cMuxCon :: nat
  MuxVersion :: int
  MaxFrameSize :: int
  MaxReceiveBuffer :: int
  MaxStreamBuffer :: int
  WebPort :: int
  KeepAlive :: int
  Heartbeat :: int

record TcpMuxServer = mux_core +
  config :: TcpMuxConfig
  smuxConfig :: smux_config
  tunnelChannel :: "nat chan"
  controlChannel :: "conn option"
  locked :: bool
  monitor :: nat

definition NewTcpMuxServer :: "TcpMuxConfig \<Rightarrow> TcpMuxServer" where
  "NewTcpMuxServer cfg =
     \<lparr>ctx_done = False, localChannel = make_chan (ChannelSize cfg),
      reqNewConnChan = make_chan (ChannelSize cfg), streamCounter = 0, sessionCounter = 0,
      MuxCon = cMuxCon cfg, Sniffer = cSniffer cfg, config = cfg,
      smuxConfig = \<lparr>Version = MuxVersion cfg, KeepAliveInterval = 20, KeepAliveTimeout = 40,
        sMaxFrameSize = MaxFrameSize cfg, sMaxReceiveBuffer = MaxReceiveBuffer cfg,
        sMaxStreamBuffer = MaxStreamBuffer cfg\<rparr>,
      tunnelChannel = make_chan (ChannelSize cfg), controlChannel = None, locked = False, monitor = 0\<rparr>"

definition tcpmux_set_status :: "string \<Rightarrow> TcpMuxServer \<Rightarrow> TcpMuxServer" where
  "tcpmux_set_status st s = s\<lparr>config := (config s)\<lparr>TunnelStatus := st\<rparr>\<rparr>"

section \<open>Start and Restart\<close>

definition tcpmux_Start :: "TcpMuxServer \<Rightarrow> TcpMuxServer \<times> effect list" where
  "tcpmux_Start s =
     (tcpmux_set_status ''Disconnected (TCPMux)'' s,
      (if 0 < WebPort (config s) then [Go GMonitor] else []) @ [Go GTunnelListener])"

definition tcpmux_Start_connected :: "nat \<Rightarrow> TcpMuxServer \<Rightarrow> TcpMuxServer \<times> effect list" where
  "tcpmux_Start_connected cpus s =
     (if controlChannel s \<noteq> None
      then (tcpmux_set_status ''Connected (TCPMux)'' s,
            [Go GParsePortMappings, Go GChannelHandler] @
            replicate (if 4 < cpus then 4 else cpus) (Go GHandleLoop))
      else (s, []))"

definition tcpmux_Restart :: "TcpMuxServer \<Rightarrow> TcpMuxServer \<times> effect list" where
  "tcpmux_Restart s =
     (if locked s then (s, [])
      else (s\<lparr>locked := True, ctx_done := True\<rparr>,
            (case controlChannel s of None \<Rightarrow> [] | Some c \<Rightarrow> [Close (cid c)]) @ [Sleep 2]))"

definition tcpmux_Restart_finish :: "TcpMuxServer \<Rightarrow> TcpMuxServer \<times> effect list" where
  "tcpmux_Restart_finish s =
     (tcpmux_set_status '''' s
        \<lparr>ctx_done := False,
         tunnelChannel := make_chan (ChannelSize (config s)),
         localChannel := make_chan (ChannelSize (config s)),
         reqNewConnChan := make_chan (ChannelSize (config s)),
         controlChannel := None,
         monitor := monitor s + 1,
         streamCounter := 0,
         sessionCounter := 0,
         locked := False\<rparr>,
      [Go GStart])"

interpretation tcpmux_restart: restartable locked tcpmux_Restart tcpmux_Restart_finish
  by unfold_locales (auto simp: tcpmux_Restart_def tcpmux_Restart_finish_def tcpmux_set_status_def)

section \<open>The control channel\<close>

text \<open>
  One pass of \<open>channelHandshake\<close> with a connection received from the unbuffered \<open>handshakeChannel\<close>;
  \<open>True\<close> when it returns with the control channel set.
\<close>

definition tcpmux_channelHandshake ::
    "bool \<Rightarrow> write_result \<Rightarrow> conn \<Rightarrow> TcpMuxServer \<Rightarrow> TcpMuxServer \<times> bool \<times> effect list" where
  "tcpmux_channelHandshake deadline_ok w c s =
     (case server_handshake (Token (config s)) deadline_ok w c of
        (None, es) \<Rightarrow> (s, False, es)
      | (Some c', es) \<Rightarrow>
          if \<not> is_tcp c' then (s, False, es @ [Close (cid c')])
          else (s\<lparr>controlChannel := Some c'\<rparr>, True, es))"

definition tcpmux_channelHandler ::
    "ctl_event \<Rightarrow> TcpMuxServer \<times> ctl \<Rightarrow> ((TcpMuxServer \<times> ctl) \<times> effect list) option" where
  "tcpmux_channelHandler ev sc =
     (case sc of (s, c) \<Rightarrow> case controlChannel s of None \<Rightarrow> None | Some cc \<Rightarrow>
        (case ev of
           MainCtxDone w \<Rightarrow>
             if main_running c \<and> ctx_done s
             then Some ((s, c\<lparr>main_running := False\<rparr>), fst (send_signal w cc SG_Closed))
             else None
         | MainReqNewConn w \<Rightarrow>
             if \<not> main_running c then None
             else (case take_chan (reqNewConnChan s) of
                None \<Rightarrow> None
              | Some (_, ch) \<Rightarrow>
                  (case send_signal w cc SG_Chan of
                     (es, True) \<Rightarrow> Some ((s\<lparr>reqNewConnChan := ch\<rparr>, c), es)
                   | (es, False) \<Rightarrow>
                       Some ((s\<lparr>reqNewConnChan := ch\<rparr>, c\<lparr>main_running := False\<rparr>), es @ [Go GRestart])))
         | MainTick w \<Rightarrow>
             if \<not> main_running c then None
             else (case send_signal w cc SG_HB of
                (es, True) \<Rightarrow> Some ((s, c), es)
              | (es, False) \<Rightarrow> Some ((s, c\<lparr>main_running := False\<rparr>), es @ [Go GRestart]))
         | MainMessage now \<Rightarrow>
             if \<not> main_running c then None
             else (case take_chan (messageChan c) of
                None \<Rightarrow> None
              | Some (m, ch) \<Rightarrow>
                  if m = SG_Closed
                  then Some ((s, c\<lparr>messageChan := ch, main_running := False\<rparr>), [Go GRestart])
                  else Some ((s, c\<lparr>messageChan := ch\<rparr>), []))
         | _ \<Rightarrow>
             (case ctl_reader ev (ctx_done s) c of
                None \<Rightarrow> None
              | Some (c', es) \<Rightarrow> Some ((s, c'), es))))"

section \<open>Accepting connections\<close>

text \<open>
  One pass of \<open>acceptTunnelConn\<close>. \<open>hs_waiting\<close> says whether \<open>channelHandshake\<close> is blocked on
  \<open>handshakeChannel\<close>, \<open>smux_ok\<close> whether \<open>smux.Client\<close> succeeds. The middle result is the connection
  handed to the handshake.
\<close>

definition tcpmux_acceptTunnelConn ::
    "bool \<Rightarrow> bool \<Rightarrow> accept_result \<Rightarrow> TcpMuxServer \<Rightarrow> TcpMuxServer \<times> conn option \<times> effect list" where
  "tcpmux_acceptTunnelConn hs_waiting smux_ok r s =
     (case r of
        AcceptErr \<Rightarrow> (s, None, [])
      | Accepted c \<Rightarrow>
          if \<not> is_tcp c then (s, None, [Close (cid c)])
          else if (case controlChannel s of None \<Rightarrow> False | Some cc \<Rightarrow> peer_ip cc \<noteq> peer_ip c)
          then (s, None, [Close (cid c)])
          else if controlChannel s = None
          then (case offer_sync hs_waiting c of
                  Some c' \<Rightarrow> (s, Some c', [])
                | None \<Rightarrow> (s, None, [Close (cid c)]))
          else if \<not> smux_ok then (s, None, [Close (cid c)])
          else case offer (cid c) (tunnelChannel s) of
                 (ch, True) \<Rightarrow> (s\<lparr>tunnelChannel := ch\<rparr>, None, [])
               | (_, False) \<Rightarrow> (s, None, [Close (cid c)]))"

definition tcpmux_acceptLocalConn ::
    "string \<Rightarrow> int \<Rightarrow> accept_result \<Rightarrow> TcpMuxServer \<Rightarrow> TcpMuxServer \<times> effect list" where
  "tcpmux_acceptLocalConn = mux_acceptLocalConn"

section \<open>Sessions\<close>

text \<open>One pass of \<open>handleLoop\<close> that takes a session: the session starts.\<close>

definition tcpmux_handleLoop :: "TcpMuxServer \<Rightarrow> (TcpMuxServer \<times> session_run) option" where
  "tcpmux_handleLoop s =
     (case take_chan (tunnelChannel s) of
        None \<Rightarrow> None
      | Some (i, ch) \<Rightarrow>
          Some (add_session 1 (s\<lparr>tunnelChannel := ch\<rparr>), new_session (MuxCon s) i))"

definition tcpmux_handleSession ::
    "session_event \<Rightarrow> TcpMuxServer \<times> session_run \<Rightarrow> ((TcpMuxServer \<times> session_run) \<times> effect list) option" where
  "tcpmux_handleSession = mux_handleSession"

section \<open>Lemmas\<close>

lemma streams_end_after:
  "n < 2147483648 \<Longrightarrow> streamCounter s = 0 \<Longrightarrow>
     streamCounter ((add_stream (- 1) ^^ n) s) = - int n"
proof (induction n)
  case 0
  then show ?case by simp
next
  case (Suc n)
  then have "streamCounter ((add_stream (- 1) ^^ n) s) = - int n" by simp
  then have "streamCounter (add_stream (- 1) ((add_stream (- 1) ^^ n) s)) = int32 (- int n + - 1)"
    by simp
  also have "\<dots> = - int n + - 1"
    using Suc(2) by (intro int32_id) auto
  finally show ?case by simp
qed

lemma add_streams_keep:
  "MuxCon ((add_stream d ^^ n) s) = MuxCon s"
  "sessionCounter ((add_stream d ^^ n) s) = sessionCounter s"
  "localChannel ((add_stream d ^^ n) s) = localChannel s"
  "reqNewConnChan ((add_stream d ^^ n) s) = reqNewConnChan s"
  by (induction n) (simp_all add: add_stream_def)

lemma restarted_simps:
  "streamCounter (fst (tcpmux_Restart_finish s)) = 0"
  "sessionCounter (fst (tcpmux_Restart_finish s)) = 0"
  "localChannel (fst (tcpmux_Restart_finish s)) = make_chan (ChannelSize (config s))"
  "reqNewConnChan (fst (tcpmux_Restart_finish s)) = make_chan (ChannelSize (config s))"
  by (simp_all add: tcpmux_Restart_finish_def tcpmux_set_status_def)

section \<open>Properties\<close>

text \<open>
  The TCPMux server admits a tunnel only behind an authenticated control channel: a connection
  is queued as a session exactly when it is TCP, the control channel exists and has its address,
  the session opens and there is room; without a control channel it can only go to the
  handshake; in every other case it is closed.
\<close>

theorem tcpmux_admits_only_authenticated:
  "tcpmux_acceptTunnelConn hs_waiting smux_ok (Accepted c) s =
     (if is_tcp c \<and> (\<exists>cc. controlChannel s = Some cc \<and> peer_ip cc = peer_ip c) \<and> smux_ok \<and>
         length (buf (tunnelChannel s)) < cap (tunnelChannel s)
      then (s\<lparr>tunnelChannel := (tunnelChannel s)\<lparr>buf := buf (tunnelChannel s) @ [cid c]\<rparr>\<rparr>, None, [])
      else if is_tcp c \<and> controlChannel s = None \<and> hs_waiting then (s, Some c, [])
      else (s, None, [Close (cid c)]))"
  by (cases "controlChannel s") (auto simp: tcpmux_acceptTunnelConn_def offer_sync_def offer_def)

text \<open>
  A restart of the TCPMux server resets the stream counter although the copying goroutines of
  the old sessions still run and still count themselves out: after \<open>n\<close> of them ended it is \<open>-n\<close>, and
  the next \<open>n - 1\<close> local connections, if \<open>n\<close> is at least 2, ask the client for no tunnel.
\<close>

theorem restart_skews_stream_counter:
  assumes "2 \<le> n" "n < 2147483648" "0 < ChannelSize (config s)" "is_tcp c"
  shows "let s1 = (add_stream (- 1) ^^ n) (fst (tcpmux_Restart_finish s));
             s2 = fst (tcpmux_acceptLocalConn remote now (Accepted c) s1)
         in streamCounter s1 = - int n \<and> streamCounter s2 = 1 - int n \<and>
            buf (localChannel s2) = [\<lparr>lconn = c, remoteAddr = remote, timeCreated = now\<rparr>] \<and>
            buf (reqNewConnChan s2) = []"
proof -
  let ?s1 = "(add_stream (- 1) ^^ n) (fst (tcpmux_Restart_finish s))"
  have c1: "streamCounter ?s1 = - int n"
    by (rule streams_end_after [OF assms(2)]) (rule restarted_simps)
  have c2: "int32 (streamCounter ?s1 + 1) = 1 - int n"
    using c1 assms(2) by (simp add: int32_id)
  have "int32 (0 * int32 k) = 0" for k by (simp add: int32_id)
  then show ?thesis
    using c1 c2 assms
    by (simp add: tcpmux_acceptLocalConn_def mux_acceptLocalConn_def offer_def add_streams_keep
        restarted_simps needs_session_def add_stream_def Let_def)
qed

theorem restart_skews_stream_counter_witness:
  "\<exists>s. let s1 = (add_stream (- 1) ^^ 2) (fst (tcpmux_Restart_finish s))
       in streamCounter s1 = - 2 \<and> buf (reqNewConnChan
            (fst (tcpmux_acceptLocalConn ''443'' 0 (Accepted (lconn one_local)) s1))) = []"
proof -
  let ?s = "NewTcpMuxServer \<lparr>BindAddr = ''0.0.0.0:3080'', TunnelStatus = '''', SnifferLog = '''',
    Token = ''musix'', Ports = [], Nodelay = True, cSniffer = True, ChannelSize = 2048, cMuxCon = 8,
    MuxVersion = 1, MaxFrameSize = 32768, MaxReceiveBuffer = 4194304, MaxStreamBuffer = 65536,
    WebPort = 0, KeepAlive = 75, Heartbeat = 40\<rparr>"
  show ?thesis
    using restart_skews_stream_counter [of 2 ?s "lconn one_local" "''443''" 0]
    by (intro exI [of _ ?s]) (simp add: NewTcpMuxServer_def one_local_def Let_def)
qed

end
