(* ===== verification/WsServer.thy ===== *)
theory WsServer
  imports MuxServer PortMap
begin

text \<open>
  What the two WebSocket servers (\<open>ws.go\<close>, \<open>wsmux.go\<close>) have in common: the classification of a
  request path and the control channel, whose messages are WebSocket messages. Upgrading a request
  and writing a message are outside the program; their results are arguments.
\<close>

section \<open>Request paths\<close>

definition obfuscatedPaths :: "string list" where
  "obfuscatedPaths =
     [''/api/v1/stream'', ''/cdn/assets'', ''/ws/chat'', ''/api/notifications'', ''/live/stream'',
      ''/api/analytics'', ''/cdn/static'', ''/api/status'', ''/ws/updates'', ''/api/metrics'']"

text \<open>The loop over \<open>obfuscatedPaths\<close> stops at the first prefix and then looks at the separators.\<close>

fun scan_paths :: "string list \<Rightarrow> string \<Rightarrow> bool" where
  "scan_paths [] p = False"
| "scan_paths (o1 # os) p =
     (if has_prefix p o1 then contains_char p (CHR ''/'') \<and> 3 \<le> length (split_on (CHR ''/'') p)
      else scan_paths os p)"

definition isObfuscatedControl :: "string \<Rightarrow> bool" where
  "isObfuscatedControl p = scan_paths obfuscatedPaths p"

datatype path_kind = ControlPath | TunnelPath | OtherPath

definition classify :: "string \<Rightarrow> path_kind" where
  "classify p =
     (if p = ''/channel'' \<or> isObfuscatedControl p then ControlPath
      else if has_prefix p ''/tunnel'' then TunnelPath
      else OtherPath)"

definition authorized :: "string \<Rightarrow> string \<Rightarrow> bool" where
  "authorized token auth \<longleftrightarrow> auth = ''Bearer '' @ token"

text \<open>Every obfuscated path has two separators already, so the count of parts excludes none.\<close>

lemma scan_paths_iff:
  "\<forall>o1\<in>set os. 2 \<le> count_list o1 (CHR ''/'') \<Longrightarrow>
     scan_paths os p \<longleftrightarrow> (\<exists>o1\<in>set os. has_prefix p o1)"
proof (induction os)
  case Nil
  then show ?case by simp
next
  case (Cons o1 os)
  have "contains_char p (CHR ''/'') \<and> 3 \<le> length (split_on (CHR ''/'') p)" if "has_prefix p o1"
  proof -
    obtain t where p: "p = o1 @ t" using \<open>has_prefix p o1\<close> by (auto simp: has_prefix_iff)
    have two: "2 \<le> count_list o1 (CHR ''/'')" using Cons.prems by simp
    then have "CHR ''/'' \<in> set o1" by (metis count_notin not_numeral_le_zero)
    then show ?thesis using two p by (simp add: contains_char_def length_split_on)
  qed
  then show ?case using Cons by auto
qed

lemma isObfuscatedControl_iff: "isObfuscatedControl p \<longleftrightarrow> (\<exists>o1\<in>set obfuscatedPaths. has_prefix p o1)"
  unfolding isObfuscatedControl_def
  by (rule scan_paths_iff) (simp add: obfuscatedPaths_def)

section \<open>The control channel\<close>

record ws_ctl =
  rd :: "byte reader"
  messageChan :: "byte chan"
  main_running :: bool

definition new_ws_ctl :: ws_ctl where
  "new_ws_ctl = \<lparr>rd = new_reader, messageChan = make_chan 10, main_running = True\<rparr>"

text \<open>An event; the flag of the writing events is whether \<open>WriteMessage\<close> succeeds.\<close>

datatype ws_event =
    WReaderCtxDone
  | WReaderReads "bytes read_outcome"
  | WReaderSends
  | WMainCtxDone bool
  | WMainReqNewConn bool
  | WMainTick bool
  | WMainMessage

text \<open>The reading goroutine: an empty message resets the retries and is dropped.\<close>

definition ws_reader :: "ws_event \<Rightarrow> bool \<Rightarrow> ws_ctl \<Rightarrow> (ws_ctl \<times> effect list) option" where
  "ws_reader ev done c =
     (if \<not> running (rd c) then None
      else case ev of
        WReaderCtxDone \<Rightarrow>
          if done \<and> held (rd c) = None then Some (c\<lparr>rd := (rd c)\<lparr>running := False\<rparr>\<rparr>, []) else None
      | WReaderReads out \<Rightarrow>
          if held (rd c) \<noteq> None then None
          else (case out of
                  ReadErr \<Rightarrow> (let (r, es) = reader_read ReadErr (rd c) in Some (c\<lparr>rd := r\<rparr>, es))
                | ReadOk [] \<Rightarrow> Some (c\<lparr>rd := (rd c)\<lparr>retries := 0\<rparr>\<rparr>, [])
                | ReadOk (b # _) \<Rightarrow> (let (r, es) = reader_read (ReadOk b) (rd c) in Some (c\<lparr>rd := r\<rparr>, es)))
      | WReaderSends \<Rightarrow>
          (case reader_deliver (rd c) (messageChan c) of
             None \<Rightarrow> None
           | Some (r, ch) \<Rightarrow> Some (c\<lparr>rd := r, messageChan := ch\<rparr>, []))
      | _ \<Rightarrow> None)"

text \<open>
  The main loop over the request channel \<open>req\<close>; \<open>cc\<close> is the control connection. A message other
  than a heartbeat restarts the server, \<open>SG_Closed\<close> by a call in the loop itself.
\<close>

definition ws_main ::
    "ws_event \<Rightarrow> bool \<Rightarrow> nat \<Rightarrow> unit chan \<times> ws_ctl \<Rightarrow> ((unit chan \<times> ws_ctl) \<times> effect list) option" where
  "ws_main ev done cc rc =
     (case rc of (req, c) \<Rightarrow>
       (if \<not> main_running c then None
        else case ev of
          WMainCtxDone ok \<Rightarrow>
            if done then Some ((req, c\<lparr>main_running := False\<rparr>), [WroteBinary cc [SG_Closed]]) else None
        | WMainReqNewConn ok \<Rightarrow>
            (case take_chan req of
               None \<Rightarrow> None
             | Some (_, ch) \<Rightarrow>
                 if ok then Some ((ch, c), [WroteBinary cc [SG_Chan]])
                 else Some ((ch, c\<lparr>main_running := False\<rparr>), [Go GRestart]))
        | WMainTick ok \<Rightarrow>
            if ok then Some ((req, c), [WroteBinary cc [SG_HB]])
            else Some ((req, c\<lparr>main_running := False\<rparr>), [Go GRestart])
        | WMainMessage \<Rightarrow>
            (case take_chan (messageChan c) of
               None \<Rightarrow> None
             | Some (m, ch) \<Rightarrow>
                 if m = SG_HB then Some ((req, c\<lparr>messageChan := ch\<rparr>), [])
                 else if m = SG_Closed
                 then Some ((req, c\<lparr>messageChan := ch, main_running := False\<rparr>), [Call GRestart])
                 else Some ((req, c\<lparr>messageChan := ch, main_running := False\<rparr>), [Go GRestart]))
        | _ \<Rightarrow> None))"

end
