(* ===== verification/SrvWs.thy ===== *)
theory SrvWs
  imports WsServer
begin

text \<open>
  The WebSocket server, \<open>internal/server/transport/ws.go\<close>: the HTTP handler of \<open>tunnelListener\<close>, the
  control channel, the pairing loop and the pings of idle tunnels. A tunnel is the
  \<open>TunnelChannel\<close> of \<open>shared.go\<close>; the \<open>ping\<close> channel is only ever closed and the mutex only ever
  locked for good by the pairing loop, so both are flags.
\<close>

section \<open>State\<close>

record WsConfig =
  BindAddr :: string
  SnifferLog :: string
  TLSCertFile :: string
  TLSKeyFile :: string
  TunnelStatus :: string
  Token :: string
  Ports :: "string list"
  Nodelay :: bool
  wSniffer :: bool
  KeepAlive :: int
  Heartbeat :: int
  ChannelSize :: nat
  WebPort :: int
  Mode :: string

record TunnelChannel =
  tconn :: nat
  ping_closed :: bool
  mu_locked :: bool

record WsServer =
  config :: WsConfig
  ctx_done :: bool
  tunnelChannel :: "TunnelChannel chan"
  localChannel :: "LocalTCPConn chan"
  reqNewConnChan :: "unit chan"
  controlChannel :: "nat option"
  locked :: bool
  monitor :: nat

definition NewWSServer :: "WsConfig \<Rightarrow> WsServer" where
  "NewWSServer cfg =
     \<lparr>config = cfg, ctx_done = False, tunnelChannel = make_chan (ChannelSize cfg),
      localChannel = make_chan (ChannelSize cfg), reqNewConnChan = make_chan (ChannelSize cfg),
      controlChannel = None, locked = False, monitor = 0\<rparr>"

definition ws_set_status :: "string \<Rightarrow> WsServer \<Rightarrow> WsServer" where
  "ws_set_status st s = s\<lparr>config := (config s)\<lparr>TunnelStatus := st\<rparr>\<rparr>"

section \<open>Start and Restart\<close>

definition ws_Start :: "WsServer \<Rightarrow> WsServer \<times> effect list" where
  "ws_Start s =
     (ws_set_status (''Disconnected ('' @ Mode (config s) @ '')'') s,
      (if 0 < WebPort (config s) then [Go GMonitor] else []) @ [Go GTunnelListener])"

definition ws_Restart :: "WsServer \<Rightarrow> WsServer \<times> effect list" where
  "ws_Restart s =
     (if locked s then (s, [])
      else (s\<lparr>locked := True, ctx_done := True\<rparr>,
            (case controlChannel s of None \<Rightarrow> [] | Some c \<Rightarrow> [Close c]) @ [Sleep 2]))"

definition ws_Restart_finish :: "WsServer \<Rightarrow> WsServer \<times> effect list" where
  "ws_Restart_finish s =
     (ws_set_status '''' s
        \<lparr>ctx_done := False,
         tunnelChannel := make_chan (ChannelSize (config s)),
         localChannel := make_chan (ChannelSize (config s)),
         reqNewConnChan := make_chan (ChannelSize (config s)),
         controlChannel := None,
         monitor := monitor s + 1,
         locked := False\<rparr>,
      [Go GStart])"

interpretation ws_restart: restartable locked ws_Restart ws_Restart_finish
  by unfold_locales (auto simp: ws_Restart_def ws_Restart_finish_def ws_set_status_def)

section \<open>The control channel\<close>

definition ws_channelHandler ::
    "ws_event \<Rightarrow> WsServer \<times> ws_ctl \<Rightarrow> ((WsServer \<times> ws_ctl) \<times> effect list) option" where
  "ws_channelHandler ev sc =
     (case sc of (s, c) \<Rightarrow>
       (case controlChannel s of
          None \<Rightarrow> None
        | Some cc \<Rightarrow>
            (case ws_reader ev (ctx_done s) c of
               Some (c', es) \<Rightarrow> Some ((s, c'), es)
             | None \<Rightarrow>
                 (case ws_main ev (ctx_done s) cc (reqNewConnChan s, c) of
                    None \<Rightarrow> None
                  | Some ((req, c'), es) \<Rightarrow> Some ((s\<lparr>reqNewConnChan := req\<rparr>, c'), es)))))"

section \<open>Requests\<close>

datatype http_reply = Unauthorized401 | UpgradeFailed | Upgraded

text \<open>
  The handler of \<open>tunnelListener\<close>: \<open>auth\<close> is the Authorization header (empty when missing), \<open>up\<close>
  the result of the upgrade.
\<close>

definition ws_serve ::
    "nat \<Rightarrow> string \<Rightarrow> string \<Rightarrow> nat option \<Rightarrow> WsServer \<Rightarrow> WsServer \<times> http_reply \<times> effect list" where
  "ws_serve cpus auth path up s =
     (if \<not> authorized (Token (config s)) auth then (s, Unauthorized401, [])
      else case up of
        None \<Rightarrow> (s, UpgradeFailed, [])
      | Some c \<Rightarrow>
          (case classify path of
             ControlPath \<Rightarrow>
               (case controlChannel s of
                  Some cc \<Rightarrow> (s, Upgraded, [Close cc, Close c, Go GRestart])
                | None \<Rightarrow>
                    (ws_set_status (''Connected ('' @ Mode (config s) @ '')'') (s\<lparr>controlChannel := Some c\<rparr>),
                     Upgraded,
                     [Go GChannelHandler, Go GParsePortMappings] @
                     replicate (if 4 < cpus then 4 else cpus) (Go GHandleLoop)))
           | TunnelPath \<Rightarrow>
               (case offer \<lparr>tconn = c, ping_closed = False, mu_locked = False\<rparr> (tunnelChannel s) of
                  (ch, True) \<Rightarrow> (s\<lparr>tunnelChannel := ch\<rparr>, Upgraded, [Go (GKeepAlive c)])
                | (_, False) \<Rightarrow> (s, Upgraded, [Close c]))
           | OtherPath \<Rightarrow> (s, Upgraded, [])))"

text \<open>What \<open>tunnelListener\<close> does when the context is done: shut the HTTP server down and close.\<close>

definition ws_tunnelListener_done :: "WsServer \<Rightarrow> effect list" where
  "ws_tunnelListener_done s = (case controlChannel s of None \<Rightarrow> [] | Some c \<Rightarrow> [Close c])"

definition ws_acceptLocalConn ::
    "string \<Rightarrow> int \<Rightarrow> accept_result \<Rightarrow> WsServer \<Rightarrow> WsServer \<times> effect list" where
  "ws_acceptLocalConn remote now r s =
     (case r of
        AcceptErr \<Rightarrow> (s, [])
      | Accepted c \<Rightarrow>
          if \<not> is_tcp c then (s, [Close (cid c)])
          else case offer \<lparr>lconn = c, remoteAddr = remote, timeCreated = now\<rparr> (localChannel s) of
                 (ch, True) \<Rightarrow>
                   (s\<lparr>localChannel := ch, reqNewConnChan := fst (offer () (reqNewConnChan s))\<rparr>, [])
               | (_, False) \<Rightarrow> (s, [Close (cid c)]))"

section \<open>Pairing and pings\<close>

datatype handle_loop = Idle | AtCheck LocalTCPConn | AtSelect LocalTCPConn | Returned

datatype loop_event = LoopCtxDone | LoopTakeLocal | LoopCheck int | LoopTakeTunnel bool

text \<open>
  \<open>handleLoop\<close>; the third result is the tunnel taken from the channel as the loop leaves it, with
  its ping channel closed and its mutex locked.
\<close>

definition ws_handleLoop ::
    "loop_event \<Rightarrow> WsServer \<times> handle_loop \<Rightarrow>
       ((WsServer \<times> handle_loop) \<times> TunnelChannel option \<times> effect list) option" where
  "ws_handleLoop ev sl =
     (case (ev, sl) of
        (LoopCtxDone, (s, Idle)) \<Rightarrow> if ctx_done s then Some ((s, Returned), None, []) else None
      | (LoopCtxDone, (s, AtSelect l)) \<Rightarrow> if ctx_done s then Some ((s, Returned), None, []) else None
      | (LoopTakeLocal, (s, Idle)) \<Rightarrow>
          (case take_chan (localChannel s) of
             None \<Rightarrow> None
           | Some (l, ch) \<Rightarrow> Some ((s\<lparr>localChannel := ch\<rparr>, AtCheck l), None, []))
      | (LoopCheck now, (s, AtCheck l)) \<Rightarrow>
          if 3000 < now - timeCreated l then Some ((s, Idle), None, [Close (cid (lconn l))])
          else Some ((s, AtSelect l), None, [])
      | (LoopTakeTunnel ok, (s, AtSelect l)) \<Rightarrow>
          (case take_chan (tunnelChannel s) of
             None \<Rightarrow> None
           | Some (t, ch) \<Rightarrow>
               (let s' = s\<lparr>tunnelChannel := ch\<rparr>; t' = t\<lparr>ping_closed := True, mu_locked := True\<rparr>
                in if \<not> ok then Some ((s', AtCheck l), Some t', [Close (tconn t)])
                   else Some ((s', Idle), Some t',
                          [WroteText (tconn t) (remoteAddr l),
                           PipedWS (tconn t) (cid (lconn l)) (local_port (lconn l)) (wSniffer (config s))])))
      | _ \<Rightarrow> None)"

datatype keep_event = KeepCtxDone | KeepPing | KeepTick bool

text \<open>One pass of \<open>keepAlive\<close>: whether it goes on, and its effects.\<close>

definition ws_keepAlive :: "keep_event \<Rightarrow> bool \<Rightarrow> TunnelChannel \<Rightarrow> (bool \<times> effect list) option" where
  "ws_keepAlive ev done t =
     (case ev of
        KeepCtxDone \<Rightarrow> if done then Some (False, [Close (tconn t)]) else None
      | KeepPing \<Rightarrow> if ping_closed t then Some (False, []) else None
      | KeepTick ok \<Rightarrow>
          if mu_locked t then Some (False, [])
          else if ok then Some (True, [WroteBinary (tconn t) [SG_Ping]])
          else Some (False, [Close (tconn t)]))"

section \<open>Properties\<close>



text \<open>
  A second control request, which needs only the token and not the address of the first, tears
  the tunnel down: both connections are closed and the server restarts; any path that starts with an
  obfuscated prefix does it.
\<close>

theorem ws_second_control_restarts:
  assumes "controlChannel s = Some cc" "p \<in> set obfuscatedPaths"
  shows "ws_serve cpus (''Bearer '' @ Token (config s)) (p @ rest) (Some c) s =
           (s, Upgraded, [Close cc, Close c, Go GRestart])"
proof -
  have "classify (p @ rest) = ControlPath"
    unfolding classify_def isObfuscatedControl_iff using assms(2) has_prefix_append by metis
  then show ?thesis using assms(1) by (simp add: ws_serve_def authorized_def)
qed

theorem ws_second_control_restarts_witness:
  "\<exists>s. snd (snd (ws_serve 4 ''Bearer musix'' ''/ws/chat'' (Some 9) s)) = [Close 1, Close 9, Go GRestart]"
proof -
  let ?s = "(NewWSServer \<lparr>BindAddr = '''', SnifferLog = '''', TLSCertFile = '''', TLSKeyFile = '''',
        TunnelStatus = '''', Token = ''musix'', Ports = [], Nodelay = True, wSniffer = True,
        KeepAlive = 75, Heartbeat = 40, ChannelSize = 8, WebPort = 0, Mode = ''ws''\<rparr>)\<lparr>controlChannel := Some 1\<rparr>"
  show ?thesis
    using ws_second_control_restarts [of ?s 1 "''/ws/chat''" 4 "[]" 9]
    by (intro exI [of _ ?s]) (simp add: NewWSServer_def obfuscatedPaths_def)
qed

text \<open>
  Once a tunnel is paired with a user, its ping goroutine writes nothing more to it: it can only
  return, or close the connection when the context is done, so no ping byte gets into the
  user's data.
\<close>

theorem ws_paired_tunnel_gets_no_ping:
  assumes "ws_handleLoop (LoopTakeTunnel ok) (s, AtSelect l) = Some ((s', l'), Some t, es)"
    and "ws_keepAlive ev done t = Some (cont, fs)"
  shows "\<not> cont \<and> (\<forall>b. WroteBinary (tconn t) b \<notin> set fs) \<and> (fs = [] \<or> done \<and> fs = [Close (tconn t)])"
proof -
  have "ping_closed t \<and> mu_locked t"
    using assms(1) by (auto simp: ws_handleLoop_def Let_def split: option.splits if_splits)
  then show ?thesis
    using assms(2) by (auto simp: ws_keepAlive_def split: keep_event.splits if_splits)
qed

theorem ws_paired_tunnel_gets_no_ping_witness:
  "\<exists>s' l' t es. ws_handleLoop (LoopTakeTunnel True)
      ((NewWSServer \<lparr>BindAddr = '''', SnifferLog = '''', TLSCertFile = '''', TLSKeyFile = '''',
        TunnelStatus = '''', Token = ''musix'', Ports = [], Nodelay = True, wSniffer = True,
        KeepAlive = 75, Heartbeat = 40, ChannelSize = 8, WebPort = 0, Mode = ''ws''\<rparr>)
         \<lparr>tunnelChannel := (make_chan 8)\<lparr>buf := [\<lparr>tconn = 5, ping_closed = False, mu_locked = False\<rparr>]\<rparr>\<rparr>,
       AtSelect one_local) = Some ((s', l'), Some t, es) \<and>
     ws_keepAlive (KeepTick True) False t = Some (False, [])"
proof -
  obtain s' l' t es where h: "ws_handleLoop (LoopTakeTunnel True)
      ((NewWSServer \<lparr>BindAddr = '''', SnifferLog = '''', TLSCertFile = '''', TLSKeyFile = '''',
        TunnelStatus = '''', Token = ''musix'', Ports = [], Nodelay = True, wSniffer = True,
        KeepAlive = 75, Heartbeat = 40, ChannelSize = 8, WebPort = 0, Mode = ''ws''\<rparr>)
         \<lparr>tunnelChannel := (make_chan 8)\<lparr>buf := [\<lparr>tconn = 5, ping_closed = False, mu_locked = False\<rparr>]\<rparr>\<rparr>,
       AtSelect one_local) = Some ((s', l'), Some t, es)"
    by (simp add: ws_handleLoop_def take_chan_def)
  obtain cont fs where k: "ws_keepAlive (KeepTick True) False t = Some (cont, fs)"
    by (cases "mu_locked t") (auto simp: ws_keepAlive_def)
  from ws_paired_tunnel_gets_no_ping [OF h k] h k show ?thesis by auto
qed

end
