(* ===== verification/SrvWsMux.thy ===== *)
theory SrvWsMux
  imports WsServer
begin

text \<open>
  The multiplexing WebSocket server, \<open>internal/server/transport/wsmux.go\<close>: the HTTP handler and
  control channel of \<open>WsServer\<close> with the sessions of \<open>MuxServer\<close>. Upgrading a request and
  \<open>smux.Client\<close> are outside the program; their results are arguments.
\<close>

section \<open>State\<close>

record WsMuxConfig =
  BindAddr :: string
  Token :: string
  SnifferLog :: string
  TLSCertFile :: string
  TLSKeyFile :: string
  TunnelStatus :: string
  Ports :: "string list"
  Nodelay :: bool
  cSniffer :: bool
  KeepAlive :: int
  Heartbeat :: int
  ChannelSize :: nat
  cMuxCon :: nat
  MuxVersion :: int
  MaxFrameSize :: int
  MaxReceiveBuffer :: int
  MaxStreamBuffer :: int
  WebPort :: int
  Mode :: string

record WsMuxServer = mux_core +
  config :: WsMuxConfig
  smuxConfig :: smux_config
  tunnelChannel :: "nat chan"
  controlChannel :: "nat option"
  locked :: bool
  monitor :: nat

definition NewWSMuxServer :: "WsMuxConfig \<Rightarrow> WsMuxServer" where
  "NewWSMuxServer cfg =
     \<lparr>ctx_done = False, localChannel = make_chan (ChannelSize cfg),
      reqNewConnChan = make_chan (ChannelSize cfg), streamCounter = 0, sessionCounter = 0,
      MuxCon = cMuxCon cfg, Sniffer = cSniffer cfg, config = cfg,
      smuxConfig = \<lparr>Version = MuxVersion cfg, KeepAliveInterval = 20, KeepAliveTimeout = 40,
        sMaxFrameSize = MaxFrameSize cfg, sMaxReceiveBuffer = MaxReceiveBuffer cfg,
        sMaxStreamBuffer = MaxStreamBuffer cfg\<rparr>,
      tunnelChannel = make_chan (ChannelSize cfg), controlChannel = None, locked = False, monitor = 0\<rparr>"

definition wsmux_set_status :: "string \<Rightarrow> WsMuxServer \<Rightarrow> WsMuxServer" where
  "wsmux_set_status st s = s\<lparr>config := (config s)\<lparr>TunnelStatus := st\<rparr>\<rparr>"

section \<open>Start and Restart\<close>

definition wsmux_Start :: "WsMuxServer \<Rightarrow> WsMuxServer \<times> effect list" where
  "wsmux_Start s =
     (wsmux_set_status (''Disconnected ('' @ Mode (config s) @ '')'') s,
      (if 0 < WebPort (config s) then [Go GMonitor] else []) @ [Go GTunnelListener])"

definition wsmux_Restart :: "WsMuxServer \<Rightarrow> WsMuxServer \<times> effect list" where
  "wsmux_Restart s =
     (if locked s then (s, [])
      else (s\<lparr>locked := True, ctx_done := True\<rparr>,
            (case controlChannel s of None \<Rightarrow> [] | Some c \<Rightarrow> [Close c]) @ [Sleep 2]))"

definition wsmux_Restart_finish :: "WsMuxServer \<Rightarrow> WsMuxServer \<times> effect list" where
  "wsmux_Restart_finish s =
     (wsmux_set_status '''' s
        \<lparr>ctx_done := False,
         tunnelChannel := make_chan (ChannelSize (config s)),
         localChannel := make_chan (ChannelSize (config s)),
         reqNewConnChan := make_chan (ChannelSize (config s)),
         controlChannel := None,
         monitor := monitor s + 1,
         streamCounter := 0,
         sessionCounter := 0,
         locked := False\<rparr>,
      [Go GStart])"

interpretation wsmux_restart: restartable locked wsmux_Restart wsmux_Restart_finish
  by unfold_locales (auto simp: wsmux_Restart_def wsmux_Restart_finish_def wsmux_set_status_def)

section \<open>The control channel\<close>

definition wsmux_channelHandler ::
    "ws_event \<Rightarrow> WsMuxServer \<times> ws_ctl \<Rightarrow> ((WsMuxServer \<times> ws_ctl) \<times> effect list) option" where
  "wsmux_channelHandler ev sc =
     (case sc of (s, c) \<Rightarrow>
       (case controlChannel s of
          None \<Rightarrow> None
        | Some cc \<Rightarrow>
            (case ws_reader ev (ctx_done s) c of
               Some (c', es) \<Rightarrow> Some ((s, c'), es)
             | None \<Rightarrow>
                 (case ws_main ev (ctx_done s) cc (reqNewConnChan s, c) of
                    None \<Rightarrow> None
                  | Some ((req, c'), es) \<Rightarrow> Some ((s\<lparr>reqNewConnChan := req\<rparr>, c'), es)))))"

section \<open>Requests\<close>

definition wsmux_serve ::
    "nat \<Rightarrow> bool \<Rightarrow> string \<Rightarrow> string \<Rightarrow> nat option \<Rightarrow> WsMuxServer \<Rightarrow> WsMuxServer \<times> effect list" where
  "wsmux_serve cpus smux_ok auth path up s =
     (if \<not> authorized (Token (config s)) auth then (s, [])
      else case up of
        None \<Rightarrow> (s, [])
      | Some c \<Rightarrow>
          (case classify path of
             ControlPath \<Rightarrow>
               (case controlChannel s of
                  Some cc \<Rightarrow> (s, [Close cc, Close c, Go GRestart])
                | None \<Rightarrow>
                    (wsmux_set_status (''Connected ('' @ Mode (config s) @ '')'') (s\<lparr>controlChannel := Some c\<rparr>),
                     [Go GChannelHandler, Go GParsePortMappings] @
                     replicate (if 4 < cpus then 4 else cpus) (Go GHandleLoop)))
           | TunnelPath \<Rightarrow>
               if \<not> smux_ok then (s, [Close c])
               else (case offer c (tunnelChannel s) of
                       (ch, True) \<Rightarrow> (s\<lparr>tunnelChannel := ch\<rparr>, [])
                     | (_, False) \<Rightarrow> (s, [Close c]))
           | OtherPath \<Rightarrow> (s, [])))"

definition wsmux_tunnelListener_done :: "WsMuxServer \<Rightarrow> effect list" where
  "wsmux_tunnelListener_done s = (case controlChannel s of None \<Rightarrow> [] | Some c \<Rightarrow> [Close c])"

definition wsmux_acceptLocalConn ::
    "string \<Rightarrow> int \<Rightarrow> accept_result \<Rightarrow> WsMuxServer \<Rightarrow> WsMuxServer \<times> effect list" where
  "wsmux_acceptLocalConn = mux_acceptLocalConn"

section \<open>Sessions\<close>

definition wsmux_handleLoop :: "WsMuxServer \<Rightarrow> (WsMuxServer \<times> session_run) option" where
  "wsmux_handleLoop s =
     (case take_chan (tunnelChannel s) of
        None \<Rightarrow> None
      | Some (i, ch) \<Rightarrow>
          Some (add_session 1 (s\<lparr>tunnelChannel := ch\<rparr>), new_session (MuxCon s) i))"

definition wsmux_handleSession ::
    "session_event \<Rightarrow> WsMuxServer \<times> session_run \<Rightarrow> ((WsMuxServer \<times> session_run) \<times> effect list) option" where
  "wsmux_handleSession = mux_handleSession"

end
