(* ===== verification/SrvUdp.thy ===== *)
theory SrvUdp
  imports Control PortMap
begin

text \<open>
  The UDP server, \<open>internal/server/transport/udp.go\<close>: a TCP control channel, a UDP socket for the
  tunnels and one per forwarded port. The connection objects are shared through pointers and live in
  heaps: \<open>tunnels\<close> (of \<open>TunnelUDPConn\<close>) in the server, \<open>locals\<close> (of \<open>LocalUDPConn\<close>) in each local
  listener. Datagrams are byte strings with the sender's address as text.
\<close>

section \<open>State\<close>

record UdpConfig =
  BindAddr :: string
  Token :: string
  SnifferLog :: string
  TunnelStatus :: string
  Ports :: "string list"
  Sniffer :: bool
  Heartbeat :: int
  ChannelSize :: nat
  WebPort :: int

record TunnelUDPConn =
  t_timeCreated :: int
  t_payload :: "bytes chan"
  t_addr :: string
  ping_closed :: bool
  mu_locked :: bool

record LocalUDPConn =
  l_timeCreated :: int
  l_payload :: "bytes chan"
  l_remoteAddr :: string
  l_addr :: string

record UdpServer =
  config :: UdpConfig
  ctx_done :: bool
  tunnelChannel :: "nat chan"
  tunnels :: "TunnelUDPConn list"
  activeConnections :: "string \<rightharpoonup> nat"
  reqNewConnChan :: "unit chan"
  controlChannel :: "conn option"
  locked :: bool
  monitor :: nat
  rtt :: int

record udp_local =
  locals :: "LocalUDPConn list"
  activeLocals :: "string \<rightharpoonup> nat"
  udpChan :: "nat chan"

definition payloadCap :: nat where "payloadCap = 100000"

definition NewUDPServer :: "UdpConfig \<Rightarrow> UdpServer" where
  "NewUDPServer cfg =
     \<lparr>config = cfg, ctx_done = False, tunnelChannel = make_chan (ChannelSize cfg), tunnels = [],
      activeConnections = Map.empty, reqNewConnChan = make_chan (ChannelSize cfg),
      controlChannel = None, locked = False, monitor = 0, rtt = 0\<rparr>"

definition udps_set_status :: "string \<Rightarrow> UdpServer \<Rightarrow> UdpServer" where
  "udps_set_status st s = s\<lparr>config := (config s)\<lparr>TunnelStatus := st\<rparr>\<rparr>"

section \<open>Start and Restart\<close>

definition udps_Start :: "UdpServer \<Rightarrow> UdpServer \<times> effect list" where
  "udps_Start s =
     (udps_set_status ''Disconnected (UDP)'' s,
      (if 0 < WebPort (config s) then [Go GMonitor] else []) @ [Go GChannelHandshake])"

definition udps_Restart :: "UdpServer \<Rightarrow> UdpServer \<times> effect list" where
  "udps_Restart s =
     (if locked s then (s, [])
      else (s\<lparr>locked := True, ctx_done := True\<rparr>,
            (case controlChannel s of None \<Rightarrow> [] | Some c \<Rightarrow> [Close (cid c)]) @ [Sleep 2]))"

definition udps_Restart_finish :: "UdpServer \<Rightarrow> UdpServer \<times> effect list" where
  "udps_Restart_finish s =
     (udps_set_status '''' s
        \<lparr>ctx_done := False,
         tunnelChannel := make_chan (ChannelSize (config s)),
         reqNewConnChan := make_chan (ChannelSize (config s)),
         monitor := monitor s + 1,
         controlChannel := None,
         activeConnections := Map.empty,
         locked := False\<rparr>,
      [Go GStart])"

interpretation udp_restart: restartable locked udps_Restart udps_Restart_finish
  by unfold_locales (auto simp: udps_Restart_def udps_Restart_finish_def udps_set_status_def)

section \<open>The control channel\<close>

text \<open>
  One pass of the loop of \<open>channelHandshake\<close>; with the control channel set it leaves the loop and
  starts the tunnel listener, the port mappings and the handler.
\<close>

definition udps_channelHandshake ::
    "bool \<Rightarrow> write_result \<Rightarrow> accept_result \<Rightarrow> UdpServer \<Rightarrow> UdpServer \<times> bool \<times> effect list" where
  "udps_channelHandshake deadline_ok w r s =
     (case r of
        AcceptErr \<Rightarrow> (s, False, [])
      | Accepted c \<Rightarrow>
          (case server_handshake (Token (config s)) deadline_ok w c of
             (None, es) \<Rightarrow> (s, False, es)
           | (Some c', es) \<Rightarrow>
               (s\<lparr>controlChannel := Some c'\<rparr>, True,
                es @ [Go GTunnelListener, Go GParsePortMappings, Go GChannelHandler])))"

definition udps_channelHandler_begin ::
    "write_result \<Rightarrow> int \<Rightarrow> UdpServer \<Rightarrow> (ctl \<times> effect list) option" where
  "udps_channelHandler_begin w now s =
     (case controlChannel s of
        None \<Rightarrow> None
      | Some cc \<Rightarrow>
          (case send_signal w cc SG_RTT of
             (es, True) \<Rightarrow> Some ((new_ctl 1)\<lparr>rtt_sent := now\<rparr>, es)
           | (es, False) \<Rightarrow> Some ((new_ctl 1)\<lparr>rtt_sent := now, main_running := False\<rparr>, es @ [Go GRestart])))"

definition udps_channelHandler ::
    "ctl_event \<Rightarrow> UdpServer \<times> ctl \<Rightarrow> ((UdpServer \<times> ctl) \<times> effect list) option" where
  "udps_channelHandler ev sc =
     (case sc of (s, c) \<Rightarrow> case controlChannel s of None \<Rightarrow> None | Some cc \<Rightarrow>
        (case ev of
           MainCtxDone w \<Rightarrow>
             if main_running c \<and> ctx_done s
             then Some ((s, c\<lparr>main_running := False\<rparr>), fst (send_signal w cc SG_Closed))
             else None
         | MainReqNewConn w \<Rightarrow>
             if \<not> main_running c then None
             else (case take_chan (reqNewConnChan s) of
                None \<Rightarrow> None
              | Some (_, ch) \<Rightarrow>
                  (case send_signal w cc SG_Chan of
                     (es, True) \<Rightarrow> Some ((s\<lparr>reqNewConnChan := ch\<rparr>, c), es)
                   | (es, False) \<Rightarrow>
                       Some ((s\<lparr>reqNewConnChan := ch\<rparr>, c\<lparr>main_running := False\<rparr>), es @ [Go GRestart])))
         | MainTick w \<Rightarrow>
             if \<not> main_running c then None
             else (case send_signal w cc SG_HB of
                (es, True) \<Rightarrow> Some ((s, c), es)
              | (es, False) \<Rightarrow> Some ((s, c\<lparr>main_running := False\<rparr>), es @ [Go GRestart]))
         | MainMessage now \<Rightarrow>
             if \<not> main_running c then None
             else (case take_chan (messageChan c) of
                None \<Rightarrow> None
              | Some (m, ch) \<Rightarrow>
                  if m = SG_Closed
                  then Some ((s, c\<lparr>messageChan := ch, main_running := False\<rparr>), [Go GRestart])
                  else if m = SG_RTT
                  then Some ((s\<lparr>rtt := now - rtt_sent c\<rparr>, c\<lparr>messageChan := ch\<rparr>), [])
                  else Some ((s, c\<lparr>messageChan := ch\<rparr>), []))
         | _ \<Rightarrow>
             (case ctl_reader ev (ctx_done s) c of
                None \<Rightarrow> None
              | Some (c', es) \<Rightarrow> Some ((s, c'), es))))"

section \<open>Tunnel datagrams\<close>

text \<open>
  One datagram on the tunnel socket (\<open>acceptTunnelConn\<close>): for a known sender it is payload, for an
  unknown one it must be the token. \<open>None\<close> is a send on a closed channel.
\<close>

definition udps_acceptTunnelConn ::
    "int \<Rightarrow> string \<Rightarrow> bytes \<Rightarrow> UdpServer \<Rightarrow> (UdpServer \<times> effect list) option" where
  "udps_acceptTunnelConn now key data s =
     (case activeConnections s key of
        Some i \<Rightarrow>
          (case send data (t_payload (tunnels s ! i)) of
             Sent ch \<Rightarrow> Some (s\<lparr>tunnels := (tunnels s)[i := (tunnels s ! i)\<lparr>t_payload := ch\<rparr>]\<rparr>, [])
           | WouldBlock \<Rightarrow> Some (s, [])
           | SendPanic \<Rightarrow> None)
      | None \<Rightarrow>
          if string_of data \<noteq> Token (config s) then Some (s, [])
          else
            (let i = length (tunnels s);
                 t = \<lparr>t_timeCreated = now, t_payload = make_chan payloadCap, t_addr = key,
                      ping_closed = False, mu_locked = False\<rparr>
             in case offer i (tunnelChannel s) of
                  (ch, True) \<Rightarrow>
                    Some (s\<lparr>tunnels := tunnels s @ [t], tunnelChannel := ch,
                            activeConnections := (activeConnections s)(key \<mapsto> i)\<rparr>, [Go (GKeepAlive i)])
                | (_, False) \<Rightarrow>
                    Some (s\<lparr>tunnels := tunnels s @ [t\<lparr>t_payload := (make_chan payloadCap)\<lparr>is_closed := True\<rparr>\<rparr>],
                            activeConnections := (activeConnections s)(key := None)\<rparr>, [])))"

section \<open>Local datagrams\<close>

text \<open>One datagram on the socket of a forwarded port (\<open>localListener\<close>).\<close>

definition udps_localPacket ::
    "string \<Rightarrow> int \<Rightarrow> string \<Rightarrow> bytes \<Rightarrow> unit chan \<times> udp_local \<Rightarrow> (unit chan \<times> udp_local) option" where
  "udps_localPacket remote now key data ru =
     (case ru of (req, u) \<Rightarrow>
        (case activeLocals u key of
           Some i \<Rightarrow>
             (case send data (l_payload (locals u ! i)) of
                Sent ch \<Rightarrow> Some (req, u\<lparr>locals := (locals u)[i := (locals u ! i)\<lparr>l_payload := ch\<rparr>]\<rparr>)
              | WouldBlock \<Rightarrow> Some (req, u)
              | SendPanic \<Rightarrow> None)
         | None \<Rightarrow>
             (let i = length (locals u);
                  l = \<lparr>l_timeCreated = now, l_payload = make_chan payloadCap, l_remoteAddr = remote, l_addr = key\<rparr>
              in case offer i (udpChan u) of
                   (ch, True) \<Rightarrow>
                     Some (fst (offer () req),
                           u\<lparr>locals := locals u @ [l\<lparr>l_payload := fst (offer data (make_chan payloadCap))\<rparr>],
                             udpChan := ch, activeLocals := (activeLocals u)(key \<mapsto> i)\<rparr>)
                 | (_, False) \<Rightarrow>
                     Some (req, u\<lparr>locals := locals u @ [l\<lparr>l_payload := (make_chan payloadCap)\<lparr>is_closed := True\<rparr>\<rparr>],
                             activeLocals := (activeLocals u)(key := None)\<rparr>))))"

section \<open>Pairing and copying\<close>

datatype udps_loop = UIdle | UHolding nat | UReturned

datatype udps_event = UCtxDone | UTakeLocal int | UTakeTunnel bool

text \<open>
  \<open>handleLoop\<close>: the third component of the result is the pair handed to \<open>udpCopy\<close>; a datagram written
  to the tunnel is an effect. A local connection that waited for more than three seconds is dropped.
\<close>

definition udps_handleLoop ::
    "udps_event \<Rightarrow> (UdpServer \<times> udp_local) \<times> udps_loop \<Rightarrow>
       (((UdpServer \<times> udp_local) \<times> udps_loop) \<times> (nat \<times> nat) option \<times> effect list) option" where
  "udps_handleLoop ev sul =
     (case sul of ((s, u), p) \<Rightarrow>
       (case (ev, p) of
          (UCtxDone, UIdle) \<Rightarrow> if ctx_done s then Some (((s, u), UReturned), None, []) else None
        | (UCtxDone, UHolding i) \<Rightarrow> if ctx_done s then Some (((s, u), UReturned), None, []) else None
        | (UTakeLocal now, UIdle) \<Rightarrow>
            (case take_chan (udpChan u) of
               None \<Rightarrow> None
             | Some (i, ch) \<Rightarrow>
                 if 3000 < now - l_timeCreated (locals u ! i)
                 then Some (((s, u\<lparr>udpChan := ch\<rparr>), UIdle), None, [])
                 else Some (((s, u\<lparr>udpChan := ch\<rparr>), UHolding i), None, []))
        | (UTakeTunnel ok, UHolding i) \<Rightarrow>
            (case take_chan (tunnelChannel s) of
               None \<Rightarrow> None
             | Some (t, ch) \<Rightarrow>
                 (let s' = s\<lparr>tunnelChannel := ch,
                             tunnels := (tunnels s)[t := (tunnels s ! t)\<lparr>ping_closed := True, mu_locked := True\<rparr>]\<rparr>
                  in if \<not> ok then Some (((s', u), UHolding i), None, [])
                     else Some (((s', u), UIdle), Some (i, t), [WroteText t (l_remoteAddr (locals u ! i))])))
        | _ \<Rightarrow> None))"

text \<open>One datagram of \<open>udpLocalCopy\<close> or \<open>udpTunnelCopy\<close>: taken from a payload channel and written whole.\<close>

definition udps_localCopy :: "nat \<Rightarrow> udp_local \<Rightarrow> (udp_local \<times> bytes) option" where
  "udps_localCopy i u =
     (case take_chan (l_payload (locals u ! i)) of
        None \<Rightarrow> None
      | Some (data, ch) \<Rightarrow> Some (u\<lparr>locals := (locals u)[i := (locals u ! i)\<lparr>l_payload := ch\<rparr>]\<rparr>, data))"

definition udps_tunnelCopy :: "nat \<Rightarrow> UdpServer \<Rightarrow> (UdpServer \<times> bytes) option" where
  "udps_tunnelCopy t s =
     (case take_chan (t_payload (tunnels s ! t)) of
        None \<Rightarrow> None
      | Some (data, ch) \<Rightarrow> Some (s\<lparr>tunnels := (tunnels s)[t := (tunnels s ! t)\<lparr>t_payload := ch\<rparr>]\<rparr>, data))"

text \<open>The end of \<open>udpCopy\<close>: both payload channels are closed and both entries deleted.\<close>

definition udps_copy_end :: "nat \<Rightarrow> nat \<Rightarrow> UdpServer \<times> udp_local \<Rightarrow> (UdpServer \<times> udp_local) option" where
  "udps_copy_end i t su =
     (case su of (s, u) \<Rightarrow>
       (case (close_chan (l_payload (locals u ! i)), close_chan (t_payload (tunnels s ! t))) of
          (Some lch, Some tch) \<Rightarrow>
            Some (s\<lparr>tunnels := (tunnels s)[t := (tunnels s ! t)\<lparr>t_payload := tch\<rparr>],
                    activeConnections := (activeConnections s)(t_addr (tunnels s ! t) := None)\<rparr>,
                  u\<lparr>locals := (locals u)[i := (locals u ! i)\<lparr>l_payload := lch\<rparr>],
                    activeLocals := (activeLocals u)(l_addr (locals u ! i) := None)\<rparr>)
        | _ \<Rightarrow> None))"

datatype keep_event = KeepCtxDone | KeepPing | KeepTick bool

definition udps_keepAlive :: "keep_event \<Rightarrow> bool \<Rightarrow> nat \<Rightarrow> TunnelUDPConn \<Rightarrow> (bool \<times> effect list) option" where
  "udps_keepAlive ev done i t =
     (case ev of
        KeepCtxDone \<Rightarrow> if done then Some (False, []) else None
      | KeepPing \<Rightarrow> if ping_closed t then Some (False, []) else None
      | KeepTick ok \<Rightarrow>
          if mu_locked t then Some (False, [])
          else if ok then Some (True, [WroteBinary i [SG_Ping]])
          else Some (False, []))"

section \<open>Properties\<close>

text \<open>
  C23. A datagram from an unknown address changes the UDP server only if it is exactly the token; it
  then becomes a tunnel that waits for a user, or, with the queue full, is forgotten again.
\<close>

theorem udp_tunnels_need_token:
  assumes "activeConnections s key = None"
  shows "\<exists>s' es. udps_acceptTunnelConn now key data s = Some (s', es) \<and>
     (string_of data \<noteq> Token (config s) \<longrightarrow> s' = s \<and> es = []) \<and>
     (string_of data = Token (config s) \<longrightarrow>
        (if length (buf (tunnelChannel s)) < cap (tunnelChannel s)
         then buf (tunnelChannel s') = buf (tunnelChannel s) @ [length (tunnels s)] \<and>
              activeConnections s' = (activeConnections s)(key \<mapsto> length (tunnels s)) \<and>
              es = [Go (GKeepAlive (length (tunnels s)))]
         else tunnelChannel s' = tunnelChannel s \<and> activeConnections s' = activeConnections s \<and> es = []))"
  using assms by (auto simp: udps_acceptTunnelConn_def offer_def Let_def)

definition sample_udp :: UdpConfig where
  "sample_udp = \<lparr>BindAddr = ''0.0.0.0:3080'', Token = ''musix'', SnifferLog = '''', TunnelStatus = '''',
     Ports = [], Sniffer = False, Heartbeat = 40, ChannelSize = 4, WebPort = 0\<rparr>"

theorem udp_tunnels_need_token_witness:
  "\<exists>s' es. udps_acceptTunnelConn 0 ''10.0.0.1:5000'' (bytes_of ''musix'') (NewUDPServer sample_udp) = Some (s', es) \<and>
     buf (tunnelChannel s') = [0] \<and> es = [Go (GKeepAlive 0)]"
  using udp_tunnels_need_token [of "NewUDPServer sample_udp" "''10.0.0.1:5000''" 0 "bytes_of ''musix''"]
  by (auto simp: NewUDPServer_def sample_udp_def)

text \<open>
  A user of the UDP server whose first packet waits more than three seconds for the handle loop
  is dropped from the queue but stays in the map of active users: nothing will ever read the payload
  channel, and each later packet of that user is appended to it instead of opening a connection.
\<close>

theorem udp_expired_user_black_holed:
  assumes "take_chan (udpChan u) = Some (i, ch)" "3000 < now - l_timeCreated (locals u ! i)"
    and "activeLocals u key = Some i" "i < length (locals u)" "i \<notin> set (buf ch)"
    and "\<not> is_closed (l_payload (locals u ! i))"
    and "length (buf (l_payload (locals u ! i))) < cap (l_payload (locals u ! i))"
  shows "\<exists>u1 u2. udps_handleLoop (UTakeLocal now) ((s, u), UIdle) = Some (((s, u1), UIdle), None, []) \<and>
     activeLocals u1 key = Some i \<and> i \<notin> set (buf (udpChan u1)) \<and>
     udps_localPacket remote later key data (req, u1) = Some (req, u2) \<and>
     buf (l_payload (locals u2 ! i)) = buf (l_payload (locals u ! i)) @ [data] \<and>
     udpChan u2 = udpChan u1 \<and> activeLocals u2 = activeLocals u1"
  using assms by (simp add: udps_handleLoop_def udps_localPacket_def send_def)

theorem udp_expired_user_black_holed_witness:
  "\<exists>u u1. activeLocals u ''10.0.0.9:4000'' = Some 0 \<and>
     udps_handleLoop (UTakeLocal 3001) ((NewUDPServer sample_udp, u), UIdle) =
       Some (((NewUDPServer sample_udp, u1), UIdle), None, []) \<and> activeLocals u1 ''10.0.0.9:4000'' = Some 0"
proof -
  let ?l = "\<lparr>l_timeCreated = 0, l_payload = (make_chan payloadCap)\<lparr>buf := [[1]]\<rparr>, l_remoteAddr = ''53'',
    l_addr = ''10.0.0.9:4000''\<rparr>"
  let ?u = "\<lparr>locals = [?l], activeLocals = [''10.0.0.9:4000'' \<mapsto> 0], udpChan = (make_chan 4)\<lparr>buf := [0]\<rparr>\<rparr>"
  have "take_chan (udpChan ?u) = Some (0, make_chan 4)"
    by (simp add: take_chan_def make_chan_def)
  from udp_expired_user_black_holed [OF this, of 3001 "''10.0.0.9:4000''" "NewUDPServer sample_udp" "''53''" 4000 "[2]" "make_chan 4"]
  show ?thesis by - (rule exI [of _ ?u], auto simp: payloadCap_def)
qed

end
