(* ===== verification/SrvQuic.thy ===== *)
theory SrvQuic
  imports Control PortMap
begin

text \<open>
  The QUIC server, \<open>internal/server/transport/quic.go\<close>, which the README calls removed but which
  \<open>server.go\<close> still starts. QUIC connections and streams are identities (a connection with its peer
  address); accepting and opening streams are outside the program, their results are arguments.
\<close>

section \<open>State\<close>

record qconn =
  qid :: nat
  qip :: string

record QuicConfig =
  BindAddr :: string
  TunnelStatus :: string
  SnifferLog :: string
  Token :: string
  Ports :: "string list"
  Sniffer :: bool
  ChannelSize :: nat
  MuxCon :: nat
  WebPort :: int
  TLSCertFile :: string
  TLSKeyFile :: string

record QuicServer =
  config :: QuicConfig
  ctx_done :: bool
  tunnelChan :: "qconn chan"
  localChan :: "LocalTCPConn chan"
  getNewConnChan :: "unit chan"
  controlChannel :: "qconn option"
  locked :: bool
  monitor :: nat
  coldStart :: bool

definition NewQuicServer :: "QuicConfig \<Rightarrow> QuicServer" where
  "NewQuicServer cfg =
     \<lparr>config = cfg, ctx_done = False, tunnelChan = make_chan (ChannelSize cfg),
      localChan = make_chan (ChannelSize cfg), getNewConnChan = make_chan (ChannelSize cfg),
      controlChannel = None, locked = False, monitor = 0, coldStart = True\<rparr>"

definition quic_set_status :: "string \<Rightarrow> QuicServer \<Rightarrow> QuicServer" where
  "quic_set_status st s = s\<lparr>config := (config s)\<lparr>TunnelStatus := st\<rparr>\<rparr>"

section \<open>Restart\<close>

text \<open>Unlike the other servers it leaves the control connection open.\<close>

definition quic_Restart :: "QuicServer \<Rightarrow> QuicServer \<times> effect list" where
  "quic_Restart s = (if locked s then (s, []) else (s\<lparr>locked := True, ctx_done := True\<rparr>, [Sleep 2]))"

definition quic_Restart_finish :: "QuicServer \<Rightarrow> QuicServer \<times> effect list" where
  "quic_Restart_finish s =
     (quic_set_status '''' s
        \<lparr>ctx_done := False,
         tunnelChan := make_chan (ChannelSize (config s)),
         getNewConnChan := make_chan (ChannelSize (config s)),
         localChan := make_chan (ChannelSize (config s)),
         controlChannel := None,
         monitor := monitor s + 1,
         coldStart := True,
         locked := False\<rparr>,
      [Go GStart])"

interpretation quic_restart: restartable locked quic_Restart quic_Restart_finish
  by unfold_locales (auto simp: quic_Restart_def quic_Restart_finish_def quic_set_status_def)

text \<open>\<open>TunnelListener\<close> up to the accepting goroutine, the certificate and sockets apart.\<close>

definition quic_TunnelListener :: "QuicServer \<Rightarrow> QuicServer \<times> effect list" where
  "quic_TunnelListener s =
     (quic_set_status ''Disconnected (QUIC)'' s, if 0 < WebPort (config s) then [Go GMonitor] else [])"

section \<open>Accepting\<close>

text \<open>
  One pass of \<open>acceptTunCon\<close>; the middle result is the connection whose handshake is started. Neither a
  connection from another address nor one that finds the queue full is closed.
\<close>

definition quic_acceptTunCon :: "qconn option \<Rightarrow> QuicServer \<Rightarrow> QuicServer \<times> qconn option" where
  "quic_acceptTunCon r s =
     (case r of
        None \<Rightarrow> (s, None)
      | Some c \<Rightarrow>
          (case controlChannel s of
             None \<Rightarrow> (s, Some c)
           | Some cc \<Rightarrow>
               if qip cc \<noteq> qip c then (s, None)
               else (s\<lparr>tunnelChan := fst (offer c (tunnelChan s))\<rparr>, None)))"

text \<open>\<open>channelHandshake\<close> with the accepted stream (its identity and what it will deliver).\<close>

definition quic_channelHandshake ::
    "qconn \<Rightarrow> (nat \<times> stream) option \<Rightarrow> bool \<Rightarrow> write_result \<Rightarrow> QuicServer \<Rightarrow> QuicServer \<times> effect list" where
  "quic_channelHandshake c acc deadline_ok w s =
     (case acc of
        None \<Rightarrow> (s, [Close (qid c)])
      | Some (i, st) \<Rightarrow>
          if \<not> deadline_ok then (s, [CloseStream i, Close (qid c)])
          else (case ReceiveBinaryString QuicStream st of
                  ((msg, err), _) \<Rightarrow>
                    if err \<noteq> None then (s, [CloseStream i, Close (qid c)])
                    else if msg \<noteq> Token (config s) then (s, [CloseStream i, Close (qid c)])
                    else (case send_string w i (Token (config s)) of
                            (es, False) \<Rightarrow> (s, es @ [CloseStream i, Close (qid c)])
                          | (es, True) \<Rightarrow>
                              (quic_set_status ''Connected (QUIC)'' (s\<lparr>controlChannel := Some c\<rparr>),
                               es @ [CloseStream i] @
                               (if coldStart s then [Go GParsePortMappings, Go GHandleTunConn] else []) @
                               [Go GChannelHandler]))))"

section \<open>The control channel\<close>

text \<open>
  \<open>keepalive\<close> on the accepted \<open>stream\<close>. A ping accepts a further stream and writes the heartbeat
  there. The loop ends by giving up the control channel, except when a stream cannot be accepted. A ping
  after another loop has given up the control channel is a nil-pointer panic, \<open>Fatal\<close> here.
\<close>

datatype keep_event =
    KCtxDone
  | KGetNewConn write_result
  | KPing "nat option" write_result
  | KTimeout
  | KResult "byte option"

definition quic_keepalive_begin :: "nat option \<Rightarrow> QuicServer \<Rightarrow> QuicServer \<times> nat option \<times> effect list" where
  "quic_keepalive_begin acc s =
     (case acc of
        None \<Rightarrow> (s, None, [Go GRestart])
      | Some stream \<Rightarrow> (s\<lparr>coldStart := False\<rparr>, Some stream, []))"

definition quic_keepalive ::
    "nat \<Rightarrow> keep_event \<Rightarrow> QuicServer \<Rightarrow> (QuicServer \<times> bool \<times> effect list) option" where
  "quic_keepalive stream ev s =
     (case ev of
        KCtxDone \<Rightarrow> if ctx_done s then Some (s, False, []) else None
      | KGetNewConn w \<Rightarrow>
          (case take_chan (getNewConnChan s) of
             None \<Rightarrow> None
           | Some (_, ch) \<Rightarrow>
               (case SendBinaryByte QuicStream w SG_Chan of
                  (None, bs) \<Rightarrow> Some (s\<lparr>getNewConnChan := ch\<rparr>, True, [Wrote stream bs])
                | (Some _, bs) \<Rightarrow>
                    Some (s\<lparr>getNewConnChan := ch, controlChannel := None\<rparr>, False, [Wrote stream bs])))
      | KPing acc w \<Rightarrow>
          if controlChannel s = None then Some (s, False, [Fatal])
          else (case acc of
             None \<Rightarrow> Some (s, False, [Go GRestart])
           | Some streamtest \<Rightarrow>
               (case SendBinaryByte QuicStream w SG_HB of
                  (None, bs) \<Rightarrow> Some (s, True, [Wrote streamtest bs])
                | (Some _, bs) \<Rightarrow> Some (s\<lparr>controlChannel := None\<rparr>, False, [Wrote streamtest bs])))
      | KTimeout \<Rightarrow> Some (s\<lparr>controlChannel := None\<rparr>, False, [])
      | KResult r \<Rightarrow>
          (case r of
             Some m \<Rightarrow> if m = SG_HB then Some (s, True, []) else Some (s\<lparr>controlChannel := None\<rparr>, False, [])
           | None \<Rightarrow> Some (s\<lparr>controlChannel := None\<rparr>, False, [])))"

section \<open>Local connections and sessions\<close>

definition quic_acceptLocalCon :: "string \<Rightarrow> accept_result \<Rightarrow> QuicServer \<Rightarrow> QuicServer \<times> effect list" where
  "quic_acceptLocalCon remote r s =
     (case r of
        AcceptErr \<Rightarrow> (s, [])
      | Accepted c \<Rightarrow>
          if \<not> is_tcp c then (s, [Close (cid c)])
          else case offer \<lparr>lconn = c, remoteAddr = remote, timeCreated = 0\<rparr> (localChan s) of
                 (ch, True) \<Rightarrow> (s\<lparr>localChan := ch\<rparr>, [])
               | (_, False) \<Rightarrow> (s, [Close (cid c)]))"

text \<open>
  \<open>handleTunConn\<close> waits for a session or, after starting one, for its \<open>next\<close> signal; \<open>next\<close> is
  unbuffered, so the signal of the session and the end of the wait are one step. A session is at its
  \<open>select\<close>, putting a connection back after an error, signalling \<open>next\<close> (after an error, or with the quota reached), waiting
  for its streams, or ended.
\<close>

datatype session_phase =
    QSelect
  | QPutBack LocalTCPConn
  | QNextAfterError
  | QNextAfterQuota
  | QDrain
  | QEnded

record qsession =
  qsess :: nat
  qcount :: nat
  qdone :: nat
  phase :: session_phase

datatype qsession_event =
    QCtxDone
  | QTake "(nat \<times> write_result) option"
  | QPut
  | QNext
  | QStreamEnds
  | QAllDone

definition quic_handleSession ::
    "qsession_event \<Rightarrow> (QuicServer \<times> bool) \<times> qsession \<Rightarrow>
       (((QuicServer \<times> bool) \<times> qsession) \<times> effect list) option" where
  "quic_handleSession ev swq =
     (case swq of ((s, waiting), q) \<Rightarrow>
       (case (ev, phase q) of
          (QCtxDone, QSelect) \<Rightarrow> if ctx_done s then Some (((s, waiting), q\<lparr>phase := QEnded\<rparr>), []) else None
        | (QTake opened, QSelect) \<Rightarrow>
            (case take_chan (localChan s) of
               None \<Rightarrow> None
             | Some (l, ch) \<Rightarrow>
                 (let s' = s\<lparr>localChan := ch\<rparr>
                  in case opened of
                       None \<Rightarrow> Some (((s', waiting), q\<lparr>phase := QPutBack l\<rparr>), [Close (qsess q)])
                     | Some (i, w) \<Rightarrow>
                         (case send_string w i (remoteAddr l) of
                            (es, False) \<Rightarrow>
                              Some (((s', waiting), q\<lparr>phase := QPutBack l\<rparr>), es @ [Close (qsess q)])
                          | (es, True) \<Rightarrow>
                              Some (((s', waiting),
                                     q\<lparr>qcount := qcount q + 1,
                                       phase := (if qcount q + 1 = MuxCon (config s) then QNextAfterQuota else QSelect)\<rparr>),
                                    es @ [PipedStream i (cid (lconn l)) (local_port (lconn l)) (Sniffer (config s))]))))
        | (QPut, QPutBack l) \<Rightarrow>
            (case offer l (localChan s) of
               (ch, True) \<Rightarrow> Some (((s\<lparr>localChan := ch\<rparr>, waiting), q\<lparr>phase := QNextAfterError\<rparr>), [])
             | (_, False) \<Rightarrow> None)
        | (QNext, QNextAfterError) \<Rightarrow>
            if waiting then Some (((s, False), q\<lparr>phase := QEnded\<rparr>), []) else None
        | (QNext, QNextAfterQuota) \<Rightarrow>
            if waiting
            then Some (((s\<lparr>getNewConnChan := fst (offer () (getNewConnChan s))\<rparr>, False), q\<lparr>phase := QDrain\<rparr>), [])
            else None
        | (QStreamEnds, _) \<Rightarrow>
            if qdone q < qcount q then Some (((s, waiting), q\<lparr>qdone := qdone q + 1\<rparr>), []) else None
        | (QAllDone, QDrain) \<Rightarrow>
            if qdone q = MuxCon (config s)
            then Some (((s, waiting), q\<lparr>phase := QEnded\<rparr>), [Close (qsess q)])
            else None
        | _ \<Rightarrow> None))"

definition quic_handleTunConn :: "QuicServer \<times> bool \<Rightarrow> ((QuicServer \<times> bool) \<times> qsession) option" where
  "quic_handleTunConn sw =
     (case sw of (s, waiting) \<Rightarrow>
       (if waiting then None
        else case take_chan (tunnelChan s) of
          None \<Rightarrow> None
        | Some (c, ch) \<Rightarrow>
            Some ((s\<lparr>tunnelChan := ch\<rparr>, True), \<lparr>qsess = qid c, qcount = 0, qdone = 0, phase = QSelect\<rparr>)))"

section \<open>The sessions as a state machine\<close>

record quic_world =
  qsrv :: QuicServer
  waits :: bool
  qsessions :: "qsession list"

inductive quic_step :: "quic_world \<Rightarrow> quic_world \<Rightarrow> bool" where
  accept: "quic_acceptTunCon r (qsrv w) = (s', h) \<Longrightarrow> quic_step w (w\<lparr>qsrv := s'\<rparr>)"
| local: "quic_acceptLocalCon remote r (qsrv w) = (s', es) \<Longrightarrow> quic_step w (w\<lparr>qsrv := s'\<rparr>)"
| keepalive: "quic_keepalive st ev (qsrv w) = Some (s', go, es) \<Longrightarrow> quic_step w (w\<lparr>qsrv := s'\<rparr>)"
| start_session: "quic_handleTunConn (qsrv w, waits w) = Some ((s', b), q) \<Longrightarrow>
     quic_step w (w\<lparr>qsrv := s', waits := b, qsessions := qsessions w @ [q]\<rparr>)"
| session: "i < length (qsessions w) \<Longrightarrow>
     quic_handleSession sev ((qsrv w, waits w), qsessions w ! i) = Some (((s', b), q), es) \<Longrightarrow>
     quic_step w (w\<lparr>qsrv := s', waits := b, qsessions := (qsessions w)[i := q]\<rparr>)"
| handshake: "quic_channelHandshake c acc deadline_ok wr (qsrv w) = (s', es) \<Longrightarrow> quic_step w (w\<lparr>qsrv := s'\<rparr>)"
| keep_begin: "quic_keepalive_begin acc (qsrv w) = (s', st, es) \<Longrightarrow> quic_step w (w\<lparr>qsrv := s'\<rparr>)"
| cancelled: "quic_step w (w\<lparr>qsrv := (qsrv w)\<lparr>ctx_done := True\<rparr>\<rparr>)"

inductive quic_reach :: "QuicConfig \<Rightarrow> quic_world \<Rightarrow> bool" for cfg where
  init: "quic_reach cfg \<lparr>qsrv = NewQuicServer cfg, waits = False, qsessions = []\<rparr>"
| step: "quic_reach cfg w \<Longrightarrow> quic_step w w' \<Longrightarrow> quic_reach cfg w'"

text \<open>A session that may still take local connections or owes the \<open>next\<close> signal.\<close>

definition busy :: "qsession \<Rightarrow> nat" where
  "busy q = (case phase q of QDrain \<Rightarrow> 0 | QEnded \<Rightarrow> 0 | _ \<Rightarrow> 1)"

definition session_ok :: "nat \<Rightarrow> qsession \<Rightarrow> bool" where
  "session_ok m q \<longleftrightarrow> qdone q \<le> qcount q \<and> qcount q \<le> m \<and>
     (phase q = QSelect \<longrightarrow> qcount q < m) \<and> (phase q \<in> {QNextAfterQuota, QDrain} \<longrightarrow> qcount q = m)"

definition quic_inv :: "nat \<Rightarrow> quic_world \<Rightarrow> bool" where
  "quic_inv m w \<longleftrightarrow>
     0 < m \<and> MuxCon (config (qsrv w)) = m \<and> (\<forall>q\<in>set (qsessions w). session_ok m q) \<and>
     sum_list (map busy (qsessions w)) \<le> (if waits w then 1 else 0)"

lemma quic_handshake_config:
  "MuxCon (config (fst (quic_channelHandshake c acc ok w s))) = MuxCon (config s)"
  by (simp add: quic_channelHandshake_def quic_set_status_def
      split: option.splits prod.splits bool.splits)

lemma quic_config_kept:
  "quic_keepalive_begin ac s = (s', st', es) \<Longrightarrow> config s' = config s"
  "quic_acceptTunCon r s = (s', h) \<Longrightarrow> config s' = config s"
  "quic_acceptLocalCon remote ar s = (s', es) \<Longrightarrow> config s' = config s"
  "quic_keepalive st ev s = Some (s', go, es) \<Longrightarrow> config s' = config s"
  "quic_handleTunConn (s, b) = Some ((s', b'), q) \<Longrightarrow> config s' = config s \<and> \<not> b \<and> b' \<and> phase q = QSelect \<and> qcount q = 0 \<and> qdone q = 0"
  by (auto simp: quic_acceptTunCon_def quic_acceptLocalCon_def quic_keepalive_def quic_handleTunConn_def
      quic_keepalive_begin_def
      split: option.splits if_splits prod.splits accept_result.splits bool.splits keep_event.splits)

text \<open>What a step does to its session and to the wait of \<open>handleTunConn\<close>.\<close>

lemma quic_session_step:
  assumes "quic_handleSession ev ((s, b), q) = Some (((s', b'), q'), es)" "session_ok (MuxCon (config s)) q"
  shows "config s' = config s \<and> session_ok (MuxCon (config s)) q' \<and>
         (b' = b \<and> busy q' \<le> busy q \<or> b \<and> \<not> b' \<and> busy q = 1 \<and> busy q' = 0)"
proof (cases ev)
  case (QTake opened)
  then obtain l ch where p: "phase q = QSelect" and t: "take_chan (localChan s) = Some (l, ch)"
    using assms(1) by (auto simp: quic_handleSession_def split: session_phase.splits option.splits)
  show ?thesis
  proof (cases opened)
    case None
    then show ?thesis using assms QTake p t by (auto simp: quic_handleSession_def session_ok_def busy_def)
  next
    case (Some iw)
    obtain i w where iw: "iw = (i, w)" by fastforce
    obtain fs sent where "send_string w i (remoteAddr l) = (fs, sent)" by fastforce
    then show ?thesis
      using assms QTake p t Some iw
      by (cases sent) (auto simp: quic_handleSession_def session_ok_def busy_def split: if_splits)
  qed
next
  case QStreamEnds
  then show ?thesis
    using assms by (auto simp: quic_handleSession_def session_ok_def busy_def split: if_splits)
qed (use assms in \<open>auto simp: quic_handleSession_def session_ok_def busy_def
      split: session_phase.splits if_splits prod.splits bool.splits\<close>)

lemma quic_step_inv: "quic_step w w' \<Longrightarrow> quic_inv m w \<Longrightarrow> quic_inv m w'"
proof (induction rule: quic_step.induct)
  case (accept r w s' h)
  then show ?case using quic_config_kept(2) [OF accept(1)] by (simp add: quic_inv_def)
next
  case (local remote r w s' es)
  then show ?case using quic_config_kept(3) [OF local(1)] by (simp add: quic_inv_def)
next
  case (keepalive st ev w s' go es)
  then show ?case using quic_config_kept(4) [OF keepalive(1)] by (simp add: quic_inv_def)
next
  case (start_session w s' b q)
  from quic_config_kept(5) [OF start_session(1)]
  have k: "config s' = config (qsrv w)" "\<not> waits w" "b" "phase q = QSelect" "qcount q = 0" "qdone q = 0"
    by simp_all
  with start_session(2) have "session_ok m q" "busy q = 1"
    by (simp_all add: session_ok_def busy_def quic_inv_def)
  with k start_session(2) show ?case by (simp add: quic_inv_def)
next
  case (session i w sev s' b q es)
  have ok: "session_ok (MuxCon (config (qsrv w))) (qsessions w ! i)"
    using session(1,3) by (simp add: quic_inv_def)
  note st = quic_session_step [OF session(2) ok]
  have sum: "sum_list (map busy ((qsessions w)[i := q])) + busy (qsessions w ! i) =
      sum_list (map busy (qsessions w)) + busy q"
    using sum_list_update [OF session(1)] .
  have all: "\<forall>x\<in>set ((qsessions w)[i := q]). session_ok m x"
    using st session(3) set_update_subset_insert [of "qsessions w" i q] by (auto simp: quic_inv_def)
  have le: "sum_list (map busy (qsessions w)) \<le> (if waits w then 1 else 0)"
    using session(3) by (simp only: quic_inv_def)
  from st have "sum_list (map busy ((qsessions w)[i := q])) \<le> (if b then 1 else 0)"
  proof (elim conjE disjE)
    assume b: "b = waits w" and "busy q \<le> busy (qsessions w ! i)"
    with sum have "sum_list (map busy ((qsessions w)[i := q])) \<le> sum_list (map busy (qsessions w))"
      by linarith
    from this le show ?thesis unfolding b by (rule order_trans)
  next
    assume b: "waits w" "\<not> b" and "busy (qsessions w ! i) = 1" "busy q = 0"
    with sum have "sum_list (map busy (qsessions w)) = sum_list (map busy ((qsessions w)[i := q])) + 1"
      by linarith
    with le show ?thesis unfolding if_P [OF b(1)] if_not_P [OF b(2)] by linarith
  qed
  with st all session(3) show ?case by (simp add: quic_inv_def)
next
  case (handshake c acc deadline_ok wr w s' es)
  then show ?case using quic_handshake_config [of c acc deadline_ok wr "qsrv w"] by (simp add: quic_inv_def)
next
  case (keep_begin acc w s' st es)
  then show ?case using quic_config_kept(1) [OF keep_begin(1)] by (simp add: quic_inv_def)
next
  case (cancelled w)
  then show ?case by (simp add: quic_inv_def)
qed


lemma quic_reach_inv: "quic_reach cfg w \<Longrightarrow> 0 < MuxCon cfg \<Longrightarrow> quic_inv (MuxCon cfg) w"
proof (induction rule: quic_reach.induct)
  case init
  then show ?case by (simp add: quic_inv_def NewQuicServer_def)
next
  case (step w w')
  then show ?case using quic_step_inv by blast
qed


definition one_stream :: QuicConfig where
  "one_stream =
     \<lparr>BindAddr = ''0.0.0.0:3080'', TunnelStatus = '''', SnifferLog = '''', Token = '''', Ports = [''443''],
      Sniffer = False, ChannelSize = 8, MuxCon = 1, WebPort = 0, TLSCertFile = ''cert.pem'', TLSKeyFile = ''key.pem''\<rparr>"

definition quic_peer :: "nat \<Rightarrow> qconn" where
  "quic_peer i = \<lparr>qid = i, qip = ''10.0.0.2''\<rparr>"


text \<open>
  The heartbeats of the QUIC server: each ping writes the signal on a stream accepted for this very
  ping, never on the control stream the loop reads from and sends \<open>SG_Chan\<close> on; and a message on that
  stream other than a heartbeat, a timeout or a write error ends the loop with the control channel
  forgotten and no restart, so the next connection from any address is taken for a handshake.
\<close>

theorem quic_heartbeats_on_fresh_streams:
  assumes "quic_keepalive st ev s = Some (s', go, es)"
  shows "(\<forall>i bs. Wrote i bs \<in> set es \<longrightarrow>
            i = st \<and> (\<exists>w. ev = KGetNewConn w \<and> set bs \<subseteq> {SG_Chan}) \<or>
            (\<exists>w. ev = KPing (Some i) w \<and> set bs \<subseteq> {SG_HB})) \<and>
         (\<not> go \<and> (\<forall>w. ev \<noteq> KPing None w) \<and> ev \<noteq> KCtxDone \<longrightarrow>
            controlChannel s' = None \<and> Go GRestart \<notin> set es \<and>
            (\<forall>c. quic_acceptTunCon (Some c) s' = (s', Some c)))"
proof -
  have w: "set bs \<subseteq> {b}" if "SendBinaryByte QuicStream wr b = (e, bs)" for wr b e bs
    using that by (auto simp: SendBinaryByte_def do_write_def split: write_result.splits dest: in_set_takeD)
  from assms show ?thesis
    by (cases ev) (auto simp: quic_keepalive_def quic_acceptTunCon_def dest!: w
        split: option.splits prod.splits if_splits)
qed

theorem quic_heartbeats_on_fresh_streams_witness:
  "\<exists>s. quic_keepalive 5 (KPing (Some 9) WriteOk) s = Some (s, True, [Wrote 9 [SG_HB]]) \<and>
     (\<exists>w. KPing (Some 9) WriteOk = KPing (Some 9) w \<and> set [SG_HB] \<subseteq> {SG_HB})"
proof -
  let ?s = "(NewQuicServer one_stream)\<lparr>controlChannel := Some (quic_peer 1)\<rparr>"
  have *: "quic_keepalive 5 (KPing (Some 9) WriteOk) ?s = Some (?s, True, [Wrote 9 [SG_HB]])"
    by (simp add: quic_keepalive_def SendBinaryByte_def do_write_def)
  from * quic_heartbeats_on_fresh_streams [OF *] show ?thesis by - (rule exI [of _ ?s], simp)
qed

end
