(* ===== verification/CliTcpMux.thy ===== *)
theory CliTcpMux
  imports CliPool
begin

text \<open>
  The TCPMux client, \<open>internal/client/transport/tcpmux.go\<close>. Its tunnels are the server sides of smux
  sessions; whether a session can be made and what \<open>AcceptStream\<close> returns are arguments.
\<close>

section \<open>State\<close>

record TcpMuxClient = cli_core +
  controlChannel :: "conn option"
  RemoteAddr :: string
  Nodelay :: bool
  Sniffer :: bool
  smuxConfig :: smux_config
  monitors :: nat

definition NewMuxClient ::
    "int \<Rightarrow> int \<Rightarrow> int \<Rightarrow> int \<Rightarrow> string \<Rightarrow> string \<Rightarrow> int \<Rightarrow> int \<Rightarrow> bool \<Rightarrow> bool \<Rightarrow> bool \<Rightarrow> nat option \<Rightarrow> TcpMuxClient" where
  "NewMuxClient version frame recv sbuf remote token retry poolsize nodelay sniffer aggressive usage =
     \<lparr>ctx_done = False, poolConnections = 0, loadConnections = 0, controlFlow = make_chan 100,
      locked = False, usageMonitor = usage, ConnPoolSize = poolsize, AggressivePool = aggressive,
      Token = token, TunnelStatus = '''', RetryInterval = retry, controlChannel = None,
      RemoteAddr = remote, Nodelay = nodelay, Sniffer = sniffer,
      smuxConfig = \<lparr>Version = version, KeepAliveInterval = 20, KeepAliveTimeout = 40,
        sMaxFrameSize = frame, sMaxReceiveBuffer = recv, sMaxStreamBuffer = sbuf\<rparr>,
      monitors = 0\<rparr>"

section \<open>Start and Restart\<close>

definition tcpmuxc_Start :: "TcpMuxClient \<Rightarrow> TcpMuxClient \<times> effect list" where
  "tcpmuxc_Start c = (c\<lparr>TunnelStatus := ''Disconnected (TCPMUX)''\<rparr>, [Go GChannelDialer])"

definition tcpmuxc_Restart :: "TcpMuxClient \<Rightarrow> TcpMuxClient \<times> effect list" where
  "tcpmuxc_Restart c =
     (if locked c then (c, [])
      else (c\<lparr>locked := True, ctx_done := True\<rparr>,
            (case controlChannel c of None \<Rightarrow> [] | Some cc \<Rightarrow> [Close (cid cc)]) @ [Sleep 2]))"

definition tcpmuxc_Restart_finish :: "TcpMuxClient \<Rightarrow> TcpMuxClient \<times> effect list" where
  "tcpmuxc_Restart_finish c =
     ((reset_core (monitors c) c)\<lparr>controlChannel := None, monitors := monitors c + 1\<rparr>, [Go GStart])"

interpretation tcpmuxc_restart: restartable locked tcpmuxc_Restart tcpmuxc_Restart_finish
  by unfold_locales (auto simp: tcpmuxc_Restart_def tcpmuxc_Restart_finish_def reset_core_def)

section \<open>The control channel\<close>

definition tcpmuxc_channelDialer ::
    "bool \<Rightarrow> write_result \<Rightarrow> conn option \<Rightarrow> TcpMuxClient \<Rightarrow> TcpMuxClient \<times> bool \<times> effect list" where
  "tcpmuxc_channelDialer deadline_ok w dial c =
     (case client_handshake (Token c) (RetryInterval c) deadline_ok w dial of
        (None, es) \<Rightarrow> (c, False, es)
      | (Some cc, es) \<Rightarrow>
          (c\<lparr>controlChannel := Some cc, TunnelStatus := ''Connected (TCPMux)''\<rparr>, True,
           es @ [Go GPoolMaintainer, Go GChannelHandler]))"

definition tcpmuxc_channelHandler ::
    "cli_event \<Rightarrow> TcpMuxClient \<times> cli_ctl \<Rightarrow> ((TcpMuxClient \<times> cli_ctl) \<times> effect list) option" where
  "tcpmuxc_channelHandler ev ck =
     (case ck of (c, k) \<Rightarrow> case controlChannel c of None \<Rightarrow> None | Some cc \<Rightarrow>
        (case ev of
           CMainCtxDone w \<Rightarrow>
             if main_running k \<and> ctx_done c
             then Some ((c, k\<lparr>main_running := False\<rparr>), fst (send_signal w cc SG_Closed))
             else None
         | CMainMessage w \<Rightarrow>
             if \<not> main_running k then None
             else (case take_chan (msgChan k) of
                None \<Rightarrow> None
              | Some (m, ch) \<Rightarrow>
                  (let k' = k\<lparr>msgChan := ch\<rparr>; halted = k'\<lparr>main_running := False\<rparr>
                   in if m = SG_Chan then (let (c', es) = on_chan_signal c in Some ((c', k'), es))
                      else if m = SG_HB then Some ((c, k'), [])
                      else if m = SG_Closed then Some ((c, halted), [Go GRestart])
                      else Some ((c, halted), [Go GRestart])))
         | _ \<Rightarrow>
             (case cli_reader ev (ctx_done c) k of
                None \<Rightarrow> None
              | Some (k', es) \<Rightarrow> Some ((c, k'), es))))"

definition tcpmuxc_poolMaintainer_begin :: "TcpMuxClient \<Rightarrow> pool \<times> effect list" where
  "tcpmuxc_poolMaintainer_begin = pool_start"

definition tcpmuxc_poolMaintainer ::
    "pool_event \<Rightarrow> TcpMuxClient \<times> pool \<Rightarrow> ((TcpMuxClient \<times> pool) \<times> bool \<times> effect list) option" where
  "tcpmuxc_poolMaintainer = poolMaintainer"

section \<open>Sessions\<close>

definition tcpmuxc_tunnelDialer :: "conn option \<Rightarrow> TcpMuxClient \<Rightarrow> TcpMuxClient \<times> conn option" where
  "tcpmuxc_tunnelDialer dial c =
     (case dial of None \<Rightarrow> (c, None) | Some t \<Rightarrow> (add_pool 1 c, Some t))"

text \<open>
  \<open>handleSession\<close> as one pass of its loop: \<open>True\<close> while it goes on. Ending it takes the connection out
  of the count; only a failing \<open>AcceptStream\<close> closes the session.
\<close>

datatype accept_stream = AcceptStreamErr | Stream nat stream

datatype msession_event = MSmuxFailed | MCtxDone | MAccept accept_stream

definition tcpmuxc_handleSession ::
    "nat \<Rightarrow> msession_event \<Rightarrow> TcpMuxClient \<Rightarrow>
       (TcpMuxClient \<times> bool \<times> (nat \<times> string) option \<times> effect list) option" where
  "tcpmuxc_handleSession sess ev c =
     (case ev of
        MSmuxFailed \<Rightarrow> Some (add_pool (- 1) c, False, None, [])
      | MCtxDone \<Rightarrow> if ctx_done c then Some (add_pool (- 1) c, False, None, []) else None
      | MAccept AcceptStreamErr \<Rightarrow> Some (add_pool (- 1) c, False, None, [Close sess])
      | MAccept (Stream i st) \<Rightarrow>
          (case ReceiveBinaryString NetConn st of
             ((remote, Some e), _) \<Rightarrow> Some (c, True, None, [Close i])
           | ((remote, None), _) \<Rightarrow> Some (c, True, Some (i, remote), [])))"

definition tcpmuxc_localDialer :: "nat \<Rightarrow> string \<Rightarrow> conn option \<Rightarrow> TcpMuxClient \<Rightarrow> effect list" where
  "tcpmuxc_localDialer i remote dial c =
     (case ResolveRemoteAddr remote of
        None \<Rightarrow> [Close i]
      | Some (port, addr) \<Rightarrow>
          (case dial of
             None \<Rightarrow> [Close i]
           | Some l \<Rightarrow> [PipedStreamLocal i (cid l) port (Sniffer c)]))"

end
