(* ===== verification/CliWsShared.thy ===== *)
theory CliWsShared
  imports CliPool
begin

text \<open>
  The control channel of the two WebSocket clients (\<open>ws.go\<close>, \<open>wsmux.go\<close>): messages are WebSocket
  messages, of which the first byte counts; heartbeats are sent back.
\<close>

datatype wcli_event =
    WCReaderCtxDone
  | WCReaderReads "bytes read_outcome"
  | WCReaderSends
  | WCMainCtxDone bool
  | WCMainMessage bool

definition wcli_reader :: "wcli_event \<Rightarrow> bool \<Rightarrow> cli_ctl \<Rightarrow> (cli_ctl \<times> effect list) option" where
  "wcli_reader ev done c =
     (if \<not> running (rd c) then None
      else case ev of
        WCReaderCtxDone \<Rightarrow>
          if done \<and> held (rd c) = None then Some (c\<lparr>rd := (rd c)\<lparr>running := False\<rparr>\<rparr>, []) else None
      | WCReaderReads out \<Rightarrow>
          if held (rd c) \<noteq> None then None
          else (case out of
                  ReadErr \<Rightarrow> (let (r, es) = reader_read ReadErr (rd c) in Some (c\<lparr>rd := r\<rparr>, es))
                | ReadOk [] \<Rightarrow> Some (c\<lparr>rd := (rd c)\<lparr>retries := 0\<rparr>\<rparr>, [])
                | ReadOk (b # _) \<Rightarrow> (let (r, es) = reader_read (ReadOk b) (rd c) in Some (c\<lparr>rd := r\<rparr>, es)))
      | WCReaderSends \<Rightarrow>
          (case reader_deliver (rd c) (msgChan c) of
             None \<Rightarrow> None
           | Some (r, ch) \<Rightarrow> Some (c\<lparr>rd := r, msgChan := ch\<rparr>, []))
      | _ \<Rightarrow> None)"

text \<open>The main loop; \<open>ok\<close> is whether \<open>WriteMessage\<close> succeeds, \<open>cc\<close> the control connection.\<close>

definition wcli_main ::
    "wcli_event \<Rightarrow> nat \<Rightarrow> 'z cli_core_scheme \<times> cli_ctl \<Rightarrow> (('z cli_core_scheme \<times> cli_ctl) \<times> effect list) option" where
  "wcli_main ev cc ck =
     (case ck of (c, k) \<Rightarrow>
       (if \<not> main_running k then None
        else case ev of
          WCMainCtxDone ok \<Rightarrow>
            if ctx_done c then Some ((c, k\<lparr>main_running := False\<rparr>), [WroteBinary cc [SG_Closed]]) else None
        | WCMainMessage ok \<Rightarrow>
            (case take_chan (msgChan k) of
               None \<Rightarrow> None
             | Some (m, ch) \<Rightarrow>
                 (let k' = k\<lparr>msgChan := ch\<rparr>; halted = k'\<lparr>main_running := False\<rparr>
                  in if m = SG_Chan then (let (c', es) = on_chan_signal c in Some ((c', k'), es))
                     else if m = SG_HB
                     then (if ok then Some ((c, k'), [WroteBinary cc [SG_HB]])
                           else Some ((c, halted), [Go GRestart]))
                     else Some ((c, halted), [Go GRestart])))
        | _ \<Rightarrow> None))"

end
