(* ===== verification/CliWs.thy ===== *)
theory CliWs
  imports CliWsShared
begin

text \<open>
  The WebSocket client, \<open>internal/client/transport/ws.go\<close>. A WebSocket connection is its identity;
  dialling and reading messages are outside the program and their results are arguments.
\<close>

section \<open>State\<close>

record WsClient = cli_core +
  controlChannel :: "nat option"
  RemoteAddr :: string
  EdgeIP :: string
  Mode :: string
  Nodelay :: bool
  Sniffer :: bool
  monitors :: nat

definition NewWSClient ::
    "string \<Rightarrow> string \<Rightarrow> string \<Rightarrow> string \<Rightarrow> int \<Rightarrow> int \<Rightarrow> bool \<Rightarrow> bool \<Rightarrow> bool \<Rightarrow> nat option \<Rightarrow> WsClient" where
  "NewWSClient edge mode remote token retry poolsize nodelay sniffer aggressive usage =
     \<lparr>ctx_done = False, poolConnections = 0, loadConnections = 0, controlFlow = make_chan 100,
      locked = False, usageMonitor = usage, ConnPoolSize = poolsize, AggressivePool = aggressive,
      Token = token, TunnelStatus = '''', RetryInterval = retry, controlChannel = None,
      RemoteAddr = remote, EdgeIP = edge, Mode = mode, Nodelay = nodelay, Sniffer = sniffer,
      monitors = 0\<rparr>"

section \<open>Start and Restart\<close>

definition wsc_Start :: "WsClient \<Rightarrow> WsClient \<times> effect list" where
  "wsc_Start c = (c\<lparr>TunnelStatus := ''Disconnected ('' @ Mode c @ '')''\<rparr>, [Go GChannelDialer])"

definition wsc_Restart :: "WsClient \<Rightarrow> WsClient \<times> effect list" where
  "wsc_Restart c =
     (if locked c then (c, [])
      else (c\<lparr>locked := True, ctx_done := True\<rparr>,
            (case controlChannel c of None \<Rightarrow> [] | Some cc \<Rightarrow> [Close cc]) @ [Sleep 2]))"

definition wsc_Restart_finish :: "WsClient \<Rightarrow> WsClient \<times> effect list" where
  "wsc_Restart_finish c =
     ((reset_core (monitors c) c)\<lparr>controlChannel := None, monitors := monitors c + 1\<rparr>, [Go GStart])"

interpretation wsc_restart: restartable locked wsc_Restart wsc_Restart_finish
  by unfold_locales (auto simp: wsc_Restart_def wsc_Restart_finish_def reset_core_def)

section \<open>The control channel\<close>

text \<open>The requests \<open>channelDialer\<close> and \<open>tunnelDialer\<close> make, with the random numbers of the attempt.\<close>

definition wsc_channel_request :: "nat \<Rightarrow> int \<Rightarrow> string \<Rightarrow> WsClient \<Rightarrow> ws_request option" where
  "wsc_channel_request rnd uid agent c =
     attemptDialWebSocket rnd uid agent (RemoteAddr c) (EdgeIP c) ''/channel'' (Token c) (Mode c)"

definition wsc_tunnel_request :: "nat \<Rightarrow> int \<Rightarrow> string \<Rightarrow> WsClient \<Rightarrow> ws_request option" where
  "wsc_tunnel_request rnd uid agent c =
     attemptDialWebSocket rnd uid agent (RemoteAddr c) (EdgeIP c) ''/tunnel'' (Token c) (Mode c)"

definition wsc_channelDialer :: "nat option \<Rightarrow> WsClient \<Rightarrow> WsClient \<times> bool \<times> effect list" where
  "wsc_channelDialer dial c =
     (case dial of
        None \<Rightarrow> (c, False, [Sleep (RetryInterval c)])
      | Some cc \<Rightarrow>
          (c\<lparr>controlChannel := Some cc, TunnelStatus := ''Connected ('' @ Mode c @ '')''\<rparr>, True,
           [Go GPoolMaintainer, Go GChannelHandler]))"

definition wsc_channelHandler ::
    "wcli_event \<Rightarrow> WsClient \<times> cli_ctl \<Rightarrow> ((WsClient \<times> cli_ctl) \<times> effect list) option" where
  "wsc_channelHandler ev ck =
     (case ck of (c, k) \<Rightarrow>
       (case controlChannel c of
          None \<Rightarrow> None
        | Some cc \<Rightarrow>
            (case wcli_reader ev (ctx_done c) k of
               Some (k', es) \<Rightarrow> Some ((c, k'), es)
             | None \<Rightarrow> wcli_main ev cc (c, k))))"

definition wsc_poolMaintainer_begin :: "WsClient \<Rightarrow> pool \<times> effect list" where
  "wsc_poolMaintainer_begin = pool_start"

definition wsc_poolMaintainer ::
    "pool_event \<Rightarrow> WsClient \<times> pool \<Rightarrow> ((WsClient \<times> pool) \<times> bool \<times> effect list) option" where
  "wsc_poolMaintainer = poolMaintainer"

section \<open>Tunnels\<close>

definition wsc_tunnelDialer :: "nat option \<Rightarrow> WsClient \<Rightarrow> WsClient \<times> nat option" where
  "wsc_tunnelDialer dial c =
     (case dial of None \<Rightarrow> (c, None) | Some t \<Rightarrow> (add_pool 1 c, Some t))"

datatype wtunnel_event = TCtxDone | TMessage "bytes option"

datatype wtunnel_result = KeepReading | TunnelDone | DialLocal string int

text \<open>One pass of the reading loop of \<open>tunnelDialer\<close>; a failed read is \<open>TMessage None\<close>.\<close>

definition wsc_tunnelDialer_loop ::
    "nat \<Rightarrow> wtunnel_event \<Rightarrow> WsClient \<Rightarrow> (WsClient \<times> wtunnel_result \<times> effect list) option" where
  "wsc_tunnelDialer_loop t ev c =
     (case ev of
        TCtxDone \<Rightarrow> if ctx_done c then Some (add_pool (- 1) c, TunnelDone, []) else None
      | TMessage None \<Rightarrow> Some (add_pool (- 1) c, TunnelDone, [Close t])
      | TMessage (Some m) \<Rightarrow>
          if m = [SG_Ping] then Some (c, KeepReading, [])
          else (case ResolveRemoteAddr (string_of m) of
                  None \<Rightarrow> Some (add_pool (- 1) c, TunnelDone, [Close t])
                | Some (port, addr) \<Rightarrow> Some (add_pool (- 1) c, DialLocal addr port, [])))"

definition wsc_localDialer :: "nat \<Rightarrow> int \<Rightarrow> conn option \<Rightarrow> WsClient \<Rightarrow> effect list" where
  "wsc_localDialer t port dial c =
     (case dial of
        None \<Rightarrow> [Close t]
      | Some l \<Rightarrow> [PipedWS t (cid l) port (Sniffer c)])"

text \<open>A run of the reading loop over the messages of a tunnel.\<close>

fun read_messages :: "nat \<Rightarrow> bytes option list \<Rightarrow> WsClient \<Rightarrow> WsClient \<times> wtunnel_result \<times> effect list" where
  "read_messages t [] c = (c, KeepReading, [])"
| "read_messages t (m # ms) c =
     (case wsc_tunnelDialer_loop t (TMessage m) c of
        Some (c', KeepReading, es) \<Rightarrow> (let (d, r, fs) = read_messages t ms c' in (d, r, es @ fs))
      | Some res \<Rightarrow> res
      | None \<Rightarrow> (c, KeepReading, []))"

lemma read_messages_pings:
  "\<forall>m\<in>set ms. m = Some [SG_Ping] \<Longrightarrow>
     read_messages t (ms @ rest) c = (let (d, r, fs) = read_messages t rest c in (d, r, fs))"
  by (induction ms) (auto simp: wsc_tunnelDialer_loop_def)

section \<open>Properties\<close>

text \<open>
  An idle tunnel of the WebSocket client ignores any number of pings; the first other message is
  the target, which takes the tunnel out of the pool once and is dialled, or closes the tunnel if it
  is no address.
\<close>

theorem ws_tunnel_skips_pings:
  assumes "\<forall>m\<in>set pings. m = Some [SG_Ping]" "bs \<noteq> [SG_Ping]"
  shows "read_messages t (pings @ Some bs # rest) c =
     (add_pool (- 1) c,
      (case ResolveRemoteAddr (string_of bs) of None \<Rightarrow> TunnelDone | Some (port, addr) \<Rightarrow> DialLocal addr port),
      (case ResolveRemoteAddr (string_of bs) of None \<Rightarrow> [Close t] | Some _ \<Rightarrow> []))"
  using assms by (simp add: read_messages_pings wsc_tunnelDialer_loop_def split: option.split)

theorem ws_tunnel_skips_pings_witness:
  "\<exists>c. fst (snd (read_messages 7 [Some [SG_Ping], Some (bytes_of ''443'')] c)) = DialLocal ''127.0.0.1:443'' 443"
proof -
  have r: "ResolveRemoteAddr ''443'' = Some (443, ''127.0.0.1:443'')"
    using resolve_port [of 443] by (simp add: itoa_eval in_int64_def)
  have ne: "bytes_of ''443'' \<noteq> [SG_Ping]" by (simp add: bytes_of_def)
  show ?thesis
    using ws_tunnel_skips_pings [OF _ ne, of "[Some [SG_Ping]]" 7 "[]"] r
    by (intro exI) simp
qed

end
