(* ===== verification/CliWsMux.thy ===== *)
theory CliWsMux
  imports CliWsShared
begin

text \<open>
  The multiplexing WebSocket client, \<open>internal/client/transport/wsmux.go\<close>: the control channel of the
  WebSocket clients, and sessions as in the TCPMux client.
\<close>

section \<open>State\<close>

record WsMuxClient = cli_core +
  controlChannel :: "nat option"
  RemoteAddr :: string
  EdgeIP :: string
  Mode :: string
  Nodelay :: bool
  Sniffer :: bool
  smuxConfig :: smux_config
  monitors :: nat

definition NewWSMuxClient ::
    "int \<Rightarrow> int \<Rightarrow> int \<Rightarrow> int \<Rightarrow> string \<Rightarrow> string \<Rightarrow> string \<Rightarrow> string \<Rightarrow> int \<Rightarrow> int \<Rightarrow> bool \<Rightarrow> bool \<Rightarrow> bool \<Rightarrow> nat option \<Rightarrow> WsMuxClient" where
  "NewWSMuxClient version frame recv sbuf edge mode remote token retry poolsize nodelay sniffer aggressive usage =
     \<lparr>ctx_done = False, poolConnections = 0, loadConnections = 0, controlFlow = make_chan 100,
      locked = False, usageMonitor = usage, ConnPoolSize = poolsize, AggressivePool = aggressive,
      Token = token, TunnelStatus = '''', RetryInterval = retry, controlChannel = None,
      RemoteAddr = remote, EdgeIP = edge, Mode = mode, Nodelay = nodelay, Sniffer = sniffer,
      smuxConfig = \<lparr>Version = version, KeepAliveInterval = 20, KeepAliveTimeout = 40,
        sMaxFrameSize = frame, sMaxReceiveBuffer = recv, sMaxStreamBuffer = sbuf\<rparr>,
      monitors = 0\<rparr>"

section \<open>Start and Restart\<close>

definition wsmuxc_Start :: "WsMuxClient \<Rightarrow> WsMuxClient \<times> effect list" where
  "wsmuxc_Start c = (c\<lparr>TunnelStatus := ''Disconnected ('' @ Mode c @ '')''\<rparr>, [Go GChannelDialer])"

definition wsmuxc_Restart :: "WsMuxClient \<Rightarrow> WsMuxClient \<times> effect list" where
  "wsmuxc_Restart c =
     (if locked c then (c, [])
      else (c\<lparr>locked := True, ctx_done := True\<rparr>,
            (case controlChannel c of None \<Rightarrow> [] | Some cc \<Rightarrow> [Close cc]) @ [Sleep 2]))"

definition wsmuxc_Restart_finish :: "WsMuxClient \<Rightarrow> WsMuxClient \<times> effect list" where
  "wsmuxc_Restart_finish c =
     ((reset_core (monitors c) c)\<lparr>controlChannel := None, monitors := monitors c + 1\<rparr>, [Go GStart])"

interpretation wsmuxc_restart: restartable locked wsmuxc_Restart wsmuxc_Restart_finish
  by unfold_locales (auto simp: wsmuxc_Restart_def wsmuxc_Restart_finish_def reset_core_def)

section \<open>The control channel\<close>

definition wsmuxc_channelDialer :: "nat option \<Rightarrow> WsMuxClient \<Rightarrow> WsMuxClient \<times> bool \<times> effect list" where
  "wsmuxc_channelDialer dial c =
     (case dial of
        None \<Rightarrow> (c, False, [Sleep (RetryInterval c)])
      | Some cc \<Rightarrow>
          (c\<lparr>controlChannel := Some cc, TunnelStatus := ''Connected ('' @ Mode c @ '')''\<rparr>, True,
           [Go GPoolMaintainer, Go GChannelHandler]))"

definition wsmuxc_channelHandler ::
    "wcli_event \<Rightarrow> WsMuxClient \<times> cli_ctl \<Rightarrow> ((WsMuxClient \<times> cli_ctl) \<times> effect list) option" where
  "wsmuxc_channelHandler ev ck =
     (case ck of (c, k) \<Rightarrow>
       (case controlChannel c of
          None \<Rightarrow> None
        | Some cc \<Rightarrow>
            (case wcli_reader ev (ctx_done c) k of
               Some (k', es) \<Rightarrow> Some ((c, k'), es)
             | None \<Rightarrow> wcli_main ev cc (c, k))))"

definition wsmuxc_poolMaintainer_begin :: "WsMuxClient \<Rightarrow> pool \<times> effect list" where
  "wsmuxc_poolMaintainer_begin = pool_start"

definition wsmuxc_poolMaintainer ::
    "pool_event \<Rightarrow> WsMuxClient \<times> pool \<Rightarrow> ((WsMuxClient \<times> pool) \<times> bool \<times> effect list) option" where
  "wsmuxc_poolMaintainer = poolMaintainer"

section \<open>Sessions\<close>

definition wsmuxc_tunnelDialer :: "nat option \<Rightarrow> WsMuxClient \<Rightarrow> WsMuxClient \<times> nat option" where
  "wsmuxc_tunnelDialer dial c =
     (case dial of None \<Rightarrow> (c, None) | Some t \<Rightarrow> (add_pool 1 c, Some t))"

datatype accept_stream = AcceptStreamErr | Stream nat stream

datatype msession_event = MSmuxFailed | MCtxDone | MAccept accept_stream

definition wsmuxc_handleSession ::
    "nat \<Rightarrow> msession_event \<Rightarrow> WsMuxClient \<Rightarrow>
       (WsMuxClient \<times> bool \<times> (nat \<times> string) option \<times> effect list) option" where
  "wsmuxc_handleSession sess ev c =
     (case ev of
        MSmuxFailed \<Rightarrow> Some (add_pool (- 1) c, False, None, [])
      | MCtxDone \<Rightarrow> if ctx_done c then Some (add_pool (- 1) c, False, None, []) else None
      | MAccept AcceptStreamErr \<Rightarrow> Some (add_pool (- 1) c, False, None, [Close sess])
      | MAccept (Stream i st) \<Rightarrow>
          (case ReceiveBinaryString NetConn st of
             ((remote, Some e), _) \<Rightarrow> Some (c, True, None, [Close i])
           | ((remote, None), _) \<Rightarrow> Some (c, True, Some (i, remote), [])))"

definition wsmuxc_localDialer :: "nat \<Rightarrow> string \<Rightarrow> conn option \<Rightarrow> WsMuxClient \<Rightarrow> effect list" where
  "wsmuxc_localDialer i remote dial c =
     (case ResolveRemoteAddr remote of
        None \<Rightarrow> [Close i]
      | Some (port, addr) \<Rightarrow>
          (case dial of
             None \<Rightarrow> [Close i]
           | Some l \<Rightarrow> [PipedStreamLocal i (cid l) port (Sniffer c)]))"

end
