(* ===== verification/CliUdp.thy ===== *)
theory CliUdp
  imports CliPool
begin

text \<open>
  The UDP client, \<open>internal/client/transport/udp.go\<close>: a TCP control channel as in the TCP client, and
  tunnels that are UDP sockets. A datagram read from a tunnel is a byte string of at most 47 bytes.
\<close>

section \<open>State\<close>

record UdpClient = cli_core +
  controlChannel :: "conn option"
  RemoteAddr :: string
  Sniffer :: bool
  monitors :: nat

definition NewUDPClient ::
    "string \<Rightarrow> string \<Rightarrow> int \<Rightarrow> int \<Rightarrow> bool \<Rightarrow> bool \<Rightarrow> nat option \<Rightarrow> UdpClient" where
  "NewUDPClient remote token retry poolsize sniffer aggressive usage =
     \<lparr>ctx_done = False, poolConnections = 0, loadConnections = 0, controlFlow = make_chan 100,
      locked = False, usageMonitor = usage, ConnPoolSize = poolsize, AggressivePool = aggressive,
      Token = token, TunnelStatus = '''', RetryInterval = retry, controlChannel = None,
      RemoteAddr = remote, Sniffer = sniffer, monitors = 0\<rparr>"

section \<open>Start and Restart\<close>

definition udpc_Start :: "UdpClient \<Rightarrow> UdpClient \<times> effect list" where
  "udpc_Start c = (c\<lparr>TunnelStatus := ''Disconnected (UDP)''\<rparr>, [Go GChannelDialer])"

definition udpc_Restart :: "UdpClient \<Rightarrow> UdpClient \<times> effect list" where
  "udpc_Restart c =
     (if locked c then (c, [])
      else (c\<lparr>locked := True, ctx_done := True\<rparr>,
            (case controlChannel c of None \<Rightarrow> [] | Some cc \<Rightarrow> [Close (cid cc)]) @ [Sleep 2]))"

definition udpc_Restart_finish :: "UdpClient \<Rightarrow> UdpClient \<times> effect list" where
  "udpc_Restart_finish c =
     ((reset_core (monitors c) c)\<lparr>controlChannel := None, monitors := monitors c + 1\<rparr>, [Go GStart])"

interpretation udpc_restart: restartable locked udpc_Restart udpc_Restart_finish
  by unfold_locales (auto simp: udpc_Restart_def udpc_Restart_finish_def reset_core_def)

section \<open>The control channel\<close>

definition udpc_channelDialer ::
    "bool \<Rightarrow> write_result \<Rightarrow> conn option \<Rightarrow> UdpClient \<Rightarrow> UdpClient \<times> bool \<times> effect list" where
  "udpc_channelDialer deadline_ok w dial c =
     (case client_handshake (Token c) (RetryInterval c) deadline_ok w dial of
        (None, es) \<Rightarrow> (c, False, es)
      | (Some cc, es) \<Rightarrow>
          (c\<lparr>controlChannel := Some cc, TunnelStatus := ''Connected (UDP)''\<rparr>, True,
           es @ [Go GPoolMaintainer, Go GChannelHandler]))"

definition udpc_channelHandler ::
    "cli_event \<Rightarrow> UdpClient \<times> cli_ctl \<Rightarrow> ((UdpClient \<times> cli_ctl) \<times> effect list) option" where
  "udpc_channelHandler ev ck =
     (case ck of (c, k) \<Rightarrow> case controlChannel c of None \<Rightarrow> None | Some cc \<Rightarrow>
        (case ev of
           CMainCtxDone w \<Rightarrow>
             if main_running k \<and> ctx_done c
             then Some ((c, k\<lparr>main_running := False\<rparr>), fst (send_signal w cc SG_Closed))
             else None
         | CMainMessage w \<Rightarrow>
             if \<not> main_running k then None
             else (case take_chan (msgChan k) of
                None \<Rightarrow> None
              | Some (m, ch) \<Rightarrow>
                  (let k' = k\<lparr>msgChan := ch\<rparr>; halted = k'\<lparr>main_running := False\<rparr>
                   in if m = SG_Chan then (let (c', es) = on_chan_signal c in Some ((c', k'), es))
                      else if m = SG_HB then Some ((c, k'), [])
                      else if m = SG_Closed then Some ((c, halted), [Go GRestart])
                      else if m = SG_RTT
                      then (case send_signal w cc SG_RTT of
                              (es, True) \<Rightarrow> Some ((c, k'), es)
                            | (es, False) \<Rightarrow> Some ((c, halted), es @ [Go GRestart]))
                      else Some ((c, halted), [Go GRestart])))
         | _ \<Rightarrow>
             (case cli_reader ev (ctx_done c) k of
                None \<Rightarrow> None
              | Some (k', es) \<Rightarrow> Some ((c, k'), es))))"

definition udpc_poolMaintainer_begin :: "UdpClient \<Rightarrow> pool \<times> effect list" where
  "udpc_poolMaintainer_begin = pool_start"

definition udpc_poolMaintainer ::
    "pool_event \<Rightarrow> UdpClient \<times> pool \<Rightarrow> ((UdpClient \<times> pool) \<times> bool \<times> effect list) option" where
  "udpc_poolMaintainer = poolMaintainer"

section \<open>Tunnels\<close>

text \<open>
  \<open>tunnelDialer\<close>: resolving the address and opening the socket, which \<open>handleTunnelConn\<close> then works on in a goroutine
  of its own, and the end: it waits for that goroutine or the context and closes the socket.
\<close>

definition udpc_tunnelDialer :: "bool \<Rightarrow> nat option \<Rightarrow> nat option" where
  "udpc_tunnelDialer resolved opened = (if \<not> resolved then None else case opened of None \<Rightarrow> None | Some t \<Rightarrow> Some t)"

definition udpc_tunnelDialer_ends :: "bool \<Rightarrow> nat \<Rightarrow> UdpClient \<Rightarrow> effect list option" where
  "udpc_tunnelDialer_ends handled t c = (if handled \<or> ctx_done c then Some [Close t] else None)"

text \<open>
  \<open>handleTunnelConn\<close>: sending the token (\<open>ok\<close> is whether the write works), then one pass of the reading
  loop. \<open>DialUDP host port\<close> is the call of \<open>localDialer\<close>, which gets the host without the port.
\<close>

definition udpc_handleTunnelConn :: "bool \<Rightarrow> UdpClient \<Rightarrow> UdpClient \<times> bytes option" where
  "udpc_handleTunnelConn ok c =
     (if ok then (add_pool 1 c, Some (bytes_of (Token c))) else (c, None))"

datatype udp_tunnel_result = UKeepReading | UTunnelDone | UDialLocal string int

definition udpc_handleTunnelConn_loop :: "bytes option \<Rightarrow> UdpClient \<Rightarrow> UdpClient \<times> udp_tunnel_result" where
  "udpc_handleTunnelConn_loop m c =
     (case m of
        None \<Rightarrow> (add_pool (- 1) c, UTunnelDone)
      | Some bs \<Rightarrow>
          if length bs = 1 \<and> bs ! 0 = SG_Ping then (c, UKeepReading)
          else (case split_host_port (string_of bs) of
                  None \<Rightarrow> (add_pool (- 1) c, UTunnelDone)
                | Some (host, portStr) \<Rightarrow>
                    (case atoi portStr of
                       None \<Rightarrow> (add_pool (- 1) c, UTunnelDone)
                     | Some port \<Rightarrow> (add_pool (- 1) c, UDialLocal host port))))"

text \<open>
  \<open>localDialer\<close>: \<open>resolve\<close> is \<open>net.ResolveUDPAddr\<close>, which wants \<open>host:port\<close> and answers \<open>None\<close> for its error. The
  result is the address that is dialled.
\<close>

definition udpc_localDialer :: "(string \<Rightarrow> string option) \<Rightarrow> string \<Rightarrow> string option" where
  "udpc_localDialer resolve remote = resolve remote"

text \<open>One pass of \<open>udpCopy\<close>: a datagram read is written on; \<open>written\<close> is the size added to the usage.\<close>

definition udpc_udpCopy :: "bool \<Rightarrow> bytes option \<Rightarrow> bool \<Rightarrow> UdpClient \<Rightarrow> (bytes \<times> nat option) option" where
  "udpc_udpCopy deadline_ok m write_ok c =
     (if \<not> deadline_ok then None
      else case m of
        None \<Rightarrow> None
      | Some bs \<Rightarrow>
          if bs = [] then Some ([], if Sniffer c then Some 0 else None)
          else if \<not> write_ok then None
          else Some (bs, if Sniffer c then Some (length bs) else None))"

section \<open>Properties\<close>

text \<open>
  The UDP client serves no mapping: a target that is a bare port, which is what the server sends
  for \<open>443\<close> or \<open>443=5201\<close>, has no host and ends the tunnel; a target \<open>host:port\<close> is split and only the host is
  handed to the local dialer, which cannot resolve it, as \<open>net.ResolveUDPAddr\<close> needs a port.
\<close>

theorem udp_client_never_dials:
  assumes needs_port: "\<And>a. split_host_port a = None \<Longrightarrow> resolve a = None"
    and "set h \<inter> {CHR '':'', CHR ''['', CHR '']''} = {}" "0 \<le> p" "p \<le> 65535"
  shows "udpc_handleTunnelConn_loop (Some (bytes_of (itoa p))) c = (add_pool (- 1) c, UTunnelDone) \<and>
         udpc_handleTunnelConn_loop (Some (bytes_of (h @ CHR '':'' # itoa p))) c =
           (add_pool (- 1) c, UDialLocal h p) \<and>
         udpc_localDialer resolve h = None"
proof -
  have p: "in_int64 p" using assms by (simp add: in_int64_def)
  have digits: "\<forall>x\<in>set (itoa p). is_digit x" using itoa_nonneg_digits [OF assms(3)] by blast
  have colon: "CHR '':'' \<notin> set (itoa p)" using digits by (auto simp: is_digit_def)
  have plain: "set (itoa p) \<inter> {CHR '':'', CHR ''['', CHR '']''} = {}"
    using digits by (auto simp: is_digit_def)
  have ping: "\<not> (length (bytes_of s) = 1 \<and> bytes_of s ! 0 = SG_Ping)" if "x \<in> set s" "x = CHR '':'' \<or> is_digit x" for s x
  proof
    assume a: "length (bytes_of s) = 1 \<and> bytes_of s ! 0 = SG_Ping"
    then obtain y where "s = [y]" by (auto simp: length_Suc_conv)
    then have "s = [x]" using that(1) by simp
    then have "bytes_of [x] ! 0 = SG_Ping" using a by simp
    then have "string_of [bytes_of [x] ! 0] = string_of [SG_Ping]" by simp
    moreover have "[bytes_of [x] ! 0] = bytes_of [x]" by (simp add: bytes_of_def)
    ultimately have "[x] = string_of [SG_Ping]" by (metis string_of_bytes_of)
    then have "x = char_of (2::nat)" by (simp add: string_of_def SG_Ping_def)
    then have "of_char x = (2::nat)" by simp
    then show False using that(2) by (auto simp: is_digit_def)
  qed
  have d0: "hd (itoa p) \<in> set (itoa p)" by (simp add: itoa_def)
  have a: "udpc_handleTunnelConn_loop (Some (bytes_of (itoa p))) c = (add_pool (- 1) c, UTunnelDone)"
    using ping [OF d0] digits d0 split_host_port_absent [OF colon]
    by (simp add: udpc_handleTunnelConn_loop_def)
  have b: "udpc_handleTunnelConn_loop (Some (bytes_of (h @ CHR '':'' # itoa p))) c =
      (add_pool (- 1) c, UDialLocal h p)"
    using ping [of "CHR '':''" "h @ CHR '':'' # itoa p"] split_host_port_app [OF assms(2) plain] atoi_itoa [OF p]
    by (simp add: udpc_handleTunnelConn_loop_def)
  have "split_host_port h = None" using assms(2) by (intro split_host_port_absent) auto
  then show ?thesis using a b needs_port by (simp add: udpc_localDialer_def)
qed

definition sample_udp_client :: UdpClient where
  "sample_udp_client = \<lparr>ctx_done = False, poolConnections = 1, loadConnections = 0, controlFlow = make_chan 100,
     locked = False, usageMonitor = None, ConnPoolSize = 8, AggressivePool = True, Token = ''musix'',
     TunnelStatus = '''', RetryInterval = 3, controlChannel = None, RemoteAddr = ''10.0.0.1:3080'',
     Sniffer = False, monitors = 0\<rparr>"

theorem udp_client_never_dials_witness:
  "snd (udpc_handleTunnelConn_loop (Some (bytes_of ''53'')) sample_udp_client) = UTunnelDone \<and>
   udpc_localDialer (\<lambda>a. map_option (\<lambda>_. a) (split_host_port a)) ''1.1.1.1'' = None"
  using udp_client_never_dials [of "\<lambda>a. map_option (\<lambda>_. a) (split_host_port a)" "''1.1.1.1''" 53 sample_udp_client]
  by (simp add: itoa_eval)

end
