(* ===== verification/CliQuic.thy ===== *)
theory CliQuic
  imports CliShared
begin

text \<open>
  The QUIC client, \<open>internal/client/transport/quic.go\<close>. A QUIC connection is an identity; dialling it,
  opening and accepting streams are outside the program, their results are arguments. The last section
  is the count of tunnel connections as a state machine.
\<close>

section \<open>State\<close>

record QuicClient =
  Token :: string
  RetryInterval :: int
  ConnectionPool :: int
  WebPort :: int
  Sniffer :: bool
  TunnelStatus :: string
  ctx_done :: bool
  controlChannel :: "nat option"
  usageMonitor :: "nat option"
  locked :: bool
  activeConnections :: int
  monitors :: nat

definition NewQuicClient :: "string \<Rightarrow> int \<Rightarrow> int \<Rightarrow> int \<Rightarrow> bool \<Rightarrow> nat option \<Rightarrow> QuicClient" where
  "NewQuicClient token retry pool webport sniffer usage =
     \<lparr>Token = token, RetryInterval = retry, ConnectionPool = pool, WebPort = webport, Sniffer = sniffer,
      TunnelStatus = '''', ctx_done = False, controlChannel = None, usageMonitor = usage, locked = False,
      activeConnections = 0, monitors = 0\<rparr>"

section \<open>Restart\<close>

text \<open>\<open>Go GStart\<close> is \<open>go c.ChannelDialer(true)\<close>, \<open>Go GChannelDialer\<close> is \<open>go c.ChannelDialer(false)\<close>.\<close>

text \<open>
  \<open>closeControlChannel\<close> passes the QUIC connection itself to \<open>SendBinaryByte\<close>, which knows
  \<open>net.Conn\<close> and \<open>quic.Stream\<close> only: the signal is refused before anything is written.
\<close>

definition quicc_closeControlChannel :: "QuicClient \<Rightarrow> write_result \<Rightarrow> effect list" where
  "quicc_closeControlChannel c w =
     (case controlChannel c of
        None \<Rightarrow> []
      | Some cc \<Rightarrow>
          (case SendBinaryByte OtherConn w SG_Closed of
             (_, bs) \<Rightarrow> (if bs = [] then [] else [Wrote cc bs]) @ [Close cc]))"

definition quicc_Restart :: "write_result \<Rightarrow> QuicClient \<Rightarrow> QuicClient \<times> effect list" where
  "quicc_Restart w c =
     (if locked c then (c, [])
      else (c\<lparr>locked := True, ctx_done := True\<rparr>, quicc_closeControlChannel c w @ [Sleep 2]))"

definition quicc_Restart_finish :: "QuicClient \<Rightarrow> QuicClient \<times> effect list" where
  "quicc_Restart_finish c =
     (c\<lparr>ctx_done := False, controlChannel := None, usageMonitor := Some (monitors c),
        monitors := monitors c + 1, TunnelStatus := '''', activeConnections := 0, locked := False\<rparr>,
      [Go GStart])"

interpretation quicc_restart: restartable locked "quicc_Restart w" quicc_Restart_finish
  by unfold_locales (auto simp: quicc_Restart_def quicc_Restart_finish_def)

section \<open>The control channel\<close>

text \<open>
  The begin of \<open>ChannelDialer\<close>: \<open>None\<close> is the nil-pointer panic of \<open>c.usageMonitor.Monitor()\<close> when
  the client was made without a monitor.
\<close>

definition quicc_ChannelDialer_begin :: "bool \<Rightarrow> QuicClient \<Rightarrow> (QuicClient \<times> effect list) option" where
  "quicc_ChannelDialer_begin cold c =
     (let c' = c\<lparr>TunnelStatus := ''Disconnected (Quic)''\<rparr>
      in if cold \<and> 0 < WebPort c
         then (case usageMonitor c of None \<Rightarrow> None | Some _ \<Rightarrow> Some (c', [Go GMonitor]))
         else Some (c', []))"

text \<open>
  One pass of its loop: the dialled connection, the stream opened on it (with what the server will
  send), whether the deadline could be set. The result says whether the loop returned.
\<close>

definition quicc_ChannelDialer ::
    "bool \<Rightarrow> nat option \<Rightarrow> (nat \<times> stream) option \<Rightarrow> write_result \<Rightarrow> bool \<Rightarrow> QuicClient \<Rightarrow>
       QuicClient \<times> bool \<times> effect list" where
  "quicc_ChannelDialer cold dial opened w deadline_ok c =
     (case dial of
        None \<Rightarrow> (c, False, [Sleep (RetryInterval c)])
      | Some q \<Rightarrow>
          (case opened of
             None \<Rightarrow> (c, False, [Close q])
           | Some (i, st) \<Rightarrow>
               (case send_string w i (Token c) of
                  (es, False) \<Rightarrow> (c, False, es @ [CloseStream i, Close q])
                | (es, True) \<Rightarrow>
                    if \<not> deadline_ok then (c, False, es @ [CloseStream i, Close q])
                    else (case ReceiveBinaryString QuicStream st of
                            ((_, Some e), _) \<Rightarrow>
                              (c, False, es @ [CloseStream i, Close q, Sleep (RetryInterval c)])
                          | ((message, None), _) \<Rightarrow>
                              if message = Token c
                              then (c\<lparr>controlChannel := Some q, TunnelStatus := ''Connected (Quic)''\<rparr>, True,
                                    es @ [CloseStream i, Go GChannelListener] @
                                    (if cold then [Go GPoolChecker] else []))
                              else (c, False, es @ [CloseStream i, Close q])))))"

text \<open>
  \<open>channelListener\<close>: the messages arrive in order from its reader, the ping opens a stream of its own.
  \<open>False\<close> ends the loop; apart from the cancelled context that starts a new \<open>ChannelDialer\<close>. A ping
  without a control connection is a nil-pointer panic, \<open>Fatal\<close> here.
\<close>

datatype listen_event =
    LCtxDone
  | LPing "nat option" write_result
  | LTimeout
  | LMessage byte
  | LError

definition quicc_channelListener :: "listen_event \<Rightarrow> QuicClient \<Rightarrow> (bool \<times> effect list) option" where
  "quicc_channelListener ev c =
     (case ev of
        LCtxDone \<Rightarrow> if ctx_done c then Some (False, []) else None
      | LPing opened w \<Rightarrow>
          if controlChannel c = None then Some (False, [Fatal])
          else (case opened of
             None \<Rightarrow> Some (False, [Go GChannelDialer])
           | Some streamtest \<Rightarrow>
               (case SendBinaryByte QuicStream w SG_HB of
                  (Some _, bs) \<Rightarrow> Some (False, [Wrote streamtest bs, Go GChannelDialer])
                | (None, bs) \<Rightarrow> Some (True, [Wrote streamtest bs])))
      | LTimeout \<Rightarrow> Some (False, [Go GChannelDialer])
      | LMessage msg \<Rightarrow>
          (if msg = SG_Chan then Some (True, [Go GTunnelDialer])
           else if msg = SG_HB then Some (True, [])
           else Some (False, [Go GChannelDialer]))
      | LError \<Rightarrow> Some (False, [Go GChannelDialer]))"

section \<open>Tunnels\<close>

text \<open>
  \<open>quicDialer\<close>: what resolving the address, opening the UDP socket \<open>sock\<close>, setting its deadline and the dial itself
  answer. A socket that is not used is closed; that of a connection keeps the deadline of its dial. The
  certificate of the server is not checked (\<open>generateClientTLSConfig\<close>).
\<close>

record quic_tls =
  InsecureSkipVerify :: bool
  NextProtos :: "string list"

definition quicc_generateClientTLSConfig :: quic_tls where
  "quicc_generateClientTLSConfig = \<lparr>InsecureSkipVerify = True, NextProtos = [''h3'']\<rparr>"

definition quicc_quicDialer ::
    "bool \<Rightarrow> nat option \<Rightarrow> bool \<Rightarrow> (quic_tls \<Rightarrow> nat option) \<Rightarrow> nat option \<times> effect list" where
  "quicc_quicDialer resolved sock deadline_ok dial =
     (if \<not> resolved then (None, [])
      else case sock of
        None \<Rightarrow> (None, [])
      | Some u \<Rightarrow>
          if \<not> deadline_ok then (None, [Close u])
          else (case dial quicc_generateClientTLSConfig of
                  None \<Rightarrow> (None, [Close u])
                | Some q \<Rightarrow> (Some q, [])))"

lemma quicc_quicDialer_closes: "fst (quicc_quicDialer r (Some u) d f) = None \<Longrightarrow> r \<Longrightarrow> snd (quicc_quicDialer r (Some u) d f) = [Close u]"
  by (auto simp: quicc_quicDialer_def split: option.splits if_splits)

text \<open>\<open>tunnelDialer\<close> up to the dial; \<open>False\<close> when it returns at once.\<close>

definition quicc_tunnelDialer_begin :: "QuicClient \<Rightarrow> QuicClient \<times> bool \<times> effect list" where
  "quicc_tunnelDialer_begin c =
     (let c' = c\<lparr>activeConnections := activeConnections c + 1\<rparr>
      in case controlChannel c of
           None \<Rightarrow> (c', False, [Go GRestart])
         | Some _ \<Rightarrow> (c', True, []))"

definition quicc_tunnelDialer_dialled :: "nat option \<Rightarrow> QuicClient \<Rightarrow> QuicClient \<times> nat option" where
  "quicc_tunnelDialer_dialled dial c =
     (case dial of
        None \<Rightarrow> (c\<lparr>activeConnections := activeConnections c - 1\<rparr>, None)
      | Some session \<Rightarrow> (c, Some session))"

text \<open>
  One pass of \<open>handleTunnelConn\<close>: the stream and remote address given to \<open>localDialer\<close>, or the end
  of the loop with its deferred decrement.
\<close>

datatype tunnel_event = TCtxDone | TAccept "(nat \<times> stream) option"

definition quicc_handleTunnelConn ::
    "nat \<Rightarrow> tunnel_event \<Rightarrow> QuicClient \<Rightarrow> (QuicClient \<times> bool \<times> (nat \<times> string) option \<times> effect list) option" where
  "quicc_handleTunnelConn session ev c =
     (let ended = c\<lparr>activeConnections := activeConnections c - 1\<rparr>
      in case ev of
           TCtxDone \<Rightarrow> if ctx_done c then Some (ended, False, None, []) else None
         | TAccept None \<Rightarrow> Some (ended, False, None, [])
         | TAccept (Some (i, st)) \<Rightarrow>
             (case ReceiveBinaryString QuicStream st of
                ((remote, Some _), _) \<Rightarrow> Some (ended, False, None, [Close session])
              | ((remote, None), _) \<Rightarrow> Some (c, True, Some (i, remote), [])))"

text \<open>
  \<open>localDialer\<close> writes out the address rule that \<open>ResolveRemoteAddr\<close> has for the other transports; a
  failed dial or address only closes the stream.
\<close>

definition quicc_local_addr :: "string \<Rightarrow> (int \<times> string) option" where
  "quicc_local_addr remote =
     (let parts = split_on (CHR '':'') remote
      in if length parts < 2
         then (case atoi (parts ! 0) of None \<Rightarrow> None | Some port \<Rightarrow> Some (port, ''127.0.0.1:'' @ itoa port))
         else (case atoi (parts ! 1) of None \<Rightarrow> None | Some port \<Rightarrow> Some (port, remote)))"

definition quicc_tcpDialer :: "bool \<Rightarrow> dial_env \<Rightarrow> conn option \<times> effect list" where
  "quicc_tcpDialer nodelay env =
     (if \<not> dns_ok env then (None, [])
      else case dialled env of
        None \<Rightarrow> (None, [])
      | Some l \<Rightarrow>
          if \<not> is_tcp l then (None, [Close (cid l)])
          else if \<not> nodelay \<and> \<not> nodelay_ok env then (None, [Close (cid l)])
          else (Some l, []))"

definition quicc_localDialer :: "nat \<Rightarrow> string \<Rightarrow> (string \<Rightarrow> conn option) \<Rightarrow> QuicClient \<Rightarrow> effect list" where
  "quicc_localDialer i remote dial c =
     (case quicc_local_addr remote of
        None \<Rightarrow> [CloseStream i]
      | Some (port, addr) \<Rightarrow>
          (case dial addr of
             None \<Rightarrow> [CloseStream i]
           | Some l \<Rightarrow> [PipedStreamLocal i (cid l) port (Sniffer c)]))"

lemma quicc_local_addr_shared: "quicc_local_addr = ResolveRemoteAddr"
  by (rule ext) (simp add: quicc_local_addr_def ResolveRemoteAddr_def)

lemma quicc_tcpDialer_shared: "quicc_tcpDialer = attemptTcpDialer"
  by (intro ext) (simp add: quicc_tcpDialer_def attemptTcpDialer_def)

text \<open>One tick of \<open>poolChecker\<close>.\<close>

definition quicc_poolChecker :: "QuicClient \<Rightarrow> effect list" where
  "quicc_poolChecker c =
     (if activeConnections c < go_div (ConnectionPool c) 2
      then replicate (nat (ConnectionPool c - activeConnections c)) (Go GTunnelDialer)
      else [])"

section \<open>The count of tunnel connections\<close>

text \<open>
  \<open>live\<close> are the goroutines of \<open>tunnelDialer\<close> that are dialling or serving their session, \<open>leaked\<close>
  those of this run that found no control channel, \<open>stale\<close> the live ones that the last restart took
  out of the count: closing the control connection does not close their sessions.
\<close>

record quicc_world =
  cl :: QuicClient
  live :: nat
  leaked :: nat
  stale :: nat

inductive quicc_step :: "quicc_world \<Rightarrow> quicc_world \<Rightarrow> bool" where
  dialer_counts: "quicc_tunnelDialer_begin (cl w) = (c', True, es) \<Longrightarrow>
     quicc_step w (w\<lparr>cl := c', live := live w + 1\<rparr>)"
| dialer_without_control: "quicc_tunnelDialer_begin (cl w) = (c', False, es) \<Longrightarrow>
     quicc_step w (w\<lparr>cl := c', leaked := leaked w + 1\<rparr>)"
| dial_failed: "0 < live w \<Longrightarrow> quicc_tunnelDialer_dialled None (cl w) = (c', r) \<Longrightarrow>
     quicc_step w (w\<lparr>cl := c', live := live w - 1\<rparr>)"
| dialled: "0 < live w \<Longrightarrow> quicc_tunnelDialer_dialled (Some q) (cl w) = (c', r) \<Longrightarrow> quicc_step w (w\<lparr>cl := c'\<rparr>)"
| served: "0 < live w \<Longrightarrow> quicc_handleTunnelConn q ev (cl w) = Some (c', True, l, es) \<Longrightarrow> quicc_step w (w\<lparr>cl := c'\<rparr>)"
| ended: "0 < live w \<Longrightarrow> quicc_handleTunnelConn q ev (cl w) = Some (c', False, l, es) \<Longrightarrow>
     quicc_step w (w\<lparr>cl := c', live := live w - 1\<rparr>)"
| connected: "quicc_ChannelDialer cold dial opened wr ok (cl w) = (c', fin, es) \<Longrightarrow> quicc_step w (w\<lparr>cl := c'\<rparr>)"
| restart: "quicc_Restart wr (cl w) = (c', es) \<Longrightarrow> quicc_step w (w\<lparr>cl := c'\<rparr>)"
| restart_done: "locked (cl w) \<Longrightarrow> quicc_Restart_finish (cl w) = (c', es) \<Longrightarrow>
     quicc_step w (w\<lparr>cl := c', leaked := 0, stale := live w\<rparr>)"

inductive quicc_reach :: "QuicClient \<Rightarrow> quicc_world \<Rightarrow> bool" for c0 where
  init: "activeConnections c0 = 0 \<Longrightarrow> quicc_reach c0 \<lparr>cl = c0, live = 0, leaked = 0, stale = 0\<rparr>"
| step: "quicc_reach c0 w \<Longrightarrow> quicc_step w w' \<Longrightarrow> quicc_reach c0 w'"

definition counted :: "quicc_world \<Rightarrow> bool" where
  "counted w \<longleftrightarrow> activeConnections (cl w) = int (live w) + int (leaked w) - int (stale w)"

lemma quicc_handleTunnelConn_count:
  "quicc_handleTunnelConn q ev c = Some (c', go, l, es) \<Longrightarrow>
     activeConnections c' = activeConnections c - (if go then 0 else 1)"
  by (auto simp: quicc_handleTunnelConn_def Let_def split: tunnel_event.splits option.splits prod.splits if_splits)

lemma quicc_ChannelDialer_count:
  "activeConnections (fst (quicc_ChannelDialer cold dial opened w ok c)) = activeConnections c"
  by (simp add: quicc_ChannelDialer_def split: option.split prod.split bool.split)

lemma quicc_step_counted: "quicc_step w w' \<Longrightarrow> counted w \<Longrightarrow> counted w'"
proof (induction rule: quicc_step.induct)
  case (served w q ev c' l es)
  then show ?case using quicc_handleTunnelConn_count [OF served(2)] by (simp add: counted_def)
next
  case (ended w q ev c' l es)
  then show ?case using quicc_handleTunnelConn_count [OF ended(2)] by (simp add: counted_def)
next
  case (connected cold dial opened wr ok w c' fin es)
  then show ?case
    using quicc_ChannelDialer_count [of cold dial opened wr ok "cl w"] by (simp add: counted_def)
qed (auto simp: counted_def quicc_tunnelDialer_begin_def quicc_tunnelDialer_dialled_def quicc_Restart_def
    quicc_Restart_finish_def Let_def split: option.splits if_splits)

lemma quicc_reach_counted: "quicc_reach c0 w \<Longrightarrow> counted w"
  by (induction rule: quicc_reach.induct) (simp add: counted_def, blast intro: quicc_step_counted)

text \<open>
  C27. The count of the QUIC client against its live tunnels: at every reachable moment
  \<open>activeConnections\<close> is the number of live dialers, plus those of this run that returned because there
  was no control channel (they never give their place back), minus the ones still alive from before the
  last restart. A tick of \<open>poolChecker\<close> starts no dialer at or above half of the pool and below it
  exactly the missing ones of \<open>ConnectionPool\<close>; so without a restart or a missing control channel the
  pool is filled to \<open>ConnectionPool\<close> live tunnels, and after a restart \<open>stale\<close> connections too many.
\<close>

theorem quic_pool_count:
  assumes "quicc_reach c0 w"
  shows "activeConnections (cl w) = int (live w) + int (leaked w) - int (stale w) \<and>
         (let n = length (quicc_poolChecker (cl w)); half = go_div (ConnectionPool (cl w)) 2
          in (half \<le> activeConnections (cl w) \<longrightarrow> n = 0) \<and>
             (activeConnections (cl w) < half \<and> 0 \<le> ConnectionPool (cl w) \<longrightarrow>
                int (live w) + int n = ConnectionPool (cl w) + int (stale w) - int (leaked w)))"
proof -
  from quicc_reach_counted [OF assms]
  have c: "activeConnections (cl w) = int (live w) + int (leaked w) - int (stale w)"
    by (simp add: counted_def)
  have "go_div p 2 \<le> p" if "0 \<le> p" for p using that by (simp add: go_div_nonneg)
  with c show ?thesis by (force simp: quicc_poolChecker_def Let_def)
qed

definition sample_quicc :: QuicClient where
  "sample_quicc = \<lparr>Token = '''', RetryInterval = 3, ConnectionPool = 8, WebPort = 0, Sniffer = False,
     TunnelStatus = '''', ctx_done = False, controlChannel = Some 1, usageMonitor = None, locked = False,
     activeConnections = 0, monitors = 0\<rparr>"

theorem quic_pool_count_witness:
  "\<exists>w. quicc_reach sample_quicc w \<and> live w = 1 \<and> stale w = 1 \<and> activeConnections (cl w) = 0 \<and>
     int (live w) + int (length (quicc_poolChecker (cl w))) = 9"
proof -
  let ?w0 = "\<lparr>cl = sample_quicc, live = 0, leaked = 0, stale = 0\<rparr>"
  let ?c1 = "sample_quicc\<lparr>activeConnections := 1\<rparr>"
  let ?w1 = "?w0\<lparr>cl := ?c1, live := 1\<rparr>"
  let ?c2 = "?c1\<lparr>locked := True, ctx_done := True\<rparr>"
  let ?c3 = "fst (quicc_Restart_finish ?c2)"
  let ?w3 = "?w1\<lparr>cl := ?c3, leaked := 0, stale := 1\<rparr>"
  have "quicc_reach sample_quicc ?w0" by (rule quicc_reach.init) (simp add: sample_quicc_def)
  moreover have "quicc_step ?w0 ?w1"
    using quicc_step.dialer_counts [of ?w0 ?c1 "[]"] by (simp add: quicc_tunnelDialer_begin_def sample_quicc_def)
  moreover have "quicc_step ?w1 (?w1\<lparr>cl := ?c2\<rparr>)"
    using quicc_step.restart [of WriteOk ?w1 ?c2] by (simp add: quicc_Restart_def sample_quicc_def)
  moreover have "quicc_step (?w1\<lparr>cl := ?c2\<rparr>) ?w3"
    using quicc_step.restart_done [of "?w1\<lparr>cl := ?c2\<rparr>" ?c3] by (simp add: quicc_Restart_finish_def)
  ultimately have r: "quicc_reach sample_quicc ?w3" by (blast intro: quicc_reach.step)
  from quic_pool_count [OF r] r show ?thesis
    by - (rule exI [of _ ?w3], simp add: Let_def quicc_Restart_finish_def sample_quicc_def go_div_nonneg)
qed

end
