(* ===== verification/WebConfig.thy ===== *)
theory WebConfig
  imports Config
begin

text \<open>
  The configuration as it travels between two web panels: \<open>handleConfig\<close> of \<open>internal/web/sniffer.go\<close> and
  the two synchronising loops of \<open>internal/client/client.go\<close>. A JSON object is its list of members.
\<close>

section \<open>The endpoint\<close>

datatype json = JStr string | JInt int | JBool bool | JStrings "string list" | JNull

type_synonym json_object = "(string \<times> json) list"

definition opt_bool :: "bool option \<Rightarrow> json" where
  "opt_bool b = (case b of None \<Rightarrow> JNull | Some v \<Rightarrow> JBool v)"

definition client_json :: "ClientConfig \<Rightarrow> json_object" where
  "client_json c =
     [(''remote_addr'', JStr (c_RemoteAddr c)), (''transport'', JStr (c_Transport c)),
      (''retry_interval'', JInt (c_RetryInterval c)), (''nodelay'', JBool (c_Nodelay c)),
      (''keepalive_period'', JInt (c_Keepalive c)), (''log_level'', JStr (c_LogLevel c)),
      (''pprof'', JBool (c_PPROF c)), (''mux_session'', JInt (c_MuxSession c)),
      (''mux_version'', JInt (c_MuxVersion c)), (''mux_framesize'', JInt (c_MaxFrameSize c)),
      (''mux_recievebuffer'', JInt (c_MaxReceiveBuffer c)), (''mux_streambuffer'', JInt (c_MaxStreamBuffer c)),
      (''sniffer'', opt_bool (c_Sniffer c)), (''web_port'', JInt (c_WebPort c)),
      (''sniffer_log'', JStr (c_SnifferLog c)), (''dial_timeout'', JInt (c_DialTimeout c)),
      (''aggressive_pool'', JBool (c_AggressivePool c)), (''edge_ip'', JStr (c_EdgeIP c)),
      (''connection_pool'', JInt (c_ConnectionPool c))]"

definition server_json :: "ServerConfig \<Rightarrow> json_object" where
  "server_json s =
     [(''bind_addr'', JStr (s_BindAddr s)), (''transport'', JStr (s_Transport s)),
      (''nodelay'', JBool (s_Nodelay s)), (''keepalive_period'', JInt (s_Keepalive s)),
      (''log_level'', JStr (s_LogLevel s)), (''ports'', JStrings (s_Ports s)),
      (''pprof'', JBool (s_PPROF s)), (''mux_session'', JInt (s_MuxSession s)),
      (''mux_version'', JInt (s_MuxVersion s)), (''mux_framesize'', JInt (s_MaxFrameSize s)),
      (''mux_recievebuffer'', JInt (s_MaxReceiveBuffer s)), (''mux_streambuffer'', JInt (s_MaxStreamBuffer s)),
      (''sniffer'', opt_bool (s_Sniffer s)), (''web_port'', JInt (s_WebPort s)),
      (''sniffer_log'', JStr (s_SnifferLog s)), (''tls_cert'', JStr (s_TLSCertFile s)),
      (''tls_key'', JStr (s_TLSKeyFile s)), (''heartbeat'', JInt (s_Heartbeat s)),
      (''mux_con'', JInt (s_MuxCon s)), (''accept_udp'', JBool (s_AcceptUDP s)),
      (''channel_size'', JInt (s_ChannelSize s))]"

text \<open>The provider is the process that called \<open>SetConfigProvider\<close> last, if any did.\<close>

datatype provider = ServerProvider ServerConfig | ClientProvider ClientConfig

datatype http_response = HttpError nat | JsonReply json_object

definition GetServerConfig :: "provider \<Rightarrow> ServerConfig option" where
  "GetServerConfig p = (case p of ServerProvider s \<Rightarrow> Some s | ClientProvider _ \<Rightarrow> None)"

definition GetClientConfig :: "provider \<Rightarrow> ClientConfig option" where
  "GetClientConfig p = (case p of ServerProvider _ \<Rightarrow> None | ClientProvider c \<Rightarrow> Some c)"

definition handleConfig :: "provider option \<Rightarrow> string \<Rightarrow> http_response" where
  "handleConfig configProvider configType =
     (case configProvider of
        None \<Rightarrow> HttpError 500
      | Some p \<Rightarrow>
          if configType = ''client''
          then (case GetClientConfig p of None \<Rightarrow> JsonReply [] | Some c \<Rightarrow> JsonReply (client_json c))
          else (case GetServerConfig p of None \<Rightarrow> HttpError 404 | Some s \<Rightarrow> JsonReply (server_json s)))"

section \<open>The client's synchronising loops\<close>

text \<open>
  \<open>json.Decode\<close> into a struct of integers: an absent or null member leaves 0, a member of another type is
  an error. An error page is no JSON.
\<close>

definition decode_int :: "string \<Rightarrow> json_object \<Rightarrow> int option" where
  "decode_int key obj =
     (case map_of obj key of None \<Rightarrow> Some 0 | Some JNull \<Rightarrow> Some 0 | Some (JInt n) \<Rightarrow> Some n | Some _ \<Rightarrow> None)"

definition follow :: "int \<Rightarrow> int \<Rightarrow> int" where
  "follow server own = (if server > 0 \<and> own \<noteq> server then server else own)"

text \<open>One round of each loop with the answer to \<open>http.Get\<close>, \<open>None\<close> when the request failed.\<close>

definition syncKeepaliveWithServer :: "http_response option \<Rightarrow> ClientConfig \<Rightarrow> ClientConfig" where
  "syncKeepaliveWithServer resp c =
     (case resp of
        Some (JsonReply obj) \<Rightarrow>
          (case decode_int ''keepalive'' obj of
             None \<Rightarrow> c
           | Some k \<Rightarrow> c\<lparr>c_Keepalive := follow k (c_Keepalive c)\<rparr>)
      | _ \<Rightarrow> c)"

definition syncConfigWithServer :: "http_response option \<Rightarrow> ClientConfig \<Rightarrow> ClientConfig" where
  "syncConfigWithServer resp c =
     (case resp of
        Some (JsonReply obj) \<Rightarrow>
          (case (decode_int ''keepalive_period'' obj, decode_int ''mux_framesize'' obj,
                 decode_int ''mux_recievebuffer'' obj, decode_int ''mux_streambuffer'' obj) of
             (Some k, Some f, Some r, Some b) \<Rightarrow>
               c\<lparr>c_Keepalive := follow k (c_Keepalive c), c_MaxFrameSize := follow f (c_MaxFrameSize c),
                 c_MaxReceiveBuffer := follow r (c_MaxReceiveBuffer c),
                 c_MaxStreamBuffer := follow b (c_MaxStreamBuffer c)\<rparr>
           | _ \<Rightarrow> c)
      | _ \<Rightarrow> c)"

text \<open>\<open>extractHostFromAddr\<close> cuts at the last colon.\<close>

definition extractHostFromAddr :: "string \<Rightarrow> string" where
  "extractHostFromAddr addr =
     (case split_last (CHR '':'') addr of None \<Rightarrow> addr | Some (host, _) \<Rightarrow> host)"

lemma server_members [simp]:
  "decode_int ''keepalive'' (server_json s) = Some 0"
  "decode_int ''keepalive_period'' (server_json s) = Some (s_Keepalive s)"
  "decode_int ''mux_framesize'' (server_json s) = Some (s_MaxFrameSize s)"
  "decode_int ''mux_recievebuffer'' (server_json s) = Some (s_MaxReceiveBuffer s)"
  "decode_int ''mux_streambuffer'' (server_json s) = Some (s_MaxStreamBuffer s)"
  by (simp_all add: decode_int_def server_json_def)

text \<open>
  The configuration endpoint never gives away the token: its answer to any request, for any provider,
  is the same whatever the tokens are, and no member is named after one.
\<close>

theorem config_endpoint_hides_token:
  "handleConfig (Some (ServerProvider (s\<lparr>s_Token := t\<rparr>))) typ = handleConfig (Some (ServerProvider s)) typ \<and>
   handleConfig (Some (ClientProvider (c\<lparr>c_Token := t\<rparr>))) typ = handleConfig (Some (ClientProvider c)) typ \<and>
   map_of (server_json s) ''token'' = None \<and> map_of (client_json c) ''token'' = None"
  by (simp add: handleConfig_def GetServerConfig_def GetClientConfig_def server_json_def client_json_def)

text \<open>
  A client that reads a server's endpoint: one round of \<open>syncConfigWithServer\<close> takes over the four
  values that are positive and is then settled; \<open>syncKeepaliveWithServer\<close> never changes anything, since
  it looks for a member the server does not send; and against the panel of another client both do nothing.
\<close>

theorem client_follows_server:
  assumes "0 < s_Keepalive s" "0 < s_MaxFrameSize s" "0 < s_MaxReceiveBuffer s" "0 < s_MaxStreamBuffer s"
  shows "(let reply = Some (handleConfig (Some (ServerProvider s)) ''''); c' = syncConfigWithServer reply c
          in c_Keepalive c' = s_Keepalive s \<and> c_MaxFrameSize c' = s_MaxFrameSize s \<and>
             c_MaxReceiveBuffer c' = s_MaxReceiveBuffer s \<and> c_MaxStreamBuffer c' = s_MaxStreamBuffer s \<and>
             syncConfigWithServer reply c' = c' \<and> syncKeepaliveWithServer reply c = c) \<and>
         (let reply = Some (handleConfig (Some (ClientProvider other)) '''')
          in syncConfigWithServer reply c = c \<and> syncKeepaliveWithServer reply c = c)"
  using assms
  by (simp add: handleConfig_def GetServerConfig_def syncConfigWithServer_def syncKeepaliveWithServer_def
      follow_def Let_def)

theorem client_follows_server_witness:
  "c_MaxFrameSize (syncConfigWithServer (Some (handleConfig (Some (ServerProvider
     (zeroServer\<lparr>s_Keepalive := 75, s_MaxFrameSize := 32768, s_MaxReceiveBuffer := 4194304, s_MaxStreamBuffer := 65536\<rparr>))) ''''))
     zeroClient) = 32768"
  using client_follows_server [of "zeroServer\<lparr>s_Keepalive := 75, s_MaxFrameSize := 32768,
      s_MaxReceiveBuffer := 4194304, s_MaxStreamBuffer := 65536\<rparr>" zeroClient]
  by (simp add: Let_def)

end
