(* ===== verification/Copying.thy ===== *)
theory Copying
  imports Prelude
begin

text \<open>
  Copying between the two ends of a tunnelled connection: \<open>internal/utils/tcpConnHandler.go\<close>,
  \<open>quicConnHandler.go\<close> and \<open>wsConnHandler.go\<close>. A copying goroutine is a step function over the outcomes
  of its reads and writes; \<open>relay\<close> is the contract of such a goroutine, each of the four loops is an
  interpretation, and the handlers are pairs of them that share the two connections.
\<close>

section \<open>One direction\<close>

text \<open>
  Where a loop is: at its read, writing the rest of a chunk of \<open>n\<close> bytes, ended (both connections
  closed), or in the nil-pointer panic of \<open>usage.AddOrUpdatePort\<close>. \<open>received\<close> and \<open>sent\<close> are the bytes
  that were read without an error and written, \<open>counted\<close> what was added to the usage of the port.
\<close>

datatype relay_phase = Reading | Writing bytes nat | Ended | Panicked

record dir =
  phase :: relay_phase
  received :: bytes
  sent :: bytes
  counted :: nat

definition new_dir :: dir where
  "new_dir = \<lparr>phase = Reading, received = [], sent = [], counted = 0\<rparr>"

text \<open>
  A read gives bytes, or an error that may come with bytes (\<open>io.Reader\<close> allows it, and streams use it
  at their end); the code looks at the error first. A write takes some of the bytes, with or without an error.
\<close>

datatype io_event = ReadOk bytes | ReadFail bytes | WriteSome nat | WriteFail nat

text \<open>The end of a chunk: \<open>if sniffer { usage.AddOrUpdatePort(...) }\<close>, \<open>usage\<close> possibly nil.\<close>

definition chunk_done :: "bool \<Rightarrow> bool \<Rightarrow> nat \<Rightarrow> dir \<Rightarrow> dir" where
  "chunk_done sniffer usage n d =
     (if \<not> sniffer then d\<lparr>phase := Reading\<rparr>
      else if \<not> usage then d\<lparr>phase := Panicked\<rparr>
      else d\<lparr>phase := Reading, counted := counted d + n\<rparr>)"

definition transferData :: "bool \<Rightarrow> bool \<Rightarrow> io_event \<Rightarrow> dir \<Rightarrow> dir option" where
  "transferData sniffer usage ev d =
     (case (phase d, ev) of
        (Reading, ReadOk bs) \<Rightarrow>
          (let d' = d\<lparr>received := received d @ bs\<rparr>
           in Some (if bs = [] then chunk_done sniffer usage 0 d' else d'\<lparr>phase := Writing bs (length bs)\<rparr>))
      | (Reading, ReadFail _) \<Rightarrow> Some (d\<lparr>phase := Ended\<rparr>)
      | (Writing rest n, WriteSome w) \<Rightarrow>
          if length rest < w then None
          else (let d' = d\<lparr>sent := sent d @ take w rest\<rparr>
                in Some (if drop w rest = [] then chunk_done sniffer usage n d'
                         else d'\<lparr>phase := Writing (drop w rest) n\<rparr>))
      | (Writing rest n, WriteFail w) \<Rightarrow>
          if length rest < w then None
          else Some (d\<lparr>sent := sent d @ take w rest, phase := Ended\<rparr>)
      | _ \<Rightarrow> None)"

text \<open>\<open>q1transferData\<close> has the same loop; it differs in what it closes, the TCP connection and the stream.\<close>

definition q1transferData :: "bool \<Rightarrow> bool \<Rightarrow> io_event \<Rightarrow> dir \<Rightarrow> dir option" where
  "q1transferData sniffer usage ev d =
     (case (phase d, ev) of
        (Reading, ReadOk bs) \<Rightarrow>
          (let d' = d\<lparr>received := received d @ bs\<rparr>
           in Some (if bs = [] then chunk_done sniffer usage 0 d' else d'\<lparr>phase := Writing bs (length bs)\<rparr>))
      | (Reading, ReadFail _) \<Rightarrow> Some (d\<lparr>phase := Ended\<rparr>)
      | (Writing rest n, WriteSome w) \<Rightarrow>
          if length rest < w then None
          else (let d' = d\<lparr>sent := sent d @ take w rest\<rparr>
                in Some (if drop w rest = [] then chunk_done sniffer usage n d'
                         else d'\<lparr>phase := Writing (drop w rest) n\<rparr>))
      | (Writing rest n, WriteFail w) \<Rightarrow>
          if length rest < w then None
          else Some (d\<lparr>sent := sent d @ take w rest, phase := Ended\<rparr>)
      | _ \<Rightarrow> None)"

lemma q1transferData_same: "q1transferData = transferData"
  by (intro ext) (simp add: q1transferData_def transferData_def)

text \<open>
  The WebSocket loops write a message with one call: \<open>Write\<close> of a \<open>net.Conn\<close> reports an error when it
  takes less. A message that is neither text nor binary is skipped.
\<close>

datatype ws_kind = TextMessage | BinaryMessage | OtherMessage

datatype ws_event = WsRead ws_kind bytes | WsReadErr | TcpWrite | TcpWriteErr nat

definition transferWebSocketToTCP :: "bool \<Rightarrow> bool \<Rightarrow> ws_event \<Rightarrow> dir \<Rightarrow> dir option" where
  "transferWebSocketToTCP sniffer usage ev d =
     (case (phase d, ev) of
        (Reading, WsRead kind bs) \<Rightarrow>
          if kind = OtherMessage then Some d
          else Some (d\<lparr>received := received d @ bs, phase := Writing bs (length bs)\<rparr>)
      | (Reading, WsReadErr) \<Rightarrow> Some (d\<lparr>phase := Ended\<rparr>)
      | (Writing rest n, TcpWrite) \<Rightarrow> Some (chunk_done sniffer usage n (d\<lparr>sent := sent d @ rest\<rparr>))
      | (Writing rest n, TcpWriteErr w) \<Rightarrow> Some (d\<lparr>sent := sent d @ take w rest, phase := Ended\<rparr>)
      | _ \<Rightarrow> None)"

datatype tcp_ws_event = TcpRead bytes | TcpReadErr bytes | WsWrite | WsWriteErr

definition transferTCPToWebSocket :: "bool \<Rightarrow> bool \<Rightarrow> tcp_ws_event \<Rightarrow> dir \<Rightarrow> dir option" where
  "transferTCPToWebSocket sniffer usage ev d =
     (case (phase d, ev) of
        (Reading, TcpRead bs) \<Rightarrow> Some (d\<lparr>received := received d @ bs, phase := Writing bs (length bs)\<rparr>)
      | (Reading, TcpReadErr _) \<Rightarrow> Some (d\<lparr>phase := Ended\<rparr>)
      | (Writing rest n, WsWrite) \<Rightarrow> Some (chunk_done sniffer usage n (d\<lparr>sent := sent d @ rest\<rparr>))
      | (Writing rest n, WsWriteErr) \<Rightarrow> Some (d\<lparr>phase := Ended\<rparr>)
      | _ \<Rightarrow> None)"

section \<open>The contract of a direction\<close>

definition live :: "dir \<Rightarrow> bool" where
  "live d \<longleftrightarrow> phase d \<noteq> Ended \<and> phase d \<noteq> Panicked"

definition unwritten :: "dir \<Rightarrow> bytes" where
  "unwritten d = (case phase d of Writing rest _ \<Rightarrow> rest | _ \<Rightarrow> [])"

definition dir_ok :: "bool \<Rightarrow> bool \<Rightarrow> dir \<Rightarrow> bool" where
  "dir_ok sniffer usage d \<longleftrightarrow>
     (\<exists>lost. received d = sent d @ lost \<and> (phase d \<noteq> Ended \<longrightarrow> lost = unwritten d)) \<and>
     counted d \<le> length (sent d) \<and>
     (\<not> sniffer \<longrightarrow> counted d = 0) \<and>
     (phase d = Reading \<and> sniffer \<longrightarrow> counted d = length (sent d)) \<and>
     (\<forall>rest n. phase d = Writing rest n \<longrightarrow>
        (sniffer \<longrightarrow> counted d + n = length (received d)) \<and> length rest \<le> n) \<and>
     (phase d = Panicked \<longrightarrow> sniffer \<and> \<not> usage)"

lemma new_dir_ok: "dir_ok sniffer usage new_dir"
  by (simp add: dir_ok_def new_dir_def unwritten_def)

text \<open>
  The two directions over a pair of connections. The first to end closes both, so from then on every
  operation of the other fails.
\<close>

inductive pipe_reach ::
    "(bool \<Rightarrow> bool \<Rightarrow> 'e \<Rightarrow> dir \<Rightarrow> dir option) \<Rightarrow> ('e \<Rightarrow> bool) \<Rightarrow>
     (bool \<Rightarrow> bool \<Rightarrow> 'f \<Rightarrow> dir \<Rightarrow> dir option) \<Rightarrow> ('f \<Rightarrow> bool) \<Rightarrow> bool \<Rightarrow> bool \<Rightarrow> dir \<times> dir \<Rightarrow> bool"
    for f ff g gf sniffer usage where
  open_pipe: "pipe_reach f ff g gf sniffer usage (new_dir, new_dir)"
| forth: "pipe_reach f ff g gf sniffer usage (a, b) \<Longrightarrow> f sniffer usage ev a = Some a' \<Longrightarrow>
     (phase b = Ended \<longrightarrow> ff ev) \<Longrightarrow> pipe_reach f ff g gf sniffer usage (a', b)"
| home: "pipe_reach f ff g gf sniffer usage (a, b) \<Longrightarrow> g sniffer usage ev b = Some b' \<Longrightarrow>
     (phase a = Ended \<longrightarrow> gf ev) \<Longrightarrow> pipe_reach f ff g gf sniffer usage (a, b')"

text \<open>
  A relay step keeps the account of a direction, only a live direction steps, a failing operation
  (the only kind a closed connection has) is possible in every live phase and ends it, and a step that
  is no failure leaves it live or panics.
\<close>

locale relay =
  fixes step :: "bool \<Rightarrow> bool \<Rightarrow> 'e \<Rightarrow> dir \<Rightarrow> dir option"
    and failing :: "'e \<Rightarrow> bool"
  assumes ok: "step sniffer usage ev d = Some d' \<Longrightarrow> dir_ok sniffer usage d \<Longrightarrow> dir_ok sniffer usage d'"
    and steps_live: "step sniffer usage ev d = Some d' \<Longrightarrow> live d"
    and fails: "step sniffer usage ev d = Some d' \<Longrightarrow> phase d' = Ended \<longleftrightarrow> failing ev"
    and can_fail: "live d \<Longrightarrow> \<exists>ev d'. failing ev \<and> step sniffer usage ev d = Some d'"
begin

lemma ends_together:
  assumes "phase a = Ended" "live b"
  shows "(\<exists>ev b'. failing ev \<and> step sniffer usage ev b = Some b') \<and>
         (\<forall>ev b'. failing ev \<longrightarrow> step sniffer usage ev b = Some b' \<longrightarrow> phase b' = Ended)"
  using assms can_fail fails by blast

end

definition io_failing :: "io_event \<Rightarrow> bool" where
  "io_failing ev = (case ev of ReadFail _ \<Rightarrow> True | WriteFail _ \<Rightarrow> True | _ \<Rightarrow> False)"

definition ws_failing :: "ws_event \<Rightarrow> bool" where
  "ws_failing ev = (case ev of WsReadErr \<Rightarrow> True | TcpWriteErr _ \<Rightarrow> True | _ \<Rightarrow> False)"

definition tcp_ws_failing :: "tcp_ws_event \<Rightarrow> bool" where
  "tcp_ws_failing ev = (case ev of TcpReadErr _ \<Rightarrow> True | WsWriteErr \<Rightarrow> True | _ \<Rightarrow> False)"

lemma live_cases: "live d \<longleftrightarrow> phase d = Reading \<or> (\<exists>rest n. phase d = Writing rest n)"
  by (cases "phase d") (auto simp: live_def)

lemma take_lost: "\<exists>lost. xs = take n xs @ lost"
  by (metis append_take_drop_id)

lemma chunk_done_phase: "phase (chunk_done sniffer usage n d) \<noteq> Ended"
  by (simp add: chunk_done_def)

interpretation tcp_relay: relay transferData io_failing
proof
  show "dir_ok sniffer usage d'"
    if "transferData sniffer usage ev d = Some d'" "dir_ok sniffer usage d" for sniffer usage ev d d'
    using that
    by (auto simp: transferData_def Let_def unwritten_def dir_ok_def chunk_done_def take_lost
        split: relay_phase.splits io_event.splits if_splits)
  show "live d" if "transferData sniffer usage ev d = Some d'" for sniffer usage ev d d'
    using that by (auto simp: transferData_def live_def split: relay_phase.splits io_event.splits)
  show "phase d' = Ended \<longleftrightarrow> io_failing ev"
    if "transferData sniffer usage ev d = Some d'" for sniffer usage ev d d'
    using that
    by (auto simp: transferData_def io_failing_def Let_def chunk_done_phase
        split: relay_phase.splits io_event.splits if_splits)
  show "\<exists>ev d'. io_failing ev \<and> transferData sniffer usage ev d = Some d'" if "live d" for d sniffer usage
  proof -
    from that consider "phase d = Reading" | rest n where "phase d = Writing rest n"
      by (auto simp: live_cases)
    then show ?thesis
    proof cases
      case 1
      then show ?thesis by (intro exI [of _ "ReadFail []"]) (simp add: io_failing_def transferData_def)
    next
      case 2
      then show ?thesis by (intro exI [of _ "WriteFail 0"]) (simp add: io_failing_def transferData_def)
    qed
  qed
qed

interpretation ws_tcp_relay: relay transferWebSocketToTCP ws_failing
proof
  show "dir_ok sniffer usage d'"
    if "transferWebSocketToTCP sniffer usage ev d = Some d'" "dir_ok sniffer usage d" for sniffer usage ev d d'
    using that
    by (auto simp: transferWebSocketToTCP_def unwritten_def dir_ok_def chunk_done_def take_lost
        split: relay_phase.splits ws_event.splits if_splits)
  show "live d" if "transferWebSocketToTCP sniffer usage ev d = Some d'" for sniffer usage ev d d'
    using that by (auto simp: transferWebSocketToTCP_def live_def split: relay_phase.splits ws_event.splits)
  show "phase d' = Ended \<longleftrightarrow> ws_failing ev"
    if "transferWebSocketToTCP sniffer usage ev d = Some d'" for sniffer usage ev d d'
    using that
    by (auto simp: transferWebSocketToTCP_def ws_failing_def chunk_done_phase
        split: relay_phase.splits ws_event.splits if_splits)
  show "\<exists>ev d'. ws_failing ev \<and> transferWebSocketToTCP sniffer usage ev d = Some d'" if "live d" for d sniffer usage
  proof -
    from that consider "phase d = Reading" | rest n where "phase d = Writing rest n"
      by (auto simp: live_cases)
    then show ?thesis
    proof cases
      case 1
      then show ?thesis by (intro exI [of _ WsReadErr]) (simp add: ws_failing_def transferWebSocketToTCP_def)
    next
      case 2
      then show ?thesis by (intro exI [of _ "TcpWriteErr 0"]) (simp add: ws_failing_def transferWebSocketToTCP_def)
    qed
  qed
qed

interpretation tcp_ws_relay: relay transferTCPToWebSocket tcp_ws_failing
proof
  show "dir_ok sniffer usage d'"
    if "transferTCPToWebSocket sniffer usage ev d = Some d'" "dir_ok sniffer usage d" for sniffer usage ev d d'
    using that
    by (auto simp: transferTCPToWebSocket_def unwritten_def dir_ok_def chunk_done_def
        split: relay_phase.splits tcp_ws_event.splits if_splits)
  show "live d" if "transferTCPToWebSocket sniffer usage ev d = Some d'" for sniffer usage ev d d'
    using that by (auto simp: transferTCPToWebSocket_def live_def split: relay_phase.splits tcp_ws_event.splits)
  show "phase d' = Ended \<longleftrightarrow> tcp_ws_failing ev"
    if "transferTCPToWebSocket sniffer usage ev d = Some d'" for sniffer usage ev d d'
    using that
    by (auto simp: transferTCPToWebSocket_def tcp_ws_failing_def chunk_done_phase
        split: relay_phase.splits tcp_ws_event.splits if_splits)
  show "\<exists>ev d'. tcp_ws_failing ev \<and> transferTCPToWebSocket sniffer usage ev d = Some d'" if "live d" for d sniffer usage
  proof -
    from that consider "phase d = Reading" | rest n where "phase d = Writing rest n"
      by (auto simp: live_cases)
    then show ?thesis
    proof cases
      case 1
      then show ?thesis by (intro exI [of _ "TcpReadErr []"]) (simp add: tcp_ws_failing_def transferTCPToWebSocket_def)
    next
      case 2
      then show ?thesis by (intro exI [of _ WsWriteErr]) (simp add: tcp_ws_failing_def transferTCPToWebSocket_def)
    qed
  qed
qed

section \<open>Handlers\<close>

text \<open>
  Each handler runs its two loops until both returned. \<open>TCPConnectionHandler\<close> and \<open>QConnectionHandler\<close>
  have the same loop in both directions.
\<close>

definition TCPConnectionHandler :: "bool \<Rightarrow> bool \<Rightarrow> dir \<times> dir \<Rightarrow> bool" where
  "TCPConnectionHandler = pipe_reach transferData io_failing transferData io_failing"

definition QConnectionHandler :: "bool \<Rightarrow> bool \<Rightarrow> dir \<times> dir \<Rightarrow> bool" where
  "QConnectionHandler = pipe_reach q1transferData io_failing q1transferData io_failing"

definition WSConnectionHandler :: "bool \<Rightarrow> bool \<Rightarrow> dir \<times> dir \<Rightarrow> bool" where
  "WSConnectionHandler = pipe_reach transferWebSocketToTCP ws_failing transferTCPToWebSocket tcp_ws_failing"

lemma pipe_dirs_ok:
  assumes "relay f ff" "relay g gf" "pipe_reach f ff g gf sniffer usage p"
  shows "dir_ok sniffer usage (fst p) \<and> dir_ok sniffer usage (snd p)"
  using assms(3)
  by (induction rule: pipe_reach.induct)
    (auto simp: new_dir_ok intro: relay.ok [OF assms(1)] relay.ok [OF assms(2)])

lemma handlers_ok:
  "TCPConnectionHandler sniffer usage p \<or> QConnectionHandler sniffer usage p \<or>
     WSConnectionHandler sniffer usage p \<Longrightarrow> dir_ok sniffer usage (fst p) \<and> dir_ok sniffer usage (snd p)"
  unfolding TCPConnectionHandler_def QConnectionHandler_def WSConnectionHandler_def q1transferData_same
  by (elim disjE)
    (erule pipe_dirs_ok [OF tcp_relay.relay_axioms tcp_relay.relay_axioms]
       pipe_dirs_ok [OF ws_tcp_relay.relay_axioms tcp_ws_relay.relay_axioms])+

text \<open>
  C9. The relays of all transports deliver faithfully: whatever the reads and writes of the two directions
  do and however they interleave, what was written on one side is a prefix of what was read on the
  other; while a direction is alive the only bytes missing are those of the chunk it is writing; and
  with the sniffer on and a usage store, the traffic counted at a read is all the bytes delivered.
\<close>

theorem relays_deliver_in_order:
  assumes "TCPConnectionHandler sniffer usage (a, b) \<or> QConnectionHandler sniffer usage (a, b) \<or>
     WSConnectionHandler sniffer usage (a, b)" and "d = a \<or> d = b"
  shows "(\<exists>lost. received d = sent d @ lost \<and> (phase d \<noteq> Ended \<longrightarrow> lost = unwritten d)) \<and>
         counted d \<le> length (sent d) \<and>
         (phase d = Reading \<longrightarrow> received d = sent d \<and> counted d = (if sniffer then length (sent d) else 0)) \<and>
         (phase d = Panicked \<longrightarrow> sniffer \<and> \<not> usage)"
proof -
  have ok: "dir_ok sniffer usage d" using handlers_ok [OF assms(1)] assms(2) by fastforce
  then obtain lost where l: "received d = sent d @ lost" "phase d \<noteq> Ended \<longrightarrow> lost = unwritten d"
    by (auto simp: dir_ok_def)
  have "received d = sent d" if "phase d = Reading" using l that by (simp add: unwritten_def)
  then show ?thesis using ok l by (simp add: dir_ok_def)
qed

theorem relays_deliver_in_order_witness:
  "\<exists>a. TCPConnectionHandler True True (a, new_dir) \<and> received a = [1, 2, 3] \<and> sent a = [1, 2] \<and>
     counted a \<le> 2"
proof -
  let ?a = "new_dir\<lparr>received := [1, 2, 3], phase := Writing [1, 2, 3] 3\<rparr>"
  let ?b = "?a\<lparr>sent := [1, 2], phase := Writing [3] 3\<rparr>"
  have "TCPConnectionHandler True True (?a, new_dir)"
    unfolding TCPConnectionHandler_def
    by (rule pipe_reach.forth [OF pipe_reach.open_pipe, where ev = "ReadOk [1, 2, 3]"])
      (simp_all add: transferData_def new_dir_def)
  then have b: "TCPConnectionHandler True True (?b, new_dir)"
    unfolding TCPConnectionHandler_def
    by (rule pipe_reach.forth [where ev = "WriteSome 2"]) (simp_all add: transferData_def new_dir_def)
  from relays_deliver_in_order [of True True ?b new_dir ?b] b show ?thesis
    by - (rule exI [of _ ?b], simp)
qed



text \<open>
  A relay with the sniffer on and no usage store - what the client has when its web panel is off -
  panics, and takes the process down, at the end of the first chunk it delivers, in either direction
  and on every transport.
\<close>

theorem sniffer_without_store_panics:
  assumes "bs \<noteq> []" "phase d = Reading"
  shows "\<exists>d1 d2. transferData True False (ReadOk bs) d = Some d1 \<and>
           transferData True False (WriteSome (length bs)) d1 = Some d2 \<and> phase d2 = Panicked \<and>
           sent d2 = sent d @ bs \<and>
         (\<exists>d3. transferWebSocketToTCP True False TcpWrite d1 = Some d3 \<and> phase d3 = Panicked) \<and>
         (\<exists>d3. transferTCPToWebSocket True False WsWrite d1 = Some d3 \<and> phase d3 = Panicked)"
  using assms
  by (simp add: transferData_def transferWebSocketToTCP_def transferTCPToWebSocket_def chunk_done_def)

theorem sniffer_without_store_panics_witness:
  "\<exists>d1 d2. transferData True False (ReadOk [7]) new_dir = Some d1 \<and>
     transferData True False (WriteSome 1) d1 = Some d2 \<and> phase d2 = Panicked"
  using sniffer_without_store_panics [of "[7]" new_dir] by (auto simp: new_dir_def)

end
