(* ===== verification/Launch.thy ===== *)
theory Launch
  imports SrvTcp SrvTcpMux SrvWs SrvWsMux SrvUdp SrvQuic CliTcp CliTcpMux CliWs CliWsMux CliUdp CliQuic
    WebConfig Copying
begin

text \<open>
  From the configuration to a running transport: \<open>internal/server/server.go\<close> and
  \<open>internal/client/client.go\<close>. Durations are in seconds. The web panel and its store are a number; the
  synchronising requests of the client are those of \<open>WebConfig\<close>.
\<close>

section \<open>The server\<close>

datatype server_start =
    StartTCP TcpServer
  | StartTCPMUX TcpMuxServer
  | StartWS WsServer
  | StartWSMUX WsMuxServer
  | StartQUIC QuicServer
  | StartUDP UdpServer
  | ServerFatal
  | ServerPanic

text \<open>
  \<open>Start\<close> dereferences \<open>Sniffer\<close> in every branch, and a channel of negative size cannot be made; the
  defaults exclude both.
\<close>

definition server_Start :: "ServerConfig \<Rightarrow> server_start" where
  "server_Start s =
     (if s_Transport s \<notin> {TCP, TCPMUX, WS, WSS, WSMUX, WSSMUX, QUIC, UDP} then ServerFatal
      else case s_Sniffer s of
        None \<Rightarrow> ServerPanic
      | Some sniffer \<Rightarrow>
          (let n = nat (s_ChannelSize s)
           in if s_ChannelSize s < 0 then ServerPanic
              else if s_Transport s = TCP
              then StartTCP (NewTCPServer
                \<lparr>TcpConfig.BindAddr = s_BindAddr s, Token = s_Token s, SnifferLog = s_SnifferLog s,
                 TunnelStatus = '''', Ports = s_Ports s, Nodelay = s_Nodelay s, Sniffer = sniffer,
                 KeepAlive = s_Keepalive s, Heartbeat = s_Heartbeat s, ChannelSize = n,
                 WebPort = s_WebPort s, AcceptUDP = s_AcceptUDP s\<rparr>)
              else if s_Transport s = TCPMUX
              then StartTCPMUX (NewTcpMuxServer
                \<lparr>TcpMuxConfig.BindAddr = s_BindAddr s, TunnelStatus = '''', SnifferLog = s_SnifferLog s,
                 Token = s_Token s, Ports = s_Ports s, Nodelay = s_Nodelay s, cSniffer = sniffer,
                 ChannelSize = n, cMuxCon = nat (s_MuxCon s), MuxVersion = s_MuxVersion s,
                 MaxFrameSize = s_MaxFrameSize s, MaxReceiveBuffer = s_MaxReceiveBuffer s,
                 MaxStreamBuffer = s_MaxStreamBuffer s, WebPort = s_WebPort s,
                 KeepAlive = s_Keepalive s, Heartbeat = s_Heartbeat s\<rparr>)
              else if s_Transport s = WS \<or> s_Transport s = WSS
              then StartWS (NewWSServer
                \<lparr>WsConfig.BindAddr = s_BindAddr s, SnifferLog = s_SnifferLog s, TLSCertFile = s_TLSCertFile s,
                 TLSKeyFile = s_TLSKeyFile s, TunnelStatus = '''', Token = s_Token s, Ports = s_Ports s,
                 Nodelay = s_Nodelay s, wSniffer = sniffer, KeepAlive = s_Keepalive s,
                 Heartbeat = s_Heartbeat s, ChannelSize = n, WebPort = s_WebPort s, Mode = s_Transport s\<rparr>)
              else if s_Transport s = WSMUX \<or> s_Transport s = WSSMUX
              then StartWSMUX (NewWSMuxServer
                \<lparr>WsMuxConfig.BindAddr = s_BindAddr s, Token = s_Token s, SnifferLog = s_SnifferLog s,
                 TLSCertFile = s_TLSCertFile s, TLSKeyFile = s_TLSKeyFile s, TunnelStatus = '''',
                 Ports = s_Ports s, Nodelay = s_Nodelay s, cSniffer = sniffer, KeepAlive = s_Keepalive s,
                 Heartbeat = s_Heartbeat s, ChannelSize = n, cMuxCon = nat (s_MuxCon s),
                 MuxVersion = s_MuxVersion s, MaxFrameSize = s_MaxFrameSize s,
                 MaxReceiveBuffer = s_MaxReceiveBuffer s, MaxStreamBuffer = s_MaxStreamBuffer s,
                 WebPort = s_WebPort s, Mode = s_Transport s\<rparr>)
              else if s_Transport s = QUIC
              then StartQUIC (NewQuicServer
                \<lparr>QuicConfig.BindAddr = s_BindAddr s, TunnelStatus = '''', SnifferLog = s_SnifferLog s,
                 Token = s_Token s, Ports = s_Ports s, Sniffer = sniffer, ChannelSize = n,
                 MuxCon = nat (s_MuxCon s), WebPort = s_WebPort s, TLSCertFile = s_TLSCertFile s,
                 TLSKeyFile = s_TLSKeyFile s\<rparr>)
              else StartUDP (NewUDPServer
                \<lparr>UdpConfig.BindAddr = s_BindAddr s, Token = s_Token s, SnifferLog = s_SnifferLog s,
                 TunnelStatus = '''', Ports = s_Ports s, Sniffer = sniffer, Heartbeat = s_Heartbeat s,
                 ChannelSize = n, WebPort = s_WebPort s\<rparr>)))"

section \<open>The client\<close>

definition sniffs :: "ClientConfig \<Rightarrow> bool" where
  "sniffs c = (case c_Sniffer c of None \<Rightarrow> True | Some b \<Rightarrow> b)"

text \<open>
  \<open>NewClient\<close>: the usage store, made only with the sniffer on and a web port, and the address of the
  server's panel the synchronising loops ask, if they run.
\<close>

definition NewClient :: "ClientConfig \<Rightarrow> nat option \<times> string option" where
  "NewClient c =
     (if sniffs c \<and> 0 < c_WebPort c then Some 0 else None,
      if c_RemoteAddr c \<noteq> '''' \<and> 0 < c_WebPort c
      then Some (''http://'' @ extractHostFromAddr (c_RemoteAddr c) @ '':'' @ itoa (c_WebPort c))
      else None)"

datatype client_start =
    ClientTCP TcpClient
  | ClientTCPMUX TcpMuxClient
  | ClientWS WsClient
  | ClientWSMUX WsMuxClient
  | ClientQUIC QuicClient
  | NothingStarted

definition client_Start :: "nat option \<Rightarrow> ClientConfig \<Rightarrow> client_start" where
  "client_Start usage c =
     (let t = c_Transport c
      in if t = TCP
         then ClientTCP (NewTCPClient (c_RemoteAddr c) (c_Token c) (c_RetryInterval c) (c_ConnectionPool c)
                (c_Nodelay c) (sniffs c) (c_AggressivePool c) usage)
         else if t = TCPMUX
         then ClientTCPMUX (NewMuxClient (c_MuxVersion c) (c_MaxFrameSize c) (c_MaxReceiveBuffer c)
                (c_MaxStreamBuffer c) (c_RemoteAddr c) (c_Token c) (c_RetryInterval c) (c_ConnectionPool c)
                (c_Nodelay c) (sniffs c) (c_AggressivePool c) usage)
         else if t = WS \<or> t = WSS
         then ClientWS (NewWSClient (c_EdgeIP c) t (c_RemoteAddr c) (c_Token c) (c_RetryInterval c)
                (c_ConnectionPool c) (c_Nodelay c) (sniffs c) (c_AggressivePool c) usage)
         else if t = WSMUX \<or> t = WSSMUX
         then ClientWSMUX (NewWSMuxClient (c_MuxVersion c) (c_MaxFrameSize c) (c_MaxReceiveBuffer c)
                (c_MaxStreamBuffer c) (c_EdgeIP c) t (c_RemoteAddr c) (c_Token c) (c_RetryInterval c)
                (c_ConnectionPool c) (c_Nodelay c) (sniffs c) (c_AggressivePool c) usage)
         else if t = QUIC
         then ClientQUIC (NewQuicClient (c_Token c) (c_RetryInterval c) (c_ConnectionPool c) (c_WebPort c)
                (sniffs c) usage)
         else NothingStarted)"

section \<open>The life of an instance\<close>

text \<open>
  The context an instance runs under is derived from the one of the process: it is done when that one is, or when the
  instance is stopped. The goroutine of \<open>Run\<close> starts the instance, whose \<open>Start\<close> returns when the context is
  done, waits for the process and stops the instance. \<open>pprof\<close> listens on its own, and nothing looks at its error.
\<close>

record instance_ctx =
  process_done :: bool
  stopped :: bool

definition NewServer :: "bool \<Rightarrow> instance_ctx" where
  "NewServer parent_done = \<lparr>process_done = parent_done, stopped = False\<rparr>"

definition instance_done :: "instance_ctx \<Rightarrow> bool" where
  "instance_done i \<longleftrightarrow> process_done i \<or> stopped i"

definition server_Start_returns :: "instance_ctx \<Rightarrow> bool" where
  "server_Start_returns i \<longleftrightarrow> instance_done i"

definition client_Start_returns :: "instance_ctx \<Rightarrow> bool" where
  "client_Start_returns i \<longleftrightarrow> instance_done i"

definition server_Stop :: "instance_ctx \<Rightarrow> instance_ctx" where
  "server_Stop i = i\<lparr>stopped := True\<rparr>"

definition client_Stop :: "instance_ctx \<Rightarrow> instance_ctx" where
  "client_Stop i = i\<lparr>stopped := True\<rparr>"

definition server_pprof :: "ServerConfig \<Rightarrow> string option" where
  "server_pprof s = (if s_PPROF s then Some ''0.0.0.0:6060'' else None)"

definition client_pprof :: "ClientConfig \<Rightarrow> string option" where
  "client_pprof c = (if c_PPROF c then Some ''0.0.0.0:6061'' else None)"

lemma stopping_ends_start:
  "server_Start_returns (server_Stop i)" "client_Start_returns (client_Stop i)" "server_Start_returns (NewServer True)"
  by (simp_all add: server_Start_returns_def client_Start_returns_def server_Stop_def client_Stop_def instance_done_def
      NewServer_def)

lemmas launch_defs = server_Start_def client_Start_def transport_defs

text \<open>
  C32. Which transports start: with the defaults applied the server starts one exactly for the eight
  names, and ends the process for any other; the client starts one for the same names but \<open>udp\<close>, and for \<open>udp\<close>, as
  for a misspelt name, it starts nothing and waits.
\<close>

theorem transports_that_start:
  assumes "server_ok parse_level s"
  shows "(server_Start s = ServerFatal \<longleftrightarrow>
            s_Transport s \<notin> {TCP, TCPMUX, WS, WSS, WSMUX, WSSMUX, QUIC, UDP}) \<and>
         server_Start s \<noteq> ServerPanic \<and>
         (client_Start usage c = NothingStarted \<longleftrightarrow>
            c_Transport c \<notin> {TCP, TCPMUX, WS, WSS, WSMUX, WSSMUX, QUIC}) \<and>
         (c_Transport c = UDP \<longrightarrow> client_Start usage c = NothingStarted)"
proof -
  obtain b where b: "s_Sniffer s = Some b" using assms by (auto simp: server_ok_def)
  have n: "\<not> s_ChannelSize s < 0" using assms by (simp add: server_ok_def)
  have "(server_Start s = ServerFatal \<longleftrightarrow> s_Transport s \<notin> {TCP, TCPMUX, WS, WSS, WSMUX, WSSMUX, QUIC, UDP}) \<and>
      server_Start s \<noteq> ServerPanic"
    using b n by (simp add: server_Start_def Let_def)
  moreover have "client_Start usage c = NothingStarted \<longleftrightarrow> c_Transport c \<notin> {TCP, TCPMUX, WS, WSS, WSMUX, WSSMUX, QUIC}"
    by (simp add: client_Start_def Let_def)
  moreover have "UDP \<notin> {TCP, TCPMUX, WS, WSS, WSMUX, WSSMUX, QUIC}" by (simp add: transport_defs)
  ultimately show ?thesis by metis
qed

theorem transports_that_start_witness:
  "server_Start (serverDefaults (\<lambda>l. l = ''info'') None (zeroServer\<lparr>s_Transport := ''udp''\<rparr>)) \<noteq> ServerFatal \<and>
   client_Start None (zeroClient\<lparr>c_Transport := ''udp''\<rparr>) = NothingStarted"
proof -
  have "server_ok (\<lambda>l. l = ''info'') (serverDefaults (\<lambda>l. l = ''info'') None (zeroServer\<lparr>s_Transport := ''udp''\<rparr>))"
    by (rule serverDefaults_ok) (simp add: default_defs)
  from transports_that_start [OF this, of None "zeroClient\<lparr>c_Transport := ''udp''\<rparr>"]
  show ?thesis by (simp add: transport_defs serverDefaults_def)
qed

text \<open>What each start makes of the multiplexer's settings.\<close>

abbreviation smux_of :: "int \<Rightarrow> int \<Rightarrow> int \<Rightarrow> int \<Rightarrow> smux_config" where
  "smux_of version frame recv sbuf \<equiv>
     \<lparr>Version = version, KeepAliveInterval = 20, KeepAliveTimeout = 40, sMaxFrameSize = frame,
      sMaxReceiveBuffer = recv, sMaxStreamBuffer = sbuf\<rparr>"

abbreviation server_smux :: "ServerConfig \<Rightarrow> smux_config" where
  "server_smux s \<equiv> smux_of (s_MuxVersion s) (s_MaxFrameSize s) (s_MaxReceiveBuffer s) (s_MaxStreamBuffer s)"

abbreviation client_smux :: "ClientConfig \<Rightarrow> smux_config" where
  "client_smux c \<equiv> smux_of (c_MuxVersion c) (c_MaxFrameSize c) (c_MaxReceiveBuffer c) (c_MaxStreamBuffer c)"

lemma server_Start_StartTCPMUX:
  "server_Start s = StartTCPMUX srv \<Longrightarrow> TcpMuxServer.smuxConfig srv = server_smux s"
  unfolding server_Start_def Let_def
  by (cases "s_Sniffer s"; simp only: option.case; elim if_eq_cases;
      simp only: server_start.simps NewTcpMuxServer_def; clarsimp)

lemma server_Start_StartWSMUX:
  "server_Start s = StartWSMUX srv \<Longrightarrow> WsMuxServer.smuxConfig srv = server_smux s"
  unfolding server_Start_def Let_def
  by (cases "s_Sniffer s"; simp only: option.case; elim if_eq_cases;
      simp only: server_start.simps NewWSMuxServer_def; clarsimp)

lemma client_Start_ClientTCPMUX:
  "client_Start usage c = ClientTCPMUX t \<Longrightarrow> TcpMuxClient.smuxConfig t = client_smux c"
  unfolding client_Start_def Let_def
  by (elim if_eq_cases; simp only: client_start.simps NewMuxClient_def; clarsimp)

lemma client_Start_ClientWSMUX:
  "client_Start usage c = ClientWSMUX t \<Longrightarrow> WsMuxClient.smuxConfig t = client_smux c"
  unfolding client_Start_def Let_def
  by (elim if_eq_cases; simp only: client_start.simps NewWSMuxClient_def; clarsimp)

text \<open>
  The multiplexers of the two ends get the same settings - version, buffers, keep-alive - exactly when
  the configured values are the same, over TCP as over WebSocket.
\<close>

theorem mux_settings_agree:
  assumes "server_Start s = StartTCPMUX srv" "client_Start usage c = ClientTCPMUX clt"
    and "server_Start s' = StartWSMUX wsrv" "client_Start usage c' = ClientWSMUX wclt"
  shows "(TcpMuxServer.smuxConfig srv = TcpMuxClient.smuxConfig clt \<longleftrightarrow>
            s_MuxVersion s = c_MuxVersion c \<and> s_MaxFrameSize s = c_MaxFrameSize c \<and>
            s_MaxReceiveBuffer s = c_MaxReceiveBuffer c \<and> s_MaxStreamBuffer s = c_MaxStreamBuffer c) \<and>
         (WsMuxServer.smuxConfig wsrv = WsMuxClient.smuxConfig wclt \<longleftrightarrow>
            s_MuxVersion s' = c_MuxVersion c' \<and> s_MaxFrameSize s' = c_MaxFrameSize c' \<and>
            s_MaxReceiveBuffer s' = c_MaxReceiveBuffer c' \<and> s_MaxStreamBuffer s' = c_MaxStreamBuffer c')"
  using assms by (simp add: server_Start_StartTCPMUX server_Start_StartWSMUX client_Start_ClientTCPMUX client_Start_ClientWSMUX)

theorem mux_settings_agree_witness:
  "\<exists>srv clt. server_Start (serverDefaults (\<lambda>l. l = ''info'') None (zeroServer\<lparr>s_Transport := ''tcpmux''\<rparr>)) = StartTCPMUX srv \<and>
     client_Start None (clientDefaults (\<lambda>l. l = ''info'') (zeroClient\<lparr>c_Transport := ''tcpmux''\<rparr>)) = ClientTCPMUX clt \<and>
     TcpMuxServer.smuxConfig srv = TcpMuxClient.smuxConfig clt"
proof -
  let ?s = "\<lambda>t. serverDefaults (\<lambda>l. l = ''info'') None (zeroServer\<lparr>s_Transport := t\<rparr>)"
  let ?c = "\<lambda>t. clientDefaults (\<lambda>l. l = ''info'') (zeroClient\<lparr>c_Transport := t\<rparr>)"
  obtain srv where 1: "server_Start (?s ''tcpmux'') = StartTCPMUX srv"
    by (simp add: launch_defs serverDefaults_def zeroServer_def default_defs Let_def pos_def)
  obtain clt where 2: "client_Start None (?c ''tcpmux'') = ClientTCPMUX clt"
    by (simp add: launch_defs clientDefaults_def Let_def)
  obtain wsrv where 3: "server_Start (?s ''wsmux'') = StartWSMUX wsrv"
    by (simp add: launch_defs serverDefaults_def zeroServer_def default_defs Let_def pos_def)
  obtain wclt where 4: "client_Start None (?c ''wsmux'') = ClientWSMUX wclt"
    by (simp add: launch_defs clientDefaults_def Let_def)
  from mux_settings_agree [OF 1 2 3 4] 1 2 show ?thesis
    by (simp add: serverDefaults_def clientDefaults_def zeroServer_def zeroClient_def default_defs pos_def mux_version_def)
qed

end
