(* ===== verification/Tls.thy ===== *)
theory Tls
  imports Prelude
begin

text \<open>
  The certificate of the WSS, WSSMux and QUIC servers, \<open>internal/utils/tls.go\<close>, as what it does to the files.
  Key number \<open>n\<close> is the one a run generates; generating, signing and the answers of the file system are
  arguments. The servers end the process on an error.
\<close>

section \<open>Files\<close>

text \<open>A file that was created but not written is \<open>Unfinished\<close>, any content of another origin is \<open>Foreign\<close>.\<close>

datatype tls_file = CertOf nat | KeyOf nat | Unfinished | Foreign | Directory

type_synonym files = "string \<Rightarrow> tls_file option"

definition fileExists :: "files \<Rightarrow> string \<Rightarrow> bool" where
  "fileExists fs filename = (case fs filename of None \<Rightarrow> False | Some f \<Rightarrow> f \<noteq> Directory)"

text \<open>The answers to the steps of one generation, in the order they are asked for.\<close>

record gen_env =
  mkdir_cert_ok :: bool
  mkdir_key_ok :: bool
  key_ok :: bool
  serial_ok :: bool
  sign_ok :: bool
  create_cert_ok :: bool
  encode_cert_ok :: bool
  create_key_ok :: bool
  encode_key_ok :: bool

text \<open>\<open>os.Create\<close> truncates what is there; a directory is never replaced. \<open>True\<close> is success.\<close>

definition generateSelfSignedCert :: "gen_env \<Rightarrow> nat \<Rightarrow> string \<Rightarrow> string \<Rightarrow> files \<Rightarrow> files \<times> bool" where
  "generateSelfSignedCert env n certFile keyFile fs =
     (if \<not> mkdir_cert_ok env \<or> \<not> mkdir_key_ok env then (fs, False)
      else if \<not> key_ok env \<or> \<not> serial_ok env \<or> \<not> sign_ok env then (fs, False)
      else if \<not> create_cert_ok env \<or> fs certFile = Some Directory then (fs, False)
      else if \<not> encode_cert_ok env then (fs(certFile \<mapsto> Unfinished), False)
      else let fs1 = fs(certFile \<mapsto> CertOf n)
           in if \<not> create_key_ok env \<or> fs1 keyFile = Some Directory then (fs1, False)
              else if \<not> encode_key_ok env then (fs1(keyFile \<mapsto> Unfinished), False)
              else (fs1(keyFile \<mapsto> KeyOf n), True))"

definition EnsureSelfSignedCert :: "gen_env \<Rightarrow> nat \<Rightarrow> string \<Rightarrow> string \<Rightarrow> files \<Rightarrow> files \<times> bool" where
  "EnsureSelfSignedCert env n certFile keyFile fs =
     (if fileExists fs certFile \<and> fileExists fs keyFile then (fs, True)
      else generateSelfSignedCert env n certFile keyFile fs)"

lemmas tls_defs = EnsureSelfSignedCert_def generateSelfSignedCert_def fileExists_def Let_def

section \<open>Properties\<close>

lemma generated:
  "generateSelfSignedCert env n c k fs = (fs', True) \<Longrightarrow> fs' = fs(c \<mapsto> CertOf n, k \<mapsto> KeyOf n)"
  by (simp add: generateSelfSignedCert_def Let_def split: if_split_asm)

lemma not_generated_key:
  "generateSelfSignedCert env n c k fs = (fs', False) \<Longrightarrow> c \<noteq> k \<Longrightarrow> fs' c = Some (CertOf n) \<Longrightarrow>
     fs c = None \<Longrightarrow> \<not> create_key_ok env \<Longrightarrow> fs' = fs(c \<mapsto> CertOf n)"
  by (simp add: generateSelfSignedCert_def Let_def split: if_split_asm) force

lemma ensured_exists: "fileExists fs c \<Longrightarrow> fileExists fs k \<Longrightarrow> EnsureSelfSignedCert env m c k fs = (fs, True)"
  by (simp add: EnsureSelfSignedCert_def)

lemma fileExists_upd [simp]: "fileExists (fs(f \<mapsto> x)) g = (if f = g then x \<noteq> Directory else fileExists fs g)"
  by (simp add: fileExists_def)

text \<open>
  C34. After a successful start the two files are there for good, and no other file was touched: either both
  existed and are as they were, or both are new and belong together, whatever key was there before. A start
  that fails at the key after it wrote the certificate leaves an old key beside it, and the next start
  takes the two files, which do not belong together, as they are.
\<close>

theorem self_signed_pair:
  assumes "c \<noteq> k"
  shows "(EnsureSelfSignedCert env n c k fs = (fs', True) \<longrightarrow>
            (if fileExists fs c \<and> fileExists fs k then fs' = fs
             else fs' = fs(c \<mapsto> CertOf n, k \<mapsto> KeyOf n)) \<and>
            EnsureSelfSignedCert env' m c k fs' = (fs', True)) \<and>
         (fs c = None \<and> fs k = Some (KeyOf old) \<and> EnsureSelfSignedCert env n c k fs = (fs', False) \<and>
            fs' c = Some (CertOf n) \<and> \<not> create_key_ok env \<longrightarrow>
            fs' k = Some (KeyOf old) \<and> EnsureSelfSignedCert env' m c k fs' = (fs', True))"
proof (intro conjI impI)
  assume ok: "EnsureSelfSignedCert env n c k fs = (fs', True)"
  show new: "if fileExists fs c \<and> fileExists fs k then fs' = fs else fs' = fs(c \<mapsto> CertOf n, k \<mapsto> KeyOf n)"
    using ok generated [of env n c k fs fs']
    by (cases "fileExists fs c \<and> fileExists fs k") (auto simp: EnsureSelfSignedCert_def)
  then show "EnsureSelfSignedCert env' m c k fs' = (fs', True)"
    by (intro ensured_exists) (simp_all split: if_split_asm)
next
  assume f: "fs c = None \<and> fs k = Some (KeyOf old) \<and> EnsureSelfSignedCert env n c k fs = (fs', False) \<and>
    fs' c = Some (CertOf n) \<and> \<not> create_key_ok env"
  then have "generateSelfSignedCert env n c k fs = (fs', False)"
    by (elim conjE) (simp add: EnsureSelfSignedCert_def fileExists_def)
  then have fs': "fs' = fs(c \<mapsto> CertOf n)" using not_generated_key assms f by blast
  with f assms show "fs' k = Some (KeyOf old)" by simp
  show "EnsureSelfSignedCert env' m c k fs' = (fs', True)"
    unfolding fs' by (intro ensured_exists) (use f assms in \<open>simp_all add: fileExists_def\<close>)
qed

theorem self_signed_pair_witness:
  "\<exists>fs'. EnsureSelfSignedCert
       \<lparr>mkdir_cert_ok = True, mkdir_key_ok = True, key_ok = True, serial_ok = True, sign_ok = True, create_cert_ok = True,
        encode_cert_ok = True, create_key_ok = False, encode_key_ok = True\<rparr> 2 ''s.crt'' ''s.key'' [''s.key'' \<mapsto> KeyOf 1] = (fs', False) \<and>
     EnsureSelfSignedCert
       \<lparr>mkdir_cert_ok = True, mkdir_key_ok = True, key_ok = True, serial_ok = True, sign_ok = True, create_cert_ok = True,
        encode_cert_ok = True, create_key_ok = True, encode_key_ok = True\<rparr> 3 ''s.crt'' ''s.key'' fs' = (fs', True) \<and>
     fs' ''s.crt'' = Some (CertOf 2) \<and> fs' ''s.key'' = Some (KeyOf 1)"
proof -
  let ?env = "\<lparr>mkdir_cert_ok = True, mkdir_key_ok = True, key_ok = True, serial_ok = True, sign_ok = True, create_cert_ok = True,
      encode_cert_ok = True, create_key_ok = False, encode_key_ok = True\<rparr>"
  let ?fs = "[''s.key'' \<mapsto> KeyOf 1]"
  let ?fs' = "?fs(''s.crt'' \<mapsto> CertOf 2)"
  have "EnsureSelfSignedCert ?env 2 ''s.crt'' ''s.key'' ?fs = (?fs', False)" by (simp add: tls_defs)
  then show ?thesis
    using self_signed_pair [of "''s.crt''" "''s.key''" ?env 2 ?fs ?fs'
        "\<lparr>mkdir_cert_ok = True, mkdir_key_ok = True, key_ok = True, serial_ok = True, sign_ok = True, create_cert_ok = True,
          encode_cert_ok = True, create_key_ok = True, encode_key_ok = True\<rparr>" 3 1]
    by (intro exI [of _ ?fs']) simp
qed

end
