(* ===== verification/SrvListen.thy ===== *)
theory SrvListen
  imports Launch Tls
begin

text \<open>
  The sockets of the servers: \<open>tunnelListener\<close> and \<open>localListener\<close> of the six transports and \<open>udpListener\<close> of
  \<open>accept_udp.go\<close>, up to the wait for the context, and the life of those sockets over restarts. A listener that
  cannot listen ends the process. What \<open>net.Listen\<close>, \<open>net.ListenUDP\<close>, \<open>net.ResolveUDPAddr\<close>, the TLS and the QUIC
  library answer is a record of answers; when two addresses cannot be held at once is a relation the operating system decides.
\<close>

section \<open>Listening\<close>

datatype sock = TcpSock string | UdpSock string

text \<open>The goroutine that works on an open socket: accepting, serving HTTP, or reading datagrams.\<close>

datatype worker = AcceptTunnels | AcceptLocals string | ServeRequests | ReadTunnels | ReadUsers string

datatype outcome = Serving sock worker | Died

record listen_env =
  grants :: "sock \<Rightarrow> bool"
  resolves :: "string \<Rightarrow> bool"
  gens :: "string \<Rightarrow> gen_env"
  key_number :: nat
  loads :: "tls_file option \<Rightarrow> tls_file option \<Rightarrow> bool"
  quic_listens :: bool

definition listen_on :: "listen_env \<Rightarrow> sock \<Rightarrow> worker \<Rightarrow> outcome" where
  "listen_on env a w = (if grants env a then Serving a w else Died)"

definition listen_udp :: "listen_env \<Rightarrow> string \<Rightarrow> worker \<Rightarrow> outcome" where
  "listen_udp env a w = (if \<not> resolves env a then Died else listen_on env (UdpSock a) w)"

text \<open>The TCP and TCPMux servers.\<close>

definition tcp_tunnelListener :: "listen_env \<Rightarrow> TcpServer \<Rightarrow> outcome" where
  "tcp_tunnelListener env s = listen_on env (TcpSock (TcpConfig.BindAddr (TcpServer.config s))) AcceptTunnels"

definition tcp_localListener :: "listen_env \<Rightarrow> string \<Rightarrow> string \<Rightarrow> outcome" where
  "tcp_localListener env local remote = listen_on env (TcpSock local) (AcceptLocals remote)"

definition tcp_udpListener :: "listen_env \<Rightarrow> string \<Rightarrow> string \<Rightarrow> outcome" where
  "tcp_udpListener env local remote = listen_udp env local (ReadUsers remote)"

definition tcpmux_tunnelListener :: "listen_env \<Rightarrow> TcpMuxServer \<Rightarrow> outcome" where
  "tcpmux_tunnelListener env s = listen_on env (TcpSock (TcpMuxConfig.BindAddr (TcpMuxServer.config s))) AcceptTunnels"

definition tcpmux_localListener :: "listen_env \<Rightarrow> string \<Rightarrow> string \<Rightarrow> outcome" where
  "tcpmux_localListener env local remote = listen_on env (TcpSock local) (AcceptLocals remote)"

text \<open>
  The WebSocket servers. Without TLS the HTTP server listens; with TLS a missing certificate is made first, for the
  host of the address or \<open>localhost\<close>, and the HTTP server must listen and load the pair. Nothing but
  \<open>http.ErrServerClosed\<close> keeps the process alive when it returns.
\<close>

definition cert_host :: "string \<Rightarrow> string" where
  "cert_host addr =
     (case split_host_port addr of
        None \<Rightarrow> ''localhost''
      | Some (host, _) \<Rightarrow> if host = '''' then ''localhost'' else host)"

definition ws_tunnelListener :: "listen_env \<Rightarrow> WsServer \<Rightarrow> files \<Rightarrow> outcome \<times> files" where
  "ws_tunnelListener env s fs =
     (let cfg = WsServer.config s; addr = WsConfig.BindAddr cfg;
          cert = WsConfig.TLSCertFile cfg; key = WsConfig.TLSKeyFile cfg
      in if WsConfig.Mode cfg = WS then (listen_on env (TcpSock addr) ServeRequests, fs)
         else case EnsureSelfSignedCert (gens env (cert_host addr)) (key_number env) cert key fs of
             (fs', False) \<Rightarrow> (Died, fs')
           | (fs', True) \<Rightarrow>
               (if loads env (fs' cert) (fs' key) then listen_on env (TcpSock addr) ServeRequests else Died, fs'))"

definition ws_localListener :: "listen_env \<Rightarrow> string \<Rightarrow> string \<Rightarrow> outcome" where
  "ws_localListener env local remote = listen_on env (TcpSock local) (AcceptLocals remote)"

definition wsmux_tunnelListener :: "listen_env \<Rightarrow> WsMuxServer \<Rightarrow> files \<Rightarrow> outcome \<times> files" where
  "wsmux_tunnelListener env s fs =
     (let cfg = WsMuxServer.config s; addr = WsMuxConfig.BindAddr cfg;
          cert = WsMuxConfig.TLSCertFile cfg; key = WsMuxConfig.TLSKeyFile cfg
      in if WsMuxConfig.Mode cfg = WSMUX then (listen_on env (TcpSock addr) ServeRequests, fs)
         else case EnsureSelfSignedCert (gens env (cert_host addr)) (key_number env) cert key fs of
             (fs', False) \<Rightarrow> (Died, fs')
           | (fs', True) \<Rightarrow>
               (if loads env (fs' cert) (fs' key) then listen_on env (TcpSock addr) ServeRequests else Died, fs'))"

definition wsmux_localListener :: "listen_env \<Rightarrow> string \<Rightarrow> string \<Rightarrow> outcome" where
  "wsmux_localListener env local remote = listen_on env (TcpSock local) (AcceptLocals remote)"

text \<open>The UDP and QUIC servers. \<open>generateTLSConfig\<close> loads the pair or ends the process.\<close>

definition udps_tunnelListener :: "listen_env \<Rightarrow> UdpServer \<Rightarrow> outcome" where
  "udps_tunnelListener env s = listen_udp env (UdpConfig.BindAddr (UdpServer.config s)) ReadTunnels"

definition udps_localListener :: "listen_env \<Rightarrow> string \<Rightarrow> string \<Rightarrow> outcome" where
  "udps_localListener env local remote = listen_udp env local (ReadUsers remote)"

definition generateTLSConfig :: "listen_env \<Rightarrow> QuicServer \<Rightarrow> files \<Rightarrow> bool" where
  "generateTLSConfig env s fs =
     loads env (fs (QuicConfig.TLSCertFile (QuicServer.config s))) (fs (QuicConfig.TLSKeyFile (QuicServer.config s)))"

definition quic_listen :: "listen_env \<Rightarrow> QuicServer \<Rightarrow> files \<Rightarrow> outcome \<times> files" where
  "quic_listen env s fs =
     (let cfg = QuicServer.config s; addr = QuicConfig.BindAddr cfg
      in case EnsureSelfSignedCert (gens env (cert_host addr)) (key_number env) (QuicConfig.TLSCertFile cfg)
                (QuicConfig.TLSKeyFile cfg) fs of
           (fs', False) \<Rightarrow> (Died, fs')
         | (fs', True) \<Rightarrow>
             (if \<not> resolves env addr then Died
              else if \<not> grants env (UdpSock addr) then Died
              else if \<not> generateTLSConfig env s fs' then Died
              else if \<not> quic_listens env then Died
              else Serving (UdpSock addr) AcceptTunnels, fs'))"

definition quic_localListener :: "listen_env \<Rightarrow> string \<Rightarrow> string \<Rightarrow> outcome" where
  "quic_localListener env local remote = listen_on env (TcpSock local) (AcceptLocals remote)"

section \<open>The listeners of a server\<close>

text \<open>
  The goroutines a server starts: its tunnel listener, and one for each listener of the ports list (the TCP server: two
  with \<open>accept_udp\<close>). \<open>server_sock\<close> is the socket one is for.
\<close>

datatype task = Tunnel | Mapped listener

fun laddr :: "listener \<Rightarrow> string" where
  "laddr (TcpListener l r) = l"
| "laddr (UdpListener l r) = l"

fun raddr :: "listener \<Rightarrow> string" where
  "raddr (TcpListener l r) = r"
| "raddr (UdpListener l r) = r"

fun server_mappings :: "server_start \<Rightarrow> listener list \<times> fatal option" where
  "server_mappings (StartTCP s) =
     tcp_parsePortMappings (TcpConfig.AcceptUDP (TcpServer.config s)) (TcpConfig.Ports (TcpServer.config s))"
| "server_mappings (StartTCPMUX s) = tcpmux_parsePortMappings (TcpMuxConfig.Ports (TcpMuxServer.config s))"
| "server_mappings (StartWS s) = ws_parsePortMappings (WsConfig.Ports (WsServer.config s))"
| "server_mappings (StartWSMUX s) = wsmux_parsePortMappings (WsMuxConfig.Ports (WsMuxServer.config s))"
| "server_mappings (StartUDP s) = udp_parsePortMappings (UdpConfig.Ports (UdpServer.config s))"
| "server_mappings (StartQUIC s) = quic_portConfigReader (QuicConfig.Ports (QuicServer.config s))"
| "server_mappings _ = ([], None)"

fun server_task :: "server_start \<Rightarrow> listen_env \<Rightarrow> task \<Rightarrow> files \<Rightarrow> outcome \<times> files" where
  "server_task (StartTCP s) env Tunnel fs = (tcp_tunnelListener env s, fs)"
| "server_task (StartTCP s) env (Mapped (TcpListener l r)) fs = (tcp_localListener env l r, fs)"
| "server_task (StartTCP s) env (Mapped (UdpListener l r)) fs = (tcp_udpListener env l r, fs)"
| "server_task (StartTCPMUX s) env Tunnel fs = (tcpmux_tunnelListener env s, fs)"
| "server_task (StartTCPMUX s) env (Mapped x) fs = (tcpmux_localListener env (laddr x) (raddr x), fs)"
| "server_task (StartWS s) env Tunnel fs = ws_tunnelListener env s fs"
| "server_task (StartWS s) env (Mapped x) fs = (ws_localListener env (laddr x) (raddr x), fs)"
| "server_task (StartWSMUX s) env Tunnel fs = wsmux_tunnelListener env s fs"
| "server_task (StartWSMUX s) env (Mapped x) fs = (wsmux_localListener env (laddr x) (raddr x), fs)"
| "server_task (StartUDP s) env Tunnel fs = (udps_tunnelListener env s, fs)"
| "server_task (StartUDP s) env (Mapped x) fs = (udps_localListener env (laddr x) (raddr x), fs)"
| "server_task (StartQUIC s) env Tunnel fs = quic_listen env s fs"
| "server_task (StartQUIC s) env (Mapped x) fs = (quic_localListener env (laddr x) (raddr x), fs)"
| "server_task _ env t fs = (Died, fs)"

fun server_sock :: "server_start \<Rightarrow> task \<Rightarrow> sock" where
  "server_sock (StartTCP s) Tunnel = TcpSock (TcpConfig.BindAddr (TcpServer.config s))"
| "server_sock (StartTCPMUX s) Tunnel = TcpSock (TcpMuxConfig.BindAddr (TcpMuxServer.config s))"
| "server_sock (StartWS s) Tunnel = TcpSock (WsConfig.BindAddr (WsServer.config s))"
| "server_sock (StartWSMUX s) Tunnel = TcpSock (WsMuxConfig.BindAddr (WsMuxServer.config s))"
| "server_sock (StartUDP s) Tunnel = UdpSock (UdpConfig.BindAddr (UdpServer.config s))"
| "server_sock (StartQUIC s) Tunnel = UdpSock (QuicConfig.BindAddr (QuicServer.config s))"
| "server_sock (StartTCP s) (Mapped (UdpListener l r)) = UdpSock l"
| "server_sock (StartUDP s) (Mapped x) = UdpSock (laddr x)"
| "server_sock _ (Mapped x) = TcpSock (laddr x)"
| "server_sock _ Tunnel = TcpSock ''''"

lemmas listener_defs = listen_on_def listen_udp_def tcp_tunnelListener_def tcp_localListener_def tcp_udpListener_def
  tcpmux_tunnelListener_def tcpmux_localListener_def ws_tunnelListener_def ws_localListener_def wsmux_tunnelListener_def
  wsmux_localListener_def udps_tunnelListener_def udps_localListener_def quic_listen_def quic_localListener_def

section \<open>Listeners over restarts\<close>

text \<open>What a goroutine does with its socket.\<close>

fun server_job :: "server_start \<Rightarrow> task \<Rightarrow> worker" where
  "server_job (StartWS s) Tunnel = ServeRequests"
| "server_job (StartWSMUX s) Tunnel = ServeRequests"
| "server_job (StartUDP s) Tunnel = ReadTunnels"
| "server_job (StartUDP s) (Mapped x) = ReadUsers (raddr x)"
| "server_job (StartTCP s) (Mapped (UdpListener l r)) = ReadUsers r"
| "server_job _ (Mapped x) = AcceptLocals (raddr x)"
| "server_job _ Tunnel = AcceptTunnels"

text \<open>
  \<open>asked\<close> are the goroutines started and not yet at their call of listen, \<open>serving\<close> the open sockets with the context
  their goroutine waits for, \<open>ctx\<close> the current context, \<open>over\<close> the cancelled ones, \<open>mapped\<close> whether the ports list was read
  in this context. \<open>died\<close> is the end of the process. \<open>refused\<close> records that it was for another reason than an own socket,
  \<open>hurried\<close> that the two seconds of a restart ended before every listener of the old context had closed.
\<close>

record listeners =
  asked :: "task list"
  serving :: "(task \<times> worker \<times> nat) list"
  disk :: files
  ctx :: nat
  over :: "nat list"
  mapped :: bool
  died :: bool
  refused :: bool
  hurried :: bool

definition listen_init :: "files \<Rightarrow> listeners" where
  "listen_init fs = \<lparr>asked = [Tunnel], serving = [], disk = fs, ctx = 0, over = [], mapped = False,
     died = False, refused = False, hurried = False\<rparr>"

definition free :: "(sock \<Rightarrow> sock \<Rightarrow> bool) \<Rightarrow> (task \<Rightarrow> sock) \<Rightarrow> sock \<Rightarrow> listeners \<Rightarrow> bool" where
  "free clash sock a n \<longleftrightarrow> (\<forall>(u, w, c)\<in>set (serving n). \<not> clash a (sock u))"

definition able :: "(listen_env \<Rightarrow> task \<Rightarrow> files \<Rightarrow> outcome \<times> files) \<Rightarrow> listen_env \<Rightarrow> task \<Rightarrow> files \<Rightarrow> bool" where
  "able run env t fs \<longleftrightarrow> fst (run (env\<lparr>grants := \<lambda>_. True\<rparr>) t fs) \<noteq> Died"

text \<open>
  The operating system never grants an address that collides with an open one. \<open>connected\<close> is the control channel,
  on which \<open>parsePortMappings\<close> runs; \<open>restart\<close> the end of the two seconds.
\<close>

inductive listen_step for run sock clash mappings where
  begins: "\<lbrakk>\<not> died n; t \<in> set (asked n); \<forall>a. grants env a \<longrightarrow> free clash sock a n;
     run env t (disk n) = (Serving a w, fs)\<rbrakk> \<Longrightarrow>
     listen_step run sock clash mappings n
       (n\<lparr>asked := remove1 t (asked n), serving := (t, w, ctx n) # serving n, disk := fs\<rparr>)"
| fails: "\<lbrakk>\<not> died n; t \<in> set (asked n); \<forall>a. grants env a \<longrightarrow> free clash sock a n; run env t (disk n) = (Died, fs)\<rbrakk> \<Longrightarrow>
     listen_step run sock clash mappings n
       (n\<lparr>asked := remove1 t (asked n), disk := fs, died := True,
          refused := refused n \<or> free clash sock (sock t) n \<or> \<not> able run env t (disk n)\<rparr>)"
| connected: "\<lbrakk>\<not> died n; \<not> mapped n\<rbrakk> \<Longrightarrow>
     listen_step run sock clash mappings n
       (n\<lparr>asked := asked n @ map Mapped (fst mappings), mapped := True, died := snd mappings \<noteq> None\<rparr>)"
| cancelled: "\<not> died n \<Longrightarrow> listen_step run sock clash mappings n (n\<lparr>over := ctx n # over n\<rparr>)"
| closes: "\<lbrakk>\<not> died n; (t, w, c) \<in> set (serving n); c \<in> set (over n)\<rbrakk> \<Longrightarrow>
     listen_step run sock clash mappings n (n\<lparr>serving := remove1 (t, w, c) (serving n)\<rparr>)"
| restart: "\<lbrakk>\<not> died n; ctx n \<in> set (over n)\<rbrakk> \<Longrightarrow>
     listen_step run sock clash mappings n
       (n\<lparr>ctx := ctx n + 1, mapped := False, asked := asked n @ [Tunnel],
          hurried := hurried n \<or> asked n \<noteq> [] \<or> serving n \<noteq> []\<rparr>)"

inductive listen_reach for run sock clash mappings fs where
  init: "listen_reach run sock clash mappings fs (listen_init fs)"
| step: "listen_reach run sock clash mappings fs n \<Longrightarrow> listen_step run sock clash mappings n n' \<Longrightarrow>
     listen_reach run sock clash mappings fs n'"

definition tasks :: "listener list \<Rightarrow> bool \<Rightarrow> task list" where
  "tasks ls m = Tunnel # (if m then map Mapped ls else [])"

definition started :: "listeners \<Rightarrow> task multiset" where
  "started n = mset (asked n) + mset (map fst (serving n))"

definition clash_free :: "(sock \<Rightarrow> sock \<Rightarrow> bool) \<Rightarrow> (task \<Rightarrow> sock) \<Rightarrow> task list \<Rightarrow> bool" where
  "clash_free clash sock ts \<longleftrightarrow> sorted_wrt (\<lambda>t u. \<not> clash (sock t) (sock u)) ts"

lemma sorted_wrt_map_remove1: "sorted_wrt P (map f xs) \<Longrightarrow> sorted_wrt P (map f (remove1 x xs))"
proof (induction xs)
  case (Cons y ys)
  then show ?case using set_remove1_subset [of x ys] by auto
qed simp

lemma clash_free_pair:
  assumes "clash_free clash sock ts" "symp clash" "add_mset t {#u#} \<subseteq># mset ts"
  shows "\<not> clash (sock t) (sock u)"
  using assms
proof (induction ts)
  case (Cons x ts)
  have IH: "add_mset t {#u#} \<subseteq># mset ts \<Longrightarrow> \<not> clash (sock t) (sock u)"
    using Cons.IH Cons.prems(1,2) by (simp add: clash_free_def)
  show ?case
  proof (cases "x = t \<or> x = u")
    case True
    then have "x = t \<and> u \<in> set ts \<or> x = u \<and> t \<in> set ts"
      using Cons.prems(3) by (auto simp: add_mset_commute [of t u])
    then show ?thesis using Cons.prems(1,2) by (auto simp: clash_free_def dest: sympD)
  next
    case False
    have "count (add_mset t {#u#}) a \<le> count (mset ts) a" for a
      using mset_subset_eq_count [OF Cons.prems(3), of a] False by (cases "a = x") auto
    then have "add_mset t {#u#} \<subseteq># mset ts" by (rule mset_subset_eqI)
    with IH show ?thesis by blast
  qed
qed simp

lemma clash_free_perm:
  assumes "mset ts = mset us" "symp clash" "clash_free clash sock ts"
  shows "clash_free clash sock us"
proof -
  have "add_mset t {#u#} \<subseteq># mset us \<Longrightarrow> \<not> clash (sock t) (sock u)" for t u
    using clash_free_pair [OF assms(3,2)] assms(1) by simp
  moreover have "(\<And>t u. add_mset t {#u#} \<subseteq># mset us \<Longrightarrow> \<not> clash (sock t) (sock u)) \<Longrightarrow> clash_free clash sock us"
  proof (induction us)
    case (Cons x us)
    have "add_mset t {#u#} \<subseteq># mset (x # us)" if "add_mset t {#u#} \<subseteq># mset us" for t u
      using that by (simp add: subset_mset.order_trans [OF that])
    moreover have "add_mset x {#u#} \<subseteq># mset (x # us)" if "u \<in> set us" for u using that by simp
    ultimately show ?case using Cons by (simp add: clash_free_def)
  qed (simp add: clash_free_def)
  ultimately show ?thesis by blast
qed

text \<open>
  A server whose listeners obey two laws: one that serves holds the socket it is for and does its job, and one that dies
  although the address is granted would die in any case. While no restart was hurried, the goroutines are those of the
  current context, and open sockets never collide.
\<close>

locale listening =
  fixes run :: "listen_env \<Rightarrow> task \<Rightarrow> files \<Rightarrow> outcome \<times> files"
    and sock :: "task \<Rightarrow> sock"
    and job :: "task \<Rightarrow> worker"
  assumes serves: "run env t fs = (Serving a w, fs') \<Longrightarrow> a = sock t \<and> grants env a \<and> w = job t"
    and dies: "run env t fs = (Died, fs') \<Longrightarrow> grants env (sock t) \<Longrightarrow> \<not> able run env t fs"
begin

definition listen_inv :: "(sock \<Rightarrow> sock \<Rightarrow> bool) \<Rightarrow> listener list \<Rightarrow> listeners \<Rightarrow> bool" where
  "listen_inv clash ls n \<longleftrightarrow>
     (\<forall>(t, w, c)\<in>set (serving n). w = job t) \<and>
     clash_free clash sock (map fst (serving n)) \<and> (\<forall>c\<in>set (over n). c \<le> ctx n) \<and>
     (\<not> hurried n \<longrightarrow>
        (\<forall>(t, w, c)\<in>set (serving n). c = ctx n) \<and>
        started n \<subseteq># mset (tasks ls (mapped n)) \<and>
        (ctx n \<notin> set (over n) \<and> \<not> died n \<longrightarrow>
           started n = mset (tasks ls (mapped n))) \<and>
        (clash_free clash sock (tasks ls True) \<and> \<not> refused n \<longrightarrow> \<not> died n))"

lemma listen_init_inv: "listen_inv clash ls (listen_init fs)"
  by (simp add: listen_inv_def listen_init_def clash_free_def tasks_def started_def)

lemma waiting_pair:
  assumes "started n \<subseteq># mset (tasks ls (mapped n))"
    and "t \<in> set (asked n)" "(u, w, c) \<in> set (serving n)"
  shows "add_mset t {#u#} \<subseteq># mset (tasks ls True)"
proof -
  have "u \<in># mset (map fst (serving n))" using assms(3) by force
  then have "{#u#} \<subseteq># mset (map fst (serving n))" "{#t#} \<subseteq># mset (asked n)" using assms(2) by simp_all
  then have "{#t#} + {#u#} \<subseteq># mset (tasks ls (mapped n))"
    using assms(1) subset_mset.add_mono subset_mset.order_trans unfolding started_def by blast
  moreover have "mset (tasks ls (mapped n)) \<subseteq># mset (tasks ls True)" by (simp add: tasks_def)
  ultimately have "{#t#} + {#u#} \<subseteq># mset (tasks ls True)" by (rule subset_mset.order_trans)
  then show ?thesis by (simp add: add_mset_commute)
qed

lemma listen_step_inv:
  assumes "listen_step run sock clash (ls, None) n n'" "symp clash" "listen_inv clash ls n"
  shows "listen_inv clash ls n'"
  using assms
proof (induction rule: listen_step.induct)
  case (begins n t env a w fs)
  have "a = sock t" "w = job t" "free clash sock (sock t) n" using serves [OF begins(4)] begins(3) by blast+
  moreover have "started (n\<lparr>asked := remove1 t (asked n), serving := (t, w, ctx n) # serving n, disk := fs\<rparr>) = started n"
    using begins(2) by (simp add: started_def)
  ultimately show ?case
    using begins(1,6) by (auto simp: listen_inv_def clash_free_def free_def)
next
  case (fails n t env fs)
  have "\<not> (clash_free clash sock (tasks ls True) \<and> \<not> hurried n)"
    if ok: "\<not> free clash sock (sock t) n"
  proof
    assume h: "clash_free clash sock (tasks ls True) \<and> \<not> hurried n"
    obtain u w c where u: "(u, w, c) \<in> set (serving n)" "clash (sock t) (sock u)" using ok by (auto simp: free_def)
    have "add_mset t {#u#} \<subseteq># mset (tasks ls True)"
      using waiting_pair [OF _ fails(2) u(1)] fails(6) h by (simp add: listen_inv_def)
    with u(2) h fails(5) show False using clash_free_pair by blast
  qed
  moreover have "started (n\<lparr>asked := remove1 t (asked n), disk := fs, died := True, refused := r\<rparr>) \<subseteq># started n" for r
    by (simp add: started_def)
  ultimately show ?case using fails(6) subset_mset.order_trans unfolding listen_inv_def by simp blast
next
  case (connected n)
  then show ?case by (auto simp: listen_inv_def tasks_def started_def ac_simps)
next
  case (cancelled n)
  then show ?case by (auto simp: listen_inv_def started_def)
next
  case (closes n t w c)
  let ?r = "remove1 (t, w, c) (serving n)"
  have kept: "\<forall>x\<in>set ?r. P x" if "\<forall>x\<in>set (serving n). P x" for P
    using that set_remove1_subset by fast
  have "started (n\<lparr>serving := ?r\<rparr>) \<subseteq># started n"
    by (simp add: started_def image_mset_subseteq_mono)
  then have sub: "started (n\<lparr>serving := ?r\<rparr>) \<subseteq># M" if "started n \<subseteq># M" for M
    using that by (rule subset_mset.order_trans)
  have free: "clash_free clash sock (map fst ?r)"
    using closes(5) by (simp add: listen_inv_def clash_free_def sorted_wrt_map_remove1)
  have "ctx n \<in> set (over n)" if "\<not> hurried n"
    using closes(2,3,5) that by (auto simp: listen_inv_def)
  then show ?case
    using closes(1,5) free sub kept [of "\<lambda>(t, w, c). w = job t"] kept [of "\<lambda>(t, w, c). c = ctx n"]
    by (simp add: listen_inv_def)
next
  case (restart n)
  then show ?case by (auto simp: listen_inv_def tasks_def started_def)
qed

lemma listen_reach_inv:
  "listen_reach run sock clash (ls, None) fs n \<Longrightarrow> symp clash \<Longrightarrow> listen_inv clash ls n"
  by (induction rule: listen_reach.induct) (auto intro: listen_init_inv listen_step_inv)

end

lemma server_task_serves:
  "server_task x env t fs = (Serving a w, fs') \<Longrightarrow> a = server_sock x t \<and> grants env a \<and> w = server_job x t"
  by (induction x env t fs rule: server_task.induct)
     (auto simp: listener_defs Let_def split: prod.splits bool.splits if_splits)

lemma server_task_dies:
  "server_task x env t fs = (Died, fs') \<Longrightarrow> grants env (server_sock x t) \<Longrightarrow> \<not> able (server_task x) env t fs"
  by (induction x env t fs rule: server_task.induct)
     (auto simp: able_def listener_defs generateTLSConfig_def Let_def split: prod.splits bool.splits if_splits)

interpretation srv: listening "server_task x" "server_sock x" "server_job x" for x
  by unfold_locales (blast dest: server_task_serves server_task_dies)+

section \<open>Properties\<close>


definition sample_server :: server_start where
  "sample_server = StartTCP (NewTCPServer \<lparr>TcpConfig.BindAddr = ''0.0.0.0:3080'', Token = ''musix'', SnifferLog = '''',
     TunnelStatus = '''', Ports = [''443''], Nodelay = True, Sniffer = False, KeepAlive = 75, Heartbeat = 40,
     ChannelSize = 2, WebPort = 0, AcceptUDP = False\<rparr>)"

definition willing :: "sock set \<Rightarrow> listen_env" where
  "willing used = \<lparr>grants = (\<lambda>a. a \<notin> used), resolves = (\<lambda>_. True),
     gens = (\<lambda>_. \<lparr>mkdir_cert_ok = True, mkdir_key_ok = True, key_ok = True, serial_ok = True, sign_ok = True,
        create_cert_ok = True, encode_cert_ok = True, create_key_ok = True, encode_key_ok = True\<rparr>),
     key_number = 0, loads = (\<lambda>_ _. True), quic_listens = True\<rparr>"


text \<open>
  The end of a WebSocket listener closes whatever control connection there is by then. Its shutdown waits for open requests
  without a limit, so after a restart it can be the new one: a client that has been admitted again is cut off.
\<close>

lemma ws_late_shutdown_closes_new_control:
  assumes "ws_Restart_finish s = (s1, es)" "classify path = ControlPath"
    and "ws_serve cpus auth path (Some m) s1 = (s2, Upgraded, es')"
  shows "WsServer.controlChannel s2 = Some m \<and> ws_tunnelListener_done s2 = [Close m]"
  using assms by (auto simp: ws_Restart_finish_def ws_serve_def ws_tunnelListener_done_def ws_set_status_def split: if_splits)

end
