(* ===== verification/Usage.thy ===== *)
theory Usage
  imports Config "HOL-Library.Log_Nat" "HOL-Library.AList" "HOL-Library.Multiset"
begin

text \<open>
  The traffic store behind the web panel, \<open>internal/web/sniffer.go\<close>: counting per port in memory, saving
  to the log file, reading it back, showing byte counts, and the \<open>/config\<close> endpoint. The file is what the
  program can tell of it: missing, empty, not decodable, or the JSON of a list of port usages. Go's
  random map order is a pair of functions \<open>shuffle\<close> that permute a list. The system statistics and the
  HTML are not modelled.
\<close>

section \<open>The store in memory\<close>

record PortUsage =
  Port :: int
  Used :: uint64

datatype log_file = NoFile | EmptyFile | Corrupt | Json "PortUsage list"

record usage =
  dataStore :: "(int \<times> PortUsage) list"
  totalTraffic :: uint64
  snifferLog :: log_file

definition NewDataStore :: "log_file \<Rightarrow> usage" where
  "NewDataStore f = \<lparr>dataStore = [], totalTraffic = 0, snifferLog = f\<rparr>"

definition AddOrUpdatePort :: "int \<Rightarrow> uint64 \<Rightarrow> usage \<Rightarrow> usage" where
  "AddOrUpdatePort port n u =
     (case map_of (dataStore u) port of
        Some portUsage \<Rightarrow>
          u\<lparr>dataStore := AList.update port (portUsage\<lparr>Used := Used portUsage + n\<rparr>) (dataStore u)\<rparr>
      | None \<Rightarrow> u\<lparr>dataStore := AList.update port \<lparr>Port = port, Used = n\<rparr> (dataStore u)\<rparr>)"

definition collectUsageDataFromSyncMap ::
    "(PortUsage list \<Rightarrow> PortUsage list) \<Rightarrow> usage \<Rightarrow> PortUsage list \<times> usage" where
  "collectUsageDataFromSyncMap shuffle u = (shuffle (map snd (dataStore u)), u\<lparr>dataStore := []\<rparr>)"

section \<open>Saving\<close>

text \<open>
  The answers of the file system to one save: opening an existing file, its \<open>Stat\<close>, the removal, creation
  and first write of the clean-up, and the final \<open>os.WriteFile\<close>, which truncates before it writes.
\<close>

datatype write_file = Written | NotOpened | Truncated

record file_env =
  open_ok :: bool
  stat_ok :: bool
  remove_ok :: bool
  create_ok :: bool
  empty_ok :: bool
  write_file :: write_file

definition cleanupCorruptedFile :: "file_env \<Rightarrow> log_file \<Rightarrow> log_file" where
  "cleanupCorruptedFile env f =
     (if \<not> remove_ok env then f
      else if \<not> create_ok env then NoFile
      else if \<not> empty_ok env then EmptyFile
      else Json [])"

text \<open>Step 1: the existing data and the file afterwards, or \<open>None\<close> when the save gives up.\<close>

definition load_existing :: "file_env \<Rightarrow> log_file \<Rightarrow> (PortUsage list \<times> log_file) option" where
  "load_existing env f =
     (case f of
        NoFile \<Rightarrow> Some ([], NoFile)
      | _ \<Rightarrow>
          if \<not> open_ok env \<or> \<not> stat_ok env then None
          else (case f of
                  Json existing \<Rightarrow> Some (existing, f)
                | Corrupt \<Rightarrow> Some ([], cleanupCorruptedFile env f)
                | _ \<Rightarrow> Some ([], f)))"

text \<open>Step 3: the last entry of a port in the file counts, current data are added to it.\<close>

definition merge_existing :: "PortUsage list \<Rightarrow> (int \<times> PortUsage) list" where
  "merge_existing existing = fold (\<lambda>p al. AList.update (Port p) p al) existing []"

definition merge_one :: "PortUsage \<Rightarrow> (int \<times> PortUsage) list \<Rightarrow> (int \<times> PortUsage) list" where
  "merge_one p al =
     (case map_of al (Port p) of
        Some e \<Rightarrow> AList.update (Port p) (e\<lparr>Used := Used e + Used p\<rparr>) al
      | None \<Rightarrow> AList.update (Port p) p al)"

definition saveUsageData ::
    "(PortUsage list \<Rightarrow> PortUsage list) \<Rightarrow> (PortUsage list \<Rightarrow> PortUsage list) \<Rightarrow> file_env \<Rightarrow> usage \<Rightarrow> usage" where
  "saveUsageData shuffle shuffle' env u =
     (case load_existing env (snifferLog u) of
        None \<Rightarrow> u
      | Some (existing, f) \<Rightarrow>
          (let (current, u1) = collectUsageDataFromSyncMap shuffle u;
               usageMap = fold merge_one current (merge_existing existing);
               merged = shuffle' (map snd usageMap)
           in u1\<lparr>totalTraffic := sum_list (map Used merged),
                 snifferLog := (case write_file env of
                    Written \<Rightarrow> Json merged | NotOpened \<Rightarrow> f | Truncated \<Rightarrow> Corrupt)\<rparr>))"

section \<open>Reading back\<close>

text \<open>The usage list and the file; a missing file is created. \<open>create_ok\<close> and \<open>empty_ok\<close> are of that file.\<close>

definition getUsageFromFile :: "file_env \<Rightarrow> log_file \<Rightarrow> PortUsage list \<times> log_file" where
  "getUsageFromFile env f =
     (case f of
        NoFile \<Rightarrow>
          if \<not> create_ok env then ([], NoFile)
          else if \<not> empty_ok env then ([], EmptyFile)
          else ([], Json [])
      | _ \<Rightarrow>
          if \<not> open_ok env \<or> \<not> stat_ok env then ([], f)
          else (case f of Json usageData \<Rightarrow> (sort_key Port usageData, f) | _ \<Rightarrow> ([], f)))"

text \<open>
  \<open>%.2f\<close> of a \<open>float64\<close>: the byte count is first rounded to 53 bits, the division by a power of two is exact,
  and the decimal is the nearest one, ties to even.
\<close>

definition div_half_even :: "nat \<Rightarrow> nat \<Rightarrow> nat" where
  "div_half_even a b =
     (let q = a div b; r = a mod b in if b < 2 * r \<or> 2 * r = b \<and> odd q then q + 1 else q)"

definition to_float64 :: "nat \<Rightarrow> nat" where
  "to_float64 n =
     (let e = floorlog 2 n - 53 in div_half_even n (2 ^ e) * 2 ^ e)"

definition two_digits :: "nat \<Rightarrow> string" where
  "two_digits n = (if n < 10 then ''0'' else '''') @ itoa (int n)"

definition fmt_2f :: "nat \<Rightarrow> nat \<Rightarrow> string" where
  "fmt_2f n d = (let q = div_half_even (100 * n) d in itoa (int (q div 100)) @ ''.'' @ two_digits (q mod 100))"

definition convertBytesToReadable :: "uint64 \<Rightarrow> string" where
  "convertBytesToReadable b =
     (let n = unat b; f = to_float64 n
      in if 2 ^ 40 \<le> n then fmt_2f f (2 ^ 40) @ '' TB''
         else if 2 ^ 30 \<le> n then fmt_2f f (2 ^ 30) @ '' GB''
         else if 2 ^ 20 \<le> n then fmt_2f f (2 ^ 20) @ '' MB''
         else if 2 ^ 10 \<le> n then fmt_2f f (2 ^ 10) @ '' KB''
         else itoa (int n) @ '' B'')"

definition usageDataWithReadableUsage :: "PortUsage list \<Rightarrow> (int \<times> string) list" where
  "usageDataWithReadableUsage usageData = map (\<lambda>p. (Port p, convertBytesToReadable (Used p))) usageData"

definition handleData :: "file_env \<Rightarrow> usage \<Rightarrow> (int \<times> string) list \<times> usage" where
  "handleData env u =
     (case getUsageFromFile env (snifferLog u) of
        (ps, f) \<Rightarrow> (usageDataWithReadableUsage ps, u\<lparr>snifferLog := f\<rparr>))"

section \<open>What is counted\<close>

definition used :: "PortUsage list \<Rightarrow> int \<Rightarrow> uint64" where
  "used ps port = sum_list (map Used (filter (\<lambda>p. Port p = port) ps))"

definition file_data :: "log_file \<Rightarrow> PortUsage list" where
  "file_data f = (case f of Json ps \<Rightarrow> ps | _ \<Rightarrow> [])"

definition store_ok :: "(int \<times> PortUsage) list \<Rightarrow> bool" where
  "store_ok al \<longleftrightarrow> distinct (map fst al) \<and> (\<forall>(k, p)\<in>set al. Port p = k)"

definition entry :: "(int \<times> PortUsage) list \<Rightarrow> int \<Rightarrow> uint64" where
  "entry al port = (case map_of al port of None \<Rightarrow> 0 | Some p \<Rightarrow> Used p)"

lemma store_ok_empty [simp]: "store_ok []" "entry [] port = 0"
  by (simp_all add: store_ok_def entry_def)

lemma store_ok_update: "store_ok al \<Longrightarrow> store_ok (AList.update (Port p) p al)"
proof -
  assume ok: "store_ok al"
  have "Port q = k" if "(k, q) \<in> set (AList.update (Port p) p al)" for k q
  proof -
    have "distinct (map fst (AList.update (Port p) p al))"
      using ok by (simp add: store_ok_def distinct_update)
    from map_of_is_SomeI [OF this that] have "(if k = Port p then Some p else map_of al k) = Some q"
      by (simp add: update_conv split: if_splits)
    then show ?thesis using ok by (auto simp: store_ok_def split: if_splits dest: map_of_SomeD)
  qed
  with ok show ?thesis by (auto simp: store_ok_def distinct_update)
qed

lemma entry_update: "entry (AList.update k p al) port = (if port = k then Used p else entry al port)"
  by (simp add: entry_def update_conv)

lemma map_of_port: "store_ok al \<Longrightarrow> map_of al k = Some p \<Longrightarrow> Port p = k"
  by (auto simp: store_ok_def dest: map_of_SomeD)

lemma used_entry: "store_ok al \<Longrightarrow> used (map snd al) port = entry al port"
proof (induction al)
  case (Cons kp al)
  obtain k p where kp: "kp = (k, p)" by fastforce
  have none: "map_of al k = None" and ok: "store_ok al" and port: "Port p = k"
    using Cons.prems kp by (auto simp: store_ok_def map_of_eq_None_iff)
  from Cons.IH [OF ok] have IH: "used (map snd al) port = entry al port" .
  show ?case using kp none port IH by (auto simp: used_def entry_def)
qed (simp add: used_def)

lemma total_mset: "sum_list (map Used ps) = sum_mset (image_mset Used (mset ps))"
  by (simp flip: sum_mset_sum_list)

lemma total_perm: "mset ps = mset qs \<Longrightarrow> sum_list (map Used ps) = sum_list (map Used qs)"
  by (simp add: total_mset)

lemma used_append: "used (ps @ qs) port = used ps port + used qs port"
  by (simp add: used_def)

lemma used_mset: "used ps port = sum_mset (image_mset Used (filter_mset (\<lambda>p. Port p = port) (mset ps)))"
  by (simp add: used_def flip: sum_mset_sum_list mset_filter)

lemma used_perm: "mset ps = mset qs \<Longrightarrow> used ps port = used qs port"
  by (simp add: used_mset)

lemma merge_one_ok:
  assumes "store_ok al"
  shows "store_ok (merge_one p al)"
proof (cases "map_of al (Port p)")
  case None
  with assms show ?thesis by (simp add: merge_one_def store_ok_update)
next
  case (Some e)
  have "Port (e\<lparr>Used := Used e + Used p\<rparr>) = Port p" using map_of_port [OF assms Some] by simp
  with store_ok_update [OF assms, of "e\<lparr>Used := Used e + Used p\<rparr>"] Some show ?thesis
    by (simp add: merge_one_def)
qed

lemma merge_one_entry: "entry (merge_one p al) port = entry al port + (if Port p = port then Used p else 0)"
proof (cases "map_of al (Port p)")
  case None
  then have "entry al (Port p) = 0" by (simp add: entry_def)
  with None show ?thesis by (auto simp: merge_one_def entry_update)
next
  case (Some e)
  then have "entry al (Port p) = Used e" by (simp add: entry_def)
  with Some show ?thesis by (auto simp: merge_one_def entry_update)
qed

lemma merge_all:
  "store_ok al \<Longrightarrow> store_ok (fold merge_one ps al) \<and> entry (fold merge_one ps al) port = entry al port + used ps port"
proof (induction ps arbitrary: al)
  case (Cons p ps)
  then show ?case
    using merge_one_ok [OF Cons.prems, of p] merge_one_entry [of p al port]
    by (auto simp: used_def)
qed (simp add: used_def)

lemma merge_existing_ok: "store_ok al \<Longrightarrow> store_ok (fold (\<lambda>p al. AList.update (Port p) p al) ps al)"
  by (induction ps arbitrary: al) (simp_all add: store_ok_update)

lemma merge_existing_entry:
  "distinct (map Port ps) \<Longrightarrow> store_ok al \<Longrightarrow> (\<forall>p\<in>set ps. map_of al (Port p) = None) \<Longrightarrow>
     entry (fold (\<lambda>p al. AList.update (Port p) p al) ps al) port = entry al port + used ps port"
proof (induction ps arbitrary: al)
  case (Cons p ps)
  let ?al = "AList.update (Port p) p al"
  have "\<forall>q\<in>set ps. map_of ?al (Port q) = None"
    using Cons.prems(1,3) by (fastforce simp: update_conv image_iff)
  with Cons.IH [of ?al] Cons.prems store_ok_update
  have "entry (fold (\<lambda>p al. AList.update (Port p) p al) ps ?al) port = entry ?al port + used ps port"
    by simp
  moreover have "entry al (Port p) = 0" using Cons.prems(3) by (simp add: entry_def)
  ultimately show ?case by (auto simp: entry_update used_def)
qed (simp add: used_def)

section \<open>Conservation of the counted traffic\<close>

text \<open>The panel at work: bytes are counted, saves run, the page is read.\<close>

datatype usage_op = Count int uint64 | Save file_env | Show file_env

fun usage_step ::
    "(PortUsage list \<Rightarrow> PortUsage list) \<Rightarrow> (PortUsage list \<Rightarrow> PortUsage list) \<Rightarrow> usage_op \<Rightarrow> usage \<Rightarrow> usage" where
  "usage_step sh sh' (Count port n) u = AddOrUpdatePort port n u"
| "usage_step sh sh' (Save env) u = saveUsageData sh sh' env u"
| "usage_step sh sh' (Show env) u = snd (handleData env u)"

definition run_usage ::
    "(PortUsage list \<Rightarrow> PortUsage list) \<Rightarrow> (PortUsage list \<Rightarrow> PortUsage list) \<Rightarrow> usage_op list \<Rightarrow> usage \<Rightarrow> usage" where
  "run_usage sh sh' ops u = fold (usage_step sh sh') ops u"

definition added :: "usage_op list \<Rightarrow> int \<Rightarrow> uint64" where
  "added ops port = sum_list (map (\<lambda>op. case op of Count q n \<Rightarrow> if q = port then n else 0 | _ \<Rightarrow> 0) ops)"

text \<open>A save whose last write fails: it loses what it collected.\<close>

definition loses :: "usage_op \<Rightarrow> bool" where
  "loses op = (case op of Save env \<Rightarrow> write_file env \<noteq> Written | _ \<Rightarrow> False)"

definition usage_ok :: "usage \<Rightarrow> bool" where
  "usage_ok u \<longleftrightarrow> store_ok (dataStore u) \<and> distinct (map Port (file_data (snifferLog u)))"

definition known :: "usage \<Rightarrow> int \<Rightarrow> uint64" where
  "known u port = used (file_data (snifferLog u)) port + entry (dataStore u) port"

lemma add_ok: "usage_ok u \<Longrightarrow> usage_ok (AddOrUpdatePort port n u) \<and>
    known (AddOrUpdatePort port n u) q = known u q + (if q = port then n else 0)"
proof (cases "map_of (dataStore u) port")
  case None
  then show "usage_ok u \<Longrightarrow> ?thesis"
    using store_ok_update [of "dataStore u" "\<lparr>Port = port, Used = n\<rparr>"]
    by (auto simp: usage_ok_def known_def AddOrUpdatePort_def entry_update) (simp add: entry_def)
next
  case (Some e)
  assume ok: "usage_ok u"
  then have "Port (e\<lparr>Used := Used e + n\<rparr>) = port" using map_of_port [OF _ Some] by (simp add: usage_ok_def)
  moreover have "entry (dataStore u) port = Used e" using Some by (simp add: entry_def)
  ultimately show ?thesis
    using ok Some store_ok_update [of "dataStore u" "e\<lparr>Used := Used e + n\<rparr>"]
    by (auto simp: usage_ok_def known_def AddOrUpdatePort_def entry_update)
qed

lemma load_existing_data:
  "load_existing env f = Some (existing, f') \<Longrightarrow> existing = file_data f \<and> (existing \<noteq> [] \<longrightarrow> f' = f)"
  by (auto simp: load_existing_def file_data_def split: log_file.splits if_splits)

lemma distinct_ports: "store_ok al \<Longrightarrow> mset ps = mset (map snd al) \<Longrightarrow> distinct (map Port ps)"
proof -
  assume ok: "store_ok al" and m: "mset ps = mset (map snd al)"
  have "map Port (map snd al) = map fst al" using ok by (auto simp: store_ok_def)
  moreover have "distinct (map fst al)" using ok by (simp add: store_ok_def)
  ultimately have "distinct (map Port (map snd al))" by (simp only:)
  moreover have "mset (map Port ps) = mset (map Port (map snd al))" by (simp only: mset_map [of Port] m)
  ultimately show ?thesis by (metis mset_eq_imp_distinct_iff)
qed

lemma save_ok:
  assumes "usage_ok u" "\<And>ps. mset (sh ps) = mset ps" "\<And>ps. mset (sh' ps) = mset ps" "write_file env = Written"
  shows "usage_ok (saveUsageData sh sh' env u) \<and> known (saveUsageData sh sh' env u) q = known u q"
proof (cases "load_existing env (snifferLog u)")
  case None
  with assms(1) show ?thesis by (simp add: saveUsageData_def)
next
  case (Some ef)
  obtain existing f where ef: "ef = (existing, f)" by fastforce
  let ?cur = "sh (map snd (dataStore u))" and ?old = "merge_existing existing"
  let ?map = "fold merge_one ?cur ?old"
  have ex: "existing = file_data (snifferLog u)" using load_existing_data Some ef by blast
  have ok: "store_ok (dataStore u)" "distinct (map Port existing)"
    using assms(1) ex by (simp_all add: usage_ok_def)
  have old: "store_ok ?old" "entry ?old q = used existing q"
    using merge_existing_ok [of "[]" existing] merge_existing_entry [OF ok(2), of "[]" q]
    by (simp_all add: merge_existing_def)
  have m: "store_ok ?map" "entry ?map q = used existing q + used ?cur q"
    using merge_all [OF old(1), of ?cur q] old(2) by simp_all
  have cur: "used ?cur q = entry (dataStore u) q"
    using used_perm [OF assms(2)] used_entry [OF ok(1)] by metis
  have merged: "used (sh' (map snd ?map)) q = entry ?map q"
    using used_perm [OF assms(3)] used_entry [OF m(1)] by metis
  have "distinct (map Port (sh' (map snd ?map)))"
    using m(1) assms(3) by (rule distinct_ports)
  with Some ef assms(4) m(2) cur merged ex show ?thesis
    by (simp add: saveUsageData_def collectUsageDataFromSyncMap_def usage_ok_def known_def file_data_def Let_def)
qed

lemma show_ok: "usage_ok u \<Longrightarrow> usage_ok (snd (handleData env u)) \<and> known (snd (handleData env u)) q = known u q"
  by (auto simp: handleData_def getUsageFromFile_def usage_ok_def known_def file_data_def split: log_file.splits)

lemma step_ok:
  assumes "usage_ok u" "\<And>ps. mset (sh ps) = mset ps" "\<And>ps. mset (sh' ps) = mset ps" "\<not> loses op"
  shows "usage_ok (usage_step sh sh' op u) \<and> known (usage_step sh sh' op u) q = known u q + added [op] q"
proof (cases op)
  case (Count p n)
  then show ?thesis using add_ok [OF assms(1), of p n q] by (simp add: added_def)
next
  case (Save env)
  then show ?thesis using save_ok [OF assms(1-3), where env = env and q = q] assms(4) by (simp add: added_def loses_def)
next
  case (Show env)
  then show ?thesis using show_ok [OF assms(1), where env = env and q = q] by (simp add: added_def)
qed

lemma run_ok:
  assumes "\<And>ps. mset (sh ps) = mset ps" "\<And>ps. mset (sh' ps) = mset ps"
  shows "usage_ok u \<Longrightarrow> list_all (\<lambda>op. \<not> loses op) ops \<Longrightarrow>
    usage_ok (run_usage sh sh' ops u) \<and> known (run_usage sh sh' ops u) q = known u q + added ops q"
proof (induction ops arbitrary: u)
  case Nil
  then show ?case by (simp add: run_usage_def added_def)
next
  case (Cons op ops)
  have 1: "usage_ok (usage_step sh sh' op u)" "known (usage_step sh sh' op u) q = known u q + added [op] q"
    using step_ok [OF Cons.prems(1) assms, where op = op and q = q] Cons.prems(2) by simp_all
  have "added (op # ops) q = added [op] q + added ops q" by (simp add: added_def)
  with Cons.IH [OF 1(1)] 1(2) Cons.prems(2) show ?case by (simp add: run_usage_def)
qed

text \<open>
  C19. The traffic of a port is conserved: whatever order counting, saving and showing run in, and
  whatever the order Go's maps are walked in, as long as no final write of the log file fails, the bytes
  in the file and in memory for each port are, modulo 2 to the 64, those there at the start plus
  those counted since; files that cannot be opened or decoded on the way lose nothing that was counted.
\<close>

theorem usage_is_conserved:
  assumes "\<And>ps. mset (sh ps) = mset ps" "\<And>ps. mset (sh' ps) = mset ps"
    and "store_ok (dataStore u)" "distinct (map Port (file_data (snifferLog u)))"
    and "list_all (\<lambda>op. \<not> loses op) ops"
  shows "(let u' = run_usage sh sh' ops u
          in used (file_data (snifferLog u')) port + entry (dataStore u') port =
               used (file_data (snifferLog u)) port + entry (dataStore u) port + added ops port \<and>
             distinct (map Port (file_data (snifferLog u'))))"
  using run_ok [OF assms(1,2), where u = u and ops = ops and q = port] assms(3-5)
  by (simp add: usage_ok_def known_def Let_def)

definition good_env :: file_env where
  "good_env = \<lparr>open_ok = True, stat_ok = True, remove_ok = True, create_ok = True, empty_ok = True, write_file = Written\<rparr>"

theorem usage_is_conserved_witness:
  "used (file_data (snifferLog (run_usage rev rev [Count 443 5, Save good_env, Count 443 7, Count 80 1, Save good_env]
     (NewDataStore NoFile)))) 443 +
   entry (dataStore (run_usage rev rev [Count 443 5, Save good_env, Count 443 7, Count 80 1, Save good_env]
     (NewDataStore NoFile))) 443 = 12"
  using usage_is_conserved [of rev rev "NewDataStore NoFile"
      "[Count 443 5, Save good_env, Count 443 7, Count 80 1, Save good_env]" 443]
  by (simp add: NewDataStore_def file_data_def loses_def good_env_def added_def used_def Let_def)

text \<open>
  A save whose final write fails loses what was counted since the last save: the store in memory has
  already been emptied, the file keeps at most the old data, and the total shown counts the lost bytes.
\<close>

theorem failed_save_loses_traffic:
  assumes "load_existing env (snifferLog u) = Some (existing, f)" "write_file env \<noteq> Written"
    and "\<And>ps. mset (sh ps) = mset ps" "\<And>ps. mset (sh' ps) = mset ps"
    and "store_ok (dataStore u)" "distinct (map Port existing)"
  shows "(let u' = saveUsageData sh sh' env u
          in dataStore u' = [] \<and> snifferLog u' \<in> {f, Corrupt} \<and>
             used (file_data (snifferLog u')) port \<in> {used existing port, 0} \<and>
             totalTraffic u' = sum_list (map Used existing) + sum_list (map (Used \<circ> snd) (dataStore u)))"
proof -
  let ?cur = "sh (map snd (dataStore u))" and ?old = "merge_existing existing"
  let ?map = "fold merge_one ?cur ?old"
  have kept: "file_data f \<in> {existing, []}"
    using assms(1) by (auto simp: load_existing_def file_data_def cleanupCorruptedFile_def split: log_file.splits if_splits)
  have total_update: "sum_list (map (Used \<circ> snd) (AList.update k p al)) + entry al k =
      sum_list (map (Used \<circ> snd) al) + Used p" for k and p :: PortUsage and al
    by (induction al) (auto simp: entry_def algebra_simps)
  have total_one: "sum_list (map (Used \<circ> snd) (merge_one p al)) = sum_list (map (Used \<circ> snd) al) + Used p" for p :: PortUsage and al
  proof (cases "map_of al (Port p)")
    case None
    then show ?thesis using total_update [of "Port p" p al] by (simp add: merge_one_def entry_def)
  next
    case (Some e)
    then show ?thesis using total_update [of "Port p" "e\<lparr>Used := Used e + Used p\<rparr>" al]
      by (simp add: merge_one_def entry_def algebra_simps)
  qed
  have total_all: "sum_list (map (Used \<circ> snd) (fold merge_one ps al)) =
      sum_list (map (Used \<circ> snd) al) + sum_list (map Used ps)" for ps :: "PortUsage list" and al
    by (induction ps arbitrary: al) (simp_all add: total_one algebra_simps)
  have total_existing: "distinct (map Port ps) \<Longrightarrow> \<forall>p\<in>set ps. map_of al (Port p) = None \<Longrightarrow>
      sum_list (map (Used \<circ> snd) (fold (\<lambda>p al. AList.update (Port p) p al) ps al)) =
      sum_list (map (Used \<circ> snd) al) + sum_list (map Used ps)" for ps :: "PortUsage list" and al
  proof (induction ps arbitrary: al)
    case (Cons p ps)
    have "\<forall>q\<in>set ps. map_of (AList.update (Port p) p al) (Port q) = None"
      using Cons.prems by (fastforce simp: update_conv image_iff)
    with Cons.IH [of "AList.update (Port p) p al"] Cons.prems total_update [of "Port p" p al]
    show ?case by (simp add: entry_def algebra_simps comp_def)
  qed simp
  have "sum_list (map Used ?cur) = sum_list (map (Used \<circ> snd) (dataStore u))"
    using total_perm [OF assms(3) [of "map snd (dataStore u)"]] by simp
  moreover have "sum_list (map Used (sh' (map snd ?map))) = sum_list (map (Used \<circ> snd) ?map)"
    using total_perm [OF assms(4) [of "map snd ?map"]] by simp
  ultimately have total: "sum_list (map Used (sh' (map snd ?map))) =
      sum_list (map Used existing) + sum_list (map (Used \<circ> snd) (dataStore u))"
    using total_all total_existing [OF assms(6), of "[]"] by (simp add: merge_existing_def)
  have used: "used (file_data f) port \<in> {used existing port, 0}" "used (file_data Corrupt) port = 0"
    using kept by (auto simp: used_def file_data_def)
  consider "write_file env = NotOpened" | "write_file env = Truncated"
    using assms(2) by (cases "write_file env") simp_all
  then show ?thesis
    by cases (use assms(1) total used in
      \<open>simp_all add: saveUsageData_def collectUsageDataFromSyncMap_def Let_def\<close>)
qed

theorem failed_save_loses_traffic_witness:
  "dataStore (saveUsageData id id (good_env\<lparr>write_file := Truncated\<rparr>) (AddOrUpdatePort 443 9 (NewDataStore NoFile))) = []"
  using failed_save_loses_traffic [of "good_env\<lparr>write_file := Truncated\<rparr>" "AddOrUpdatePort 443 9 (NewDataStore NoFile)"
      "[]" NoFile id id]
  by (simp add: AddOrUpdatePort_def NewDataStore_def load_existing_def store_ok_def Let_def)

section \<open>Readable byte counts\<close>

lemma div_half_even_near:
  assumes "0 < d"
  shows "\<bar>2 * int (div_half_even a d * d) - 2 * int a\<bar> \<le> int d"
proof -
  have split: "a = a div d * d + a mod d" by simp
  have r: "a mod d < d" using assms by simp
  have "int a = int (a div d * d) + int (a mod d)" by (metis split of_nat_add)
  then show ?thesis
    using r by (auto simp: div_half_even_def Let_def algebra_simps)
qed

lemma small_float: "n < 2 ^ 53 \<Longrightarrow> to_float64 n = n"
proof -
  assume "n < 2 ^ 53"
  then have "floorlog 2 n \<le> 53" by (intro floorlog_leI) simp_all
  then show ?thesis by (simp add: to_float64_def div_half_even_def)
qed

definition unit_name :: "nat \<Rightarrow> string" where
  "unit_name k = (if k = 40 then '' TB'' else if k = 30 then '' GB'' else if k = 20 then '' MB'' else '' KB'')"

text \<open>
  What the panel shows for a count of at least 1024 bytes, up to the precision of a \<open>float64\<close>: the
  largest of KB, MB, GB and TB that is not above the count, with two decimals, no further than half of
  the last decimal from the exact value.
\<close>

theorem readable_counts_are_nearest:
  assumes "2 ^ 10 \<le> unat b" "unat b < 2 ^ 53"
  shows "\<exists>k q. k \<in> {10, 20, 30, 40} \<and> 2 ^ k \<le> unat b \<and> (k < 40 \<longrightarrow> unat b < 2 ^ (k + 10)) \<and>
     convertBytesToReadable b = itoa (int (q div 100)) @ ''.'' @ two_digits (q mod 100) @ unit_name k \<and>
     \<bar>2 * int (q * 2 ^ k) - 200 * int (unat b)\<bar> \<le> 2 ^ k"
proof -
  let ?n = "unat b"
  let ?q = "\<lambda>k. div_half_even (100 * ?n) (2 ^ k)"
  have near: "\<bar>2 * int (?q k * 2 ^ k) - 200 * int ?n\<bar> \<le> 2 ^ k" for k
    using div_half_even_near [of "2 ^ k" "100 * ?n"] by simp
  have f: "to_float64 ?n = ?n" using assms(2) by (rule small_float)
  consider "2 ^ 40 \<le> ?n" | "2 ^ 30 \<le> ?n" "?n < 2 ^ 40" | "2 ^ 20 \<le> ?n" "?n < 2 ^ 30" | "?n < 2 ^ 20"
    by linarith
  then show ?thesis
  proof cases
    case 1
    then show ?thesis using near [of 40]
      by (intro exI [of _ 40] exI [of _ "?q 40"]) (simp add: convertBytesToReadable_def Let_def f fmt_2f_def unit_name_def)
  next
    case 2
    then show ?thesis using near [of 30]
      by (intro exI [of _ 30] exI [of _ "?q 30"]) (simp add: convertBytesToReadable_def Let_def f fmt_2f_def unit_name_def)
  next
    case 3
    then show ?thesis using near [of 20]
      by (intro exI [of _ 20] exI [of _ "?q 20"]) (simp add: convertBytesToReadable_def Let_def f fmt_2f_def unit_name_def)
  next
    case 4
    then show ?thesis using near [of 10] assms(1)
      by (intro exI [of _ 10] exI [of _ "?q 10"]) (simp add: convertBytesToReadable_def Let_def f fmt_2f_def unit_name_def)
  qed
qed

theorem readable_counts_are_nearest_witness:
  "\<exists>k q. k \<in> {10, 20, 30, 40} \<and> 2 ^ k \<le> (1536 :: nat) \<and>
     convertBytesToReadable 1536 = itoa (int (q div 100)) @ ''.'' @ two_digits (q mod 100) @ unit_name k"
  using readable_counts_are_nearest [of 1536] by auto

end
