(* ===== verification/Panel.thy ===== *)
theory Panel
  imports Usage WebConfig
begin

text \<open>
  The web panel around the usage store, \<open>internal/web/sniffer.go\<close>: what \<open>Monitor\<close> serves and starts, the
  pages, the system statistics, and the saves as the goroutines they are. What gopsutil reads is an argument;
  \<open>net/http\<close> recovers a panic of a handler by dropping the connection.
\<close>

section \<open>Numbers\<close>

text \<open>
  \<open>%.2f\<close> of a quotient of \<open>float64\<close> values that is at least 1: the quotient is rounded to 53 bits, then printed.
\<close>

definition fmt_quotient :: "nat \<Rightarrow> nat \<Rightarrow> string" where
  "fmt_quotient n d =
     (let k = 53 - floorlog 2 (n div d) in fmt_2f (div_half_even (n * 2 ^ k) d) (2 ^ k))"

definition formatSpeed :: "nat \<Rightarrow> string" where
  "formatSpeed bytesPerSec =
     (if 10 ^ 9 \<le> bytesPerSec then fmt_quotient bytesPerSec (10 ^ 9) @ '' GB/s''
      else if 10 ^ 6 \<le> bytesPerSec then fmt_quotient bytesPerSec (10 ^ 6) @ '' MB/s''
      else if 10 ^ 3 \<le> bytesPerSec then fmt_quotient bytesPerSec (10 ^ 3) @ '' KB/s''
      else fmt_2f bytesPerSec 1 @ '' B/s'')"

text \<open>A percentage is a \<open>float64\<close>, given as a fraction \<open>n / 2 ^ k\<close>.\<close>

definition formatFloat :: "nat \<times> nat \<Rightarrow> string" where
  "formatFloat v = fmt_2f (fst v) (2 ^ snd v) @ ''%''"

section \<open>System statistics\<close>

record io_counters =
  io_sent :: uint64
  io_recv :: uint64

record SystemStats =
  TunnelStatus :: string
  CPUUsage :: string
  RAMUsage :: string
  DiskUsage :: string
  SwapUsage :: string
  NetworkTraffic :: string
  UploadSpeed :: string
  DownloadSpeed :: string
  BackhaulTraffic :: string
  Sniffer :: string
  AllConnections :: string

text \<open>The readings in the order they are made; \<open>None\<close> is an error.\<close>

record readings =
  io_first :: "io_counters list option"
  io_second :: "io_counters list option"
  cpu_percent :: "(nat \<times> nat) list option"
  ram_used :: "uint64 option"
  disk_used :: "uint64 option"
  swap_used :: "uint64 option"
  io_total :: "io_counters list option"
  connections :: "nat option"

definition getNetworkStats :: "io_counters list option \<Rightarrow> io_counters option" where
  "getNetworkStats r = (case r of None \<Rightarrow> None | Some [] \<Rightarrow> None | Some (c # _) \<Rightarrow> Some c)"

datatype stats_result = Stats SystemStats | StatsErr | StatsPanic

text \<open>The differences of the counters are taken in \<open>uint64\<close>; \<open>cpuPercent[0]\<close> and \<open>netStats[0]\<close> are not guarded.\<close>

definition getSystemStats :: "readings \<Rightarrow> string \<Rightarrow> bool \<Rightarrow> usage \<Rightarrow> stats_result" where
  "getSystemStats r status sniffer u =
     (case (getNetworkStats (io_first r), getNetworkStats (io_second r)) of
        (Some initialStats, Some finalStats) \<Rightarrow>
          (case (cpu_percent r, ram_used r, disk_used r, swap_used r, io_total r, connections r) of
             (Some cpuPercent, Some ram, Some disk, Some swap, Some netStats, Some conns) \<Rightarrow>
               (case (cpuPercent, netStats) of
                  (cpu # _, net # _) \<Rightarrow>
                    Stats \<lparr>TunnelStatus = status,
                      CPUUsage = formatFloat cpu,
                      RAMUsage = convertBytesToReadable ram,
                      DiskUsage = convertBytesToReadable disk,
                      SwapUsage = convertBytesToReadable swap,
                      NetworkTraffic = convertBytesToReadable (io_sent net + io_recv net),
                      UploadSpeed = formatSpeed (to_float64 (unat (io_sent finalStats - io_sent initialStats))),
                      DownloadSpeed = formatSpeed (to_float64 (unat (io_recv finalStats - io_recv initialStats))),
                      BackhaulTraffic = convertBytesToReadable (totalTraffic u),
                      Sniffer = (if sniffer then ''Running'' else ''Not running''),
                      AllConnections = itoa (int conns)\<rparr>
                | _ \<Rightarrow> StatsPanic)
           | _ \<Rightarrow> StatsErr)
      | _ \<Rightarrow> StatsErr)"

section \<open>Pages\<close>

text \<open>
  The answer to a request: the page rendered from rows, a JSON reply, nothing (an error was logged), or a
  dropped connection. \<open>parsed\<close> and \<open>executed\<close> are the steps of the template.
\<close>

datatype page =
    Rows "(int \<times> string) list"
  | DataReply "(int \<times> string) list"
  | StatsReply SystemStats
  | ConfigReply http_response
  | NoPage
  | Dropped

definition handleIndex :: "bool \<Rightarrow> file_env \<Rightarrow> usage \<Rightarrow> page \<times> usage" where
  "handleIndex parsed env u =
     (case getUsageFromFile env (snifferLog u) of
        (usageData, f) \<Rightarrow>
          (if parsed then Rows (usageDataWithReadableUsage usageData) else NoPage, u\<lparr>snifferLog := f\<rparr>))"

definition statsHandler :: "readings \<Rightarrow> string \<Rightarrow> bool \<Rightarrow> usage \<Rightarrow> page" where
  "statsHandler r status sniffer u =
     (case getSystemStats r status sniffer u of
        Stats stats \<Rightarrow> StatsReply stats | StatsErr \<Rightarrow> NoPage | StatsPanic \<Rightarrow> Dropped)"

text \<open>
  \<open>Monitor\<close>: the patterns it registers, of which \<open>/\<close> takes what no other one does, and whether it starts
  the saving goroutine; a pass of that goroutine, the flag of whose result starts a save.
\<close>

definition Monitor :: "bool \<Rightarrow> string list \<times> bool" where
  "Monitor sniffer = ([''/'', ''/stats''] @ (if sniffer then [''/data''] else []) @ [''/config''], sniffer)"

definition serve_mux :: "string list \<Rightarrow> string \<Rightarrow> string" where
  "serve_mux patterns path = (if path \<in> set patterns then path else ''/'')"

datatype saver_event = SaverTick | SaverCtxDone

definition Monitor_saver :: "saver_event \<Rightarrow> bool \<Rightarrow> (bool \<times> bool) option" where
  "Monitor_saver ev done =
     (case ev of SaverTick \<Rightarrow> Some (True, True) | SaverCtxDone \<Rightarrow> if done then Some (False, False) else None)"

record panel_request =
  url_path :: string
  type_query :: string

definition panel_serve ::
    "bool \<Rightarrow> string \<Rightarrow> provider option \<Rightarrow> bool \<Rightarrow> file_env \<Rightarrow> readings \<Rightarrow> panel_request \<Rightarrow> usage \<Rightarrow> page \<times> usage" where
  "panel_serve sniffer status prov parsed env r q u =
     (let p = serve_mux (fst (Monitor sniffer)) (url_path q)
      in if p = ''/stats'' then (statsHandler r status sniffer u, u)
         else if p = ''/data'' then (case handleData env u of (rows, u') \<Rightarrow> (DataReply rows, u'))
         else if p = ''/config'' then (ConfigReply (handleConfig prov (type_query q)), u)
         else handleIndex parsed env u)"

section \<open>Saves as goroutines\<close>

text \<open>
  A save reads the file, then empties the store and writes; it runs in a goroutine of its own, so two of
  them can overlap. Run without a break the two halves are \<open>saveUsageData\<close>.
\<close>

definition save_read :: "file_env \<Rightarrow> usage \<Rightarrow> (PortUsage list \<times> usage) option" where
  "save_read env u = map_option (\<lambda>(existing, f). (existing, u\<lparr>snifferLog := f\<rparr>)) (load_existing env (snifferLog u))"

definition save_write ::
    "(PortUsage list \<Rightarrow> PortUsage list) \<Rightarrow> (PortUsage list \<Rightarrow> PortUsage list) \<Rightarrow> file_env \<Rightarrow> PortUsage list \<Rightarrow> usage \<Rightarrow> usage" where
  "save_write shuffle shuffle' env existing u =
     (let (current, u1) = collectUsageDataFromSyncMap shuffle u;
          merged = shuffle' (map snd (fold merge_one current (merge_existing existing)))
      in u1\<lparr>totalTraffic := sum_list (map Used merged),
            snifferLog := (case write_file env of
               Written \<Rightarrow> Json merged | NotOpened \<Rightarrow> snifferLog u | Truncated \<Rightarrow> Corrupt)\<rparr>)"

lemma save_in_two_steps:
  "saveUsageData sh sh' env u =
     (case save_read env u of None \<Rightarrow> u | Some (existing, u') \<Rightarrow> save_write sh sh' env existing u')"
  by (simp add: saveUsageData_def save_read_def save_write_def collectUsageDataFromSyncMap_def Let_def
      split: option.split prod.split write_file.split)

lemma save_write_file:
  assumes "store_ok (dataStore u)" "distinct (map Port existing)" "write_file env = Written"
    and "\<And>ps. mset (sh ps) = mset ps" "\<And>ps. mset (sh' ps) = mset ps"
  shows "used (file_data (snifferLog (save_write sh sh' env existing u))) q = used existing q + entry (dataStore u) q"
    "dataStore (save_write sh sh' env existing u) = []"
proof -
  let ?u = "u\<lparr>snifferLog := Json existing\<rparr>" and ?e = "env\<lparr>open_ok := True, stat_ok := True\<rparr>"
  have same: "save_write sh sh' env existing u = saveUsageData sh sh' ?e ?u"
    using assms(3) by (simp add: save_in_two_steps save_read_def load_existing_def save_write_def
        collectUsageDataFromSyncMap_def Let_def)
  have "usage_ok ?u" using assms(1,2) by (simp add: usage_ok_def file_data_def)
  from save_ok [OF this assms(4,5), where env = ?e and q = q] assms(3)
  show "used (file_data (snifferLog (save_write sh sh' env existing u))) q = used existing q + entry (dataStore u) q"
    unfolding same by (simp add: known_def file_data_def saveUsageData_def load_existing_def
        collectUsageDataFromSyncMap_def Let_def)
  show "dataStore (save_write sh sh' env existing u) = []"
    by (simp add: save_write_def collectUsageDataFromSyncMap_def Let_def)
qed

section \<open>Properties\<close>

lemma index_keeps:
  "getUsageFromFile env f = (ps, f') \<Longrightarrow> file_data f' = file_data f \<and> sorted (map Port ps) \<and> set ps \<subseteq> set (file_data f)"
  by (auto simp: getUsageFromFile_def file_data_def split: log_file.splits if_splits)

text \<open>
  Whoever reads the panel changes nothing that was counted: no request, for whatever path and however the files, the
  template and the system answer, changes the store in memory or the data of the file. The rows shown are those of
  the file in the order of their ports, the JSON of the rows is served only with the sniffer on, and no answer depends on
  the token of the configuration.
\<close>

theorem panel_only_reads:
  "case panel_serve sniffer status prov parsed env r q u of (pg, u') \<Rightarrow>
     dataStore u' = dataStore u \<and> totalTraffic u' = totalTraffic u \<and> file_data (snifferLog u') = file_data (snifferLog u) \<and>
     (\<forall>rows. pg = Rows rows \<or> pg = DataReply rows \<longrightarrow>
        sorted (map fst rows) \<and> set rows \<subseteq> (\<lambda>p. (Port p, convertBytesToReadable (Used p))) ` set (file_data (snifferLog u))) \<and>
     (\<forall>rows. pg = DataReply rows \<longrightarrow> sniffer) \<and>
     (\<forall>s tk. prov = Some (ServerProvider s) \<longrightarrow>
        panel_serve sniffer status (Some (ServerProvider (s\<lparr>s_Token := tk\<rparr>))) parsed env r q u = (pg, u')) \<and>
     (\<forall>c tk. prov = Some (ClientProvider c) \<longrightarrow>
        panel_serve sniffer status (Some (ClientProvider (c\<lparr>c_Token := tk\<rparr>))) parsed env r q u = (pg, u'))"
proof -
  have no_token: "handleConfig (Some (ServerProvider (s\<lparr>s_Token := tk\<rparr>))) ty = handleConfig (Some (ServerProvider s)) ty"
    "handleConfig (Some (ClientProvider (c\<lparr>c_Token := tk\<rparr>))) ty = handleConfig (Some (ClientProvider c)) ty" for s c tk ty
    by (simp_all add: handleConfig_def GetServerConfig_def GetClientConfig_def server_json_def client_json_def)
  obtain ps f where f: "getUsageFromFile env (snifferLog u) = (ps, f)" by fastforce
  have rows: "map fst (usageDataWithReadableUsage ps) = map Port ps"
    "set (usageDataWithReadableUsage ps) = (\<lambda>p. (Port p, convertBytesToReadable (Used p))) ` set ps"
    by (simp_all add: usageDataWithReadableUsage_def)
  note kept = index_keeps [OF f]
  show ?thesis
  proof (cases "serve_mux (fst (Monitor sniffer)) (url_path q) \<in> {''/stats'', ''/config''}")
    case True
    then show ?thesis
      by (auto simp: panel_serve_def Let_def no_token statsHandler_def split: stats_result.splits)
  next
    case False
    have data: "serve_mux (fst (Monitor sniffer)) (url_path q) = ''/data'' \<Longrightarrow> sniffer"
      by (auto simp: serve_mux_def Monitor_def split: if_splits)
    from False show ?thesis
      using kept rows data by (auto simp: panel_serve_def Let_def handleIndex_def handleData_def f)
  qed
qed

text \<open>
  C33. Two saves that overlap lose traffic: when a save reads the file before another one writes it, and writes after
  it, everything the other one collected is gone, from the file and from memory; what was counted in between is kept. The
  same holds for what was counted since the last save when the context ends: the saving goroutine returns without
  a save, and the store of the next context starts from the file.
\<close>

theorem overlapping_saves_lose_traffic:
  assumes "usage_ok u" "save_read env u = Some (existing, u1)" "save_read env' u1 = Some (existing', u2)"
    and "write_file env = Written" "write_file env' = Written"
    and "\<And>ps. mset (sh ps) = mset ps" "\<And>ps. mset (sh' ps) = mset ps"
  shows "(let u3 = save_write sh sh' env' existing' u2;
              u4 = save_write sh sh' env existing (AddOrUpdatePort port n u3)
          in known u3 q = known u q \<and> known u4 q = known u q - entry (dataStore u) q + (if q = port then n else 0)) \<and>
     Monitor_saver SaverCtxDone True = Some (False, False) \<and>
     known (NewDataStore (snifferLog u)) q = known u q - entry (dataStore u) q"
proof -
  let ?u3 = "save_write sh sh' env' existing' u2"
  let ?u4 = "save_write sh sh' env existing (AddOrUpdatePort port n ?u3)"
  have r: "existing = file_data (snifferLog u)" "dataStore u1 = dataStore u" "existing \<noteq> [] \<longrightarrow> snifferLog u1 = snifferLog u"
    using assms(2) by (auto simp: save_read_def dest: load_existing_data)
  have same: "file_data (snifferLog u1) = file_data (snifferLog u)"
    using assms(2) by (auto simp: save_read_def load_existing_def file_data_def cleanupCorruptedFile_def
        split: log_file.splits if_splits)
  have r': "existing' = existing" "dataStore u2 = dataStore u"
    using assms(3) r same by (auto simp: save_read_def dest: load_existing_data)
  have ok: "store_ok (dataStore u)" "distinct (map Port existing)" using assms(1) r(1) by (simp_all add: usage_ok_def)
  have u3: "used (file_data (snifferLog ?u3)) q = used existing q + entry (dataStore u) q" "dataStore ?u3 = []"
    using save_write_file [of u2 existing' env' sh sh'] ok r' assms(5-7) by simp_all
  let ?s = "AddOrUpdatePort port n ?u3"
  have s: "store_ok (dataStore ?s)" "entry (dataStore ?s) q = (if q = port then n else 0)"
    using u3(2) by (auto simp: AddOrUpdatePort_def store_ok_def entry_def)
  have "used (file_data (snifferLog ?u4)) q = used existing q + (if q = port then n else 0)" "dataStore ?u4 = []"
    using save_write_file [of ?s existing env sh sh'] ok(2) s assms(4,6,7) by simp_all
  then show ?thesis
    using u3 r(1) by (simp add: known_def Monitor_saver_def NewDataStore_def Let_def)
qed

theorem overlapping_saves_lose_traffic_witness:
  "known (save_write id id good_env [] (AddOrUpdatePort 443 2
     (save_write id id good_env [] (AddOrUpdatePort 443 9 (NewDataStore NoFile))))) 443 = 2"
proof -
  let ?u = "AddOrUpdatePort 443 9 (NewDataStore NoFile)"
  have "usage_ok ?u" "save_read good_env ?u = Some ([], ?u)"
    by (simp_all add: AddOrUpdatePort_def NewDataStore_def usage_ok_def store_ok_def file_data_def save_read_def
        load_existing_def)
  from overlapping_saves_lose_traffic [OF this this(2), of id id 443 2 443]
  show ?thesis
    by (simp add: good_env_def known_def AddOrUpdatePort_def NewDataStore_def file_data_def entry_def Let_def used_def)
qed

text \<open>A counter that starts anew between the two readings is shown as a speed of 18 exabytes per second.\<close>

lemma reset_counter_speed: "formatSpeed (to_float64 (unat (0 - 1 :: uint64))) = ''18446744073.71 GB/s''"
proof -
  have "unat (0 - 1 :: uint64) = 2 ^ 64 - 1" by (simp add: unsigned_minus_1_eq_mask mask_eq_exp_minus_1)
  then have "to_float64 (unat (0 - 1 :: uint64)) = 2 ^ 64"
    by (simp add: to_float64_def div_half_even_def compute_floorlog)
  moreover have "fmt_quotient (2 ^ 64) (10 ^ 9) = itoa 18446744073 @ ''.'' @ two_digits 71"
  proof -
    have "floorlog 2 (2 ^ 64 div 10 ^ 9) \<le> 35 \<and> \<not> floorlog 2 (2 ^ 64 div 10 ^ 9) \<le> 34"
      by (simp add: floorlog_le_iff)
    then have "floorlog 2 (2 ^ 64 div 10 ^ 9) = 35" by linarith
    then have "fmt_quotient (2 ^ 64) (10 ^ 9) = fmt_2f (div_half_even (2 ^ 64 * 2 ^ 18) (10 ^ 9)) (2 ^ 18)"
      unfolding fmt_quotient_def Let_def by simp
    also have "div_half_even (2 ^ 64 * 2 ^ 18) (10 ^ 9 :: nat) = 4835703278458517" by (simp add: div_half_even_def)
    finally show ?thesis by (simp add: fmt_2f_def div_half_even_def)
  qed
  moreover have "itoa 18446744073 = ''18446744073''" "two_digits 71 = ''71''" by (simp_all add: two_digits_def itoa_eval)
  ultimately show ?thesis by (simp add: formatSpeed_def)
qed

end
