(* ===== verification/SysTuning.thy ===== *)
theory SysTuning
  imports Prelude
begin

text \<open>
  What the process does to the system at its start: the \<open>sysctl\<close> commands and the limit on open files,
  \<open>cmd/optimization.go\<close>, \<open>optimization_linux.go\<close> and \<open>optimization_stub.go\<close>. The operating system is a state that
  running a command and setting a limit change; its three calls are arguments.
\<close>

section \<open>The commands\<close>

definition tcp_commands :: "string list list" where
  "tcp_commands = map (\<lambda>setting. [''sysctl'', ''-w'', setting])
     [''net.ipv4.ip_local_port_range=1024 65535'',
      ''net.ipv4.tcp_tw_reuse=1'',
      ''net.ipv4.tcp_fin_timeout=15'',
      ''net.core.somaxconn=4096'',
      ''net.ipv4.tcp_max_syn_backlog=8192'',
      ''net.ipv4.tcp_window_scaling=1'',
      ''net.ipv4.tcp_fastopen=3'',
      ''net.ipv4.tcp_rmem=16384 262144 1048576'',
      ''net.ipv4.tcp_wmem=16384 262144 1048576'',
      ''net.ipv4.tcp_notsent_lowat=4096'',
      ''net.core.rmem_default=262144'',
      ''net.core.wmem_default=262144'',
      ''net.core.wmem_max=67108864'',
      ''net.core.rmem_max=67108864'']"

datatype tuning_log =
    Applying
  | Skipping
  | Applied "string list"
  | NotApplied "string list"
  | LimitUnknown
  | LimitIs nat
  | LimitNotSet
  | LimitSet nat

fun run_commands :: "(string list \<Rightarrow> 'os \<Rightarrow> 'os \<times> bool) \<Rightarrow> string list list \<Rightarrow> 'os \<Rightarrow> 'os \<times> tuning_log list" where
  "run_commands exec [] os = (os, [])"
| "run_commands exec (cmd # cmds) os =
     (let (os1, ok) = exec cmd os; (os2, logs) = run_commands exec cmds os1
      in (os2, (if ok then Applied cmd else NotApplied cmd) # logs))"

section \<open>The limit on open files\<close>

text \<open>Soft limit and hard limit. The second definition is the one of the other systems.\<close>

definition applyLinuxRlimit ::
    "('os \<Rightarrow> (nat \<times> nat) option) \<Rightarrow> (nat \<times> nat \<Rightarrow> 'os \<Rightarrow> 'os \<times> bool) \<Rightarrow> 'os \<Rightarrow> 'os \<times> tuning_log list" where
  "applyLinuxRlimit getrlimit setrlimit os =
     (case getrlimit os of
        None \<Rightarrow> (os, [LimitUnknown])
      | Some (soft, hard) \<Rightarrow>
          (let (os', ok) = setrlimit (1048576, 1048576) os
           in (os', [LimitIs soft, if ok then LimitSet 1048576 else LimitNotSet])))"

definition stub_applyLinuxRlimit :: "'os \<Rightarrow> 'os \<times> tuning_log list" where
  "stub_applyLinuxRlimit os = (os, [])"

definition ApplyTCPTuning ::
    "string \<Rightarrow> (string list \<Rightarrow> 'os \<Rightarrow> 'os \<times> bool) \<Rightarrow> ('os \<Rightarrow> (nat \<times> nat) option) \<Rightarrow>
       (nat \<times> nat \<Rightarrow> 'os \<Rightarrow> 'os \<times> bool) \<Rightarrow> 'os \<Rightarrow> 'os \<times> tuning_log list" where
  "ApplyTCPTuning GOOS exec getrlimit setrlimit os =
     (if GOOS = ''linux''
      then (let (os1, logs) = run_commands exec tcp_commands os;
                (os2, logs') = applyLinuxRlimit getrlimit setrlimit os1
            in (os2, Applying # logs @ logs'))
      else (os, [Skipping]))"

section \<open>Properties\<close>

text \<open>The commands a log reports on.\<close>

fun tried :: "tuning_log \<Rightarrow> string list list" where
  "tried (Applied c) = [c]"
| "tried (NotApplied c) = [c]"
| "tried _ = []"

lemma run_commands_all:
  "run_commands exec cmds os = (os', logs) \<Longrightarrow>
     os' = fold (\<lambda>cmd os. fst (exec cmd os)) cmds os \<and> concat (map tried logs) = cmds"
  by (induction cmds arbitrary: os os' logs) (auto simp: Let_def split: prod.splits if_splits)

lemma fold_keeps: "(\<And>c os. f (g c os) = f os) \<Longrightarrow> f (fold g cs os) = f os"
  by (induction cs arbitrary: os) simp_all

text \<open>
  C35. What the start of the process leaves on Linux. Every command is tried in its order, whatever the ones before it did. With the
  rule of \<open>setrlimit\<close> that only a privileged process may raise a hard limit, and commands that leave the limits alone,
  the limit on open files becomes 1048576 for a privileged process and for one whose hard limit is no
  lower, which is lowered for good; any other process keeps its soft limit, even below its hard one.
\<close>

theorem startup_tuning:
  assumes "\<And>l os. setrlimit l os =
      (if privileged \<or> snd l \<le> snd (limits os) then (set_limits l os, True) else (os, False))"
    and "\<And>l os. limits (set_limits l os) = l" "\<And>os. getrlimit os = Some (limits os)"
    and "\<And>cmd os. limits (fst (exec cmd os)) = limits os"
    and "ApplyTCPTuning ''linux'' exec getrlimit setrlimit os = (os', logs)"
  shows "limits os' = (if privileged \<or> 1048576 \<le> snd (limits os) then (1048576, 1048576) else limits os) \<and>
     (let tuned = fold (\<lambda>cmd os. fst (exec cmd os)) tcp_commands os
      in os' \<in> {tuned, set_limits (1048576, 1048576) tuned}) \<and>
     concat (map tried logs) = tcp_commands"
proof -
  obtain os1 ls where r: "run_commands exec tcp_commands os = (os1, ls)" by fastforce
  note all = run_commands_all [OF r]
  obtain soft hard where l: "limits os = (soft, hard)" by fastforce
  have "limits os1 = limits os" using all fold_keeps [of limits, OF assms(4)] by simp
  then show ?thesis
    using assms(5) all
    by (auto simp: ApplyTCPTuning_def r applyLinuxRlimit_def assms(1-3) l Let_def split: if_splits)
qed

text \<open>A system that is its limits and the settings made.\<close>

definition sample_exec :: "string list \<Rightarrow> (nat \<times> nat) \<times> string list list \<Rightarrow> ((nat \<times> nat) \<times> string list list) \<times> bool" where
  "sample_exec cmd os = ((fst os, cmd # snd os), cmd \<noteq> tcp_commands ! 1)"

theorem startup_tuning_witness:
  "\<exists>os' logs. ApplyTCPTuning ''linux'' sample_exec (\<lambda>os. Some (fst os))
     (\<lambda>l os. if snd l \<le> snd (fst os) then ((l, snd os), True) else (os, False)) ((1024, 524288), []) = (os', logs) \<and>
     fst os' = (1024, 524288) \<and> concat (map tried logs) = tcp_commands"
proof -
  let ?set = "\<lambda>l os. if snd l \<le> snd (fst os) then ((l, snd os), True) else (os :: (nat \<times> nat) \<times> string list list, False)"
  obtain os' logs where r: "ApplyTCPTuning ''linux'' sample_exec (\<lambda>os. Some (fst os)) ?set ((1024, 524288), []) = (os', logs)"
    by fastforce
  show ?thesis
    using startup_tuning [of ?set False fst "\<lambda>l os. (l, snd os)" "\<lambda>os. Some (fst os)" sample_exec "((1024, 524288), [])", OF _ _ _ _ r] r
    by (simp add: sample_exec_def)
qed

end
