(* ===== verification/Diagnostics.thy ===== *)
theory Diagnostics
  imports GoStrings
begin

text \<open>
  Two helpers of \<open>internal/utils\<close> that the program carries for its developers and never calls: the memory
  statistics of \<open>runtime.go\<close> and the test server of \<open>httpserver.go\<close>.
\<close>

section \<open>Memory statistics\<close>

record mem_stats =
  Alloc :: uint64
  TotalAlloc :: uint64
  Sys :: uint64
  Lookups :: uint64
  Mallocs :: uint64
  Frees :: uint64
  HeapAlloc :: uint64
  HeapSys :: uint64
  HeapIdle :: uint64
  HeapInuse :: uint64
  HeapReleased :: uint64
  HeapObjects :: uint64
  StackInuse :: uint64
  StackSys :: uint64
  NumGC :: uint32

definition bToMb :: "uint64 \<Rightarrow> uint64" where
  "bToMb b = b div 1024 div 1024"

definition stat_line :: "string \<Rightarrow> string \<Rightarrow> string" where
  "stat_line label v = label @ '': '' @ v @ [CHR 0x0A]"

definition in_mib :: "string \<Rightarrow> uint64 \<Rightarrow> string" where
  "in_mib label b = stat_line label (itoa (uint (bToMb b)) @ '' MiB'')"

definition plain :: "string \<Rightarrow> 'a::len word \<Rightarrow> string" where
  "plain label n = stat_line label (itoa (uint n))"

text \<open>What \<open>printStats\<close> writes; the fraction of time in the collector is printed by \<open>fmt\<close>, and the three
  numbers of the runtime are \<open>int\<close> and \<open>int64\<close>.\<close>

definition printStats :: "mem_stats \<Rightarrow> string \<Rightarrow> int \<Rightarrow> int \<Rightarrow> int \<Rightarrow> string" where
  "printStats mem gcFraction goroutines cpus cgoCalls =
     ''Go Runtime Stats'' @ [CHR 0x0A] @ ''================'' @ [CHR 0x0A] @
     in_mib ''Alloc'' (Alloc mem) @ in_mib ''TotalAlloc'' (TotalAlloc mem) @ in_mib ''Sys'' (Sys mem) @
     plain ''Lookups'' (Lookups mem) @ plain ''Mallocs'' (Mallocs mem) @ plain ''Frees'' (Frees mem) @
     in_mib ''HeapAlloc'' (HeapAlloc mem) @ in_mib ''HeapSys'' (HeapSys mem) @ in_mib ''HeapIdle'' (HeapIdle mem) @
     in_mib ''HeapInuse'' (HeapInuse mem) @ in_mib ''HeapReleased'' (HeapReleased mem) @
     plain ''HeapObjects'' (HeapObjects mem) @
     in_mib ''StackInuse'' (StackInuse mem) @ in_mib ''StackSys'' (StackSys mem) @
     plain ''NumGC'' (NumGC mem) @ stat_line ''GCCPUFraction'' gcFraction @
     stat_line ''NumGoroutine'' (itoa goroutines) @ stat_line ''NumCPU'' (itoa cpus) @
     stat_line ''NumCgoCall'' (itoa cgoCalls)"

lemma bToMb_floor: "unat (bToMb b) = unat b div 2 ^ 20"
  by (simp add: bToMb_def unat_div_distrib div_mult2_eq [symmetric])

section \<open>The test server\<close>

datatype reply = Body string | NotFound | EmptyReply

definition hello_handler :: "string \<Rightarrow> string \<Rightarrow> reply" where
  "hello_handler path name =
     (if path = ''/'' then Body (''Hello, World!'' @ [CHR 0x0A])
      else if path = ''/hello'' then Body (''Hello, '' @ (if name = '''' then ''World'' else name) @ ''!'')
      else NotFound)"

text \<open>
  The request handler only starts \<open>handler\<close> and returns, and the server then ends the response: what \<open>handler\<close>
  writes arrives only if it runs before that.
\<close>

definition RunHTTPServer_serve :: "bool \<Rightarrow> string \<Rightarrow> string \<Rightarrow> reply" where
  "RunHTTPServer_serve ran_first path name = (if ran_first then hello_handler path name else EmptyReply)"

text \<open>So no answer to a request is certain, not even that a page does not exist.\<close>

theorem test_server_may_answer_nothing:
  "RunHTTPServer_serve False path name = EmptyReply \<and> RunHTTPServer_serve True path name \<noteq> EmptyReply"
  by (simp add: RunHTTPServer_serve_def hello_handler_def)

end
