(* ===== verification/Disguise.thy ===== *)
theory Disguise
  imports CliShared
begin

text \<open>
  The rest of the disguise in \<open>internal/client/transport/shared.go\<close>: its default configuration, the user agents and the
  TLS settings of the WSS clients.
\<close>

section \<open>Configuration\<close>

record ObfuscationConfig =
  EnableHTTPSObfuscation :: bool
  EnableWebSocketObfuscation :: bool
  EnableTLSFingerprinting :: bool
  CustomUserAgent :: string
  CustomHeaders :: "(string \<times> string) list"

definition defaultObfuscationConfig :: ObfuscationConfig where
  "defaultObfuscationConfig =
     \<lparr>EnableHTTPSObfuscation = True, EnableWebSocketObfuscation = True, EnableTLSFingerprinting = True,
      CustomUserAgent = '''', CustomHeaders = []\<rparr>"

datatype tls_version = VersionTLS10 | VersionTLS11 | VersionTLS12 | VersionTLS13

datatype curve = X25519 | CurveP256

record tls_settings =
  InsecureSkipVerify :: bool
  MinVersion :: tls_version
  MaxVersion :: tls_version
  CurvePreferences :: "curve list"

definition getObfuscatedTLSConfig :: tls_settings where
  "getObfuscatedTLSConfig =
     \<lparr>InsecureSkipVerify = True, MinVersion = VersionTLS12, MaxVersion = VersionTLS13,
      CurvePreferences = [X25519, CurveP256]\<rparr>"

section \<open>User agents\<close>

definition enhancedUserAgents :: "string list" where
  "enhancedUserAgents =
     [(''Mozilla/5.0 (Windows NT10 Win64; x64) AppleWebKit/53736(KHTML, like Gecko) Chrome/120000 S'' @
       ''afari/537.36,Mozilla/5.0 (Macintosh; Intel Mac OS X10_157) AppleWebKit/53736(KHTML, like G'' @
       ''ecko) Chrome/120000 Safari/537.36,Mozilla/5.0(X11; Linux x864) AppleWebKit/53736(KHTML, li'' @
       ''ke Gecko) Chrome/120000 Safari/537.36,Mozilla/5.0 (Windows NT10 Win64; x64) AppleWebKit/53'' @
       ''736(KHTML, like Gecko) Chrome/119000 Safari/537.36,Mozilla/5.0 (Macintosh; Intel Mac OS X1'' @
       ''0_157) AppleWebKit/53736(KHTML, like Gecko) Chrome/119000Safari/5370.36''),
      (''Mozilla/5.0 (Windows NT10.0Win64 x64; rv:1210o/2010101 Firefox/1210,Mozilla/5.0 (Macintosh'' @
       ''; Intel Mac OS X 10.15; rv:1210o/2010101 Firefox/1210,Mozilla/5.0(X11; Linux x864; rv:1210'' @
       ''o/2010101 Firefox/1210,Mozilla/5.0 (Windows NT10.0Win64 x64; rv:1200o/2010101Firefox/120.0''),
      (''Mozilla/5.0 (Macintosh; Intel Mac OS X10_157) AppleWebKit/6050.115(KHTML, like Gecko) Vers'' @
       ''ion/170.1Safari/605.1.15,Mozilla/5.0 (Macintosh; Intel Mac OS X10_157) AppleWebKit/6050.11'' @
       ''5(KHTML, like Gecko) Version/170Safari/605.10.15''),
      (''Mozilla/5.0 (Windows NT10 Win64; x64) AppleWebKit/53736(KHTML, like Gecko) Chrome/120000 S'' @
       ''afari/537.36 Edg/120.0.00,Mozilla/5.0 (Macintosh; Intel Mac OS X10_157) AppleWebKit/53736('' @
       ''KHTML, like Gecko) Chrome/120000 Safari/537.36dg/120.0'')]"

text \<open>The agent \<open>rand.Intn\<close> picks.\<close>

definition random_agent :: "nat \<Rightarrow> string" where
  "random_agent i = enhancedUserAgents ! i"

fun starts :: "string \<Rightarrow> string \<Rightarrow> nat" where
  "starts p [] = 0"
| "starts p (c # s) = (if has_prefix (c # s) p then 1 else 0) + starts p s"

text \<open>
  No entry of the list is the user agent of a browser: each is several of them joined by commas, so every request of a
  client announces two browsers at least.
\<close>

lemma agents_are_joined: "\<forall>a\<in>set enhancedUserAgents. 2 \<le> starts ''Mozilla/5.0'' a \<and> CHR '','' \<in> set a"
  unfolding enhancedUserAgents_def by code_simp

theorem disguise_names_several_browsers:
  assumes "i < length enhancedUserAgents"
    and "attemptDialWebSocket rnd uid (random_agent i) addr edgeIP pth token mode = Some q"
  shows "\<exists>a. map_of (headers q) ''User-Agent'' = Some a \<and> 2 \<le> starts ''Mozilla/5.0'' a"
proof -
  have "2 \<le> starts ''Mozilla/5.0'' (random_agent i)"
    using agents_are_joined nth_mem [OF assms(1)] by (simp add: random_agent_def)
  then show ?thesis
    using assms(2) by (auto simp: attemptDialWebSocket_def generateObfuscatedHeaders_def Let_def split: option.splits if_splits)
qed

end
