(* ===== verification/CliStub.thy ===== *)
theory CliStub
  imports CliShared
begin

text \<open>
  The dialling of the builds for other systems than Linux, \<open>internal/client/transport/shared_stub.go\<close>: the
  functions of \<open>shared.go\<close> without socket options and without the disguise of the WebSocket requests. The
  transports are built against either file, so both have to keep the same contract.
\<close>

section \<open>Addresses and TCP\<close>

definition stub_ResolveRemoteAddr :: "string \<Rightarrow> (int \<times> string) option" where
  "stub_ResolveRemoteAddr remote =
     (let parts = split_on (CHR '':'') remote
      in if length parts < 2
         then (case atoi (parts ! 0) of
                 None \<Rightarrow> None
               | Some port \<Rightarrow> Some (port, ''127.0.0.1:'' @ itoa port))
         else (case atoi (parts ! 1) of
                 None \<Rightarrow> None
               | Some port \<Rightarrow> Some (port, remote)))"

text \<open>No socket option can fail here: \<open>dialled\<close> is the answer to the dial alone.\<close>

definition stub_attemptTcpDialer :: "bool \<Rightarrow> dial_env \<Rightarrow> conn option \<times> effect list" where
  "stub_attemptTcpDialer nodelay env =
     (if \<not> dns_ok env then (None, [])
      else case dialled env of
        None \<Rightarrow> (None, [])
      | Some c \<Rightarrow>
          if \<not> is_tcp c then (None, [Close (cid c)])
          else if \<not> nodelay \<and> \<not> nodelay_ok env then (None, [Close (cid c)])
          else (Some c, []))"

text \<open>The retry loop, counting the tries left; \<open>i\<close> is the next one.\<close>

fun stub_tries :: "(nat \<Rightarrow> 'c option \<times> effect list) \<Rightarrow> nat \<Rightarrow> nat \<Rightarrow> int \<Rightarrow> 'c option \<times> effect list" where
  "stub_tries attempt 0 i backoff = (None, [])"
| "stub_tries attempt (Suc left) i backoff =
     (case attempt i of
        (Some c, es) \<Rightarrow> (Some c, es)
      | (None, es) \<Rightarrow>
          if left = 0 then (None, es)
          else (let (r, fs) = stub_tries attempt left (i + 1) (backoff * 2) in (r, es @ Sleep backoff # fs)))"

definition stub_TcpDialer :: "nat \<Rightarrow> bool \<Rightarrow> (nat \<Rightarrow> dial_env) \<Rightarrow> conn option \<times> effect list" where
  "stub_TcpDialer retry nodelay env = stub_tries (\<lambda>i. stub_attemptTcpDialer nodelay (env i)) retry 0 1"

definition stub_WebSocketDialer :: "nat \<Rightarrow> (nat \<Rightarrow> nat option \<times> effect list) \<Rightarrow> nat option \<times> effect list" where
  "stub_WebSocketDialer retry attempt = stub_tries attempt retry 0 1"

section \<open>The WebSocket request\<close>

text \<open>Only the tunnel path gets the random user id; there are three headers.\<close>

definition stub_attemptDialWebSocket ::
    "int \<Rightarrow> string \<Rightarrow> string \<Rightarrow> string \<Rightarrow> string \<Rightarrow> string \<Rightarrow> TransportType \<Rightarrow> ws_request option" where
  "stub_attemptDialWebSocket uid agent addr edgeIP path token mode =
     (let hs = [(''Authorization'', ''Bearer '' @ token), (''X-User-Id'', itoa uid), (''User-Agent'', agent)];
          edge = (if edgeIP \<noteq> '''' then
                    (case split_host_port addr of
                       None \<Rightarrow> None
                     | Some (_, port) \<Rightarrow> Some (edgeIP @ '':'' @ port))
                  else Some addr);
          p = (if path \<noteq> ''/channel'' then path @ ''/'' @ itoa uid else path)
      in case edge of
           None \<Rightarrow> None
         | Some e \<Rightarrow>
             if mode = WS \<or> mode = WSMUX
             then Some \<lparr>url = ''ws://'' @ addr @ p, request_path = p, headers = hs, dial_address = e, use_tls = False\<rparr>
             else if mode = WSS \<or> mode = WSSMUX
             then Some \<lparr>url = ''wss://'' @ addr @ p, request_path = p, headers = hs, dial_address = e, use_tls = True\<rparr>
             else None)"

section \<open>The contract of the two builds\<close>

lemma stub_resolves: "stub_ResolveRemoteAddr = ResolveRemoteAddr"
  by (intro ext) (simp add: stub_ResolveRemoteAddr_def ResolveRemoteAddr_def)

lemma stub_attempts: "stub_attemptTcpDialer = attemptTcpDialer"
  by (intro ext) (simp add: stub_attemptTcpDialer_def attemptTcpDialer_def)

lemma stub_tries_loop: "stub_tries attempt left i backoff = dial_loop attempt (i + left) i backoff"
proof (induction left arbitrary: i backoff)
  case (Suc left)
  show ?case
    using Suc.IH [of "i + 1" "backoff * 2"]
    by (subst dial_loop.simps) (auto split: prod.splits option.splits)
qed (simp add: dial_loop.simps)

lemma stub_dials: "stub_TcpDialer = TcpDialer" "stub_WebSocketDialer = WebSocketDialer"
  by (intro ext, simp add: stub_TcpDialer_def TcpDialer_def stub_WebSocketDialer_def WebSocketDialer_def
      stub_tries_loop stub_attempts)+

text \<open>Both requests go to the same place with the same token, if either is made at all.\<close>

definition edge_address :: "string \<Rightarrow> string \<Rightarrow> string option" where
  "edge_address addr edgeIP =
     (if edgeIP \<noteq> '''' then (case split_host_port addr of None \<Rightarrow> None | Some (_, port) \<Rightarrow> Some (edgeIP @ '':'' @ port))
      else Some addr)"

lemma stub_request_None:
  "stub_attemptDialWebSocket uid agent addr edgeIP path token mode = None \<longleftrightarrow>
     attemptDialWebSocket rnd uid' agent' addr edgeIP path' token' mode = None"
  by (simp add: stub_attemptDialWebSocket_def attemptDialWebSocket_def Let_def split: option.split prod.split)

lemma request_fields:
  assumes "attemptDialWebSocket rnd uid agent addr edgeIP path token mode = Some q"
  shows "edge_address addr edgeIP = Some (dial_address q) \<and> (use_tls q \<longleftrightarrow> \<not> (mode = WS \<or> mode = WSMUX)) \<and>
     request_path q = generateObfuscatedPath rnd path uid \<and>
     map_of (headers q) ''Authorization'' = Some (''Bearer '' @ token)"
proof -
  obtain e where e: "edge_address addr edgeIP = Some e"
    using assms unfolding attemptDialWebSocket_def Let_def edge_address_def [symmetric]
    by (cases "edge_address addr edgeIP") simp_all
  show ?thesis
    using assms unfolding attemptDialWebSocket_def Let_def edge_address_def [symmetric] e option.case
    by (cases "mode = WS \<or> mode = WSMUX"; cases "mode = WSS \<or> mode = WSSMUX")
       (auto simp: generateObfuscatedHeaders_def)
qed

lemma stub_request_fields:
  assumes "stub_attemptDialWebSocket uid agent addr edgeIP path token mode = Some q"
  shows "edge_address addr edgeIP = Some (dial_address q) \<and> (use_tls q \<longleftrightarrow> \<not> (mode = WS \<or> mode = WSMUX)) \<and>
     request_path q = (if path \<noteq> ''/channel'' then path @ ''/'' @ itoa uid else path) \<and>
     map_of (headers q) ''Authorization'' = Some (''Bearer '' @ token)"
proof -
  obtain e where e: "edge_address addr edgeIP = Some e"
    using assms unfolding stub_attemptDialWebSocket_def Let_def edge_address_def [symmetric]
    by (cases "edge_address addr edgeIP") simp_all
  show ?thesis
    using assms unfolding stub_attemptDialWebSocket_def Let_def edge_address_def [symmetric] e option.case
    by (cases "mode = WS \<or> mode = WSMUX"; cases "mode = WSS \<or> mode = WSSMUX") auto
qed

lemma stub_request_Some:
  assumes "stub_attemptDialWebSocket uid agent addr edgeIP path token mode = Some p"
    and "attemptDialWebSocket rnd uid agent addr edgeIP path token mode = Some q"
  shows "dial_address p = dial_address q \<and> use_tls p = use_tls q \<and>
     map_of (headers p) ''Authorization'' = map_of (headers q) ''Authorization'' \<and>
     request_path p = (if path = ''/channel'' then path else request_path q)"
  using stub_request_fields [OF assms(1)] request_fields [OF assms(2)]
  by (simp add: generateObfuscatedPath_def)

end
