(* ===== verification/App.thy ===== *)
theory App
  imports Config
begin

text \<open>
  The life of the process, \<open>main.go\<close>: the running instance, the tuner, the hot reload of the
  configuration file and the shutdown on signals. Contexts are numbers, an instance is the context
  \<open>cmd.Run\<close> was given; an instance lives until its context is cancelled.
\<close>

section \<open>State and events\<close>

datatype exit = Graceful | Forced | FatalExit

record app =
  autoTune :: bool
  cur :: nat
  cancelled :: "nat list"
  instances :: "nat list"
  tuning :: bool
  lastModTime :: int
  reloading :: "int option"
  watching :: bool
  signalled :: bool
  exited :: "exit option"

text \<open>What \<open>cmd.Run\<close> does with the file: an instance, or the end of the process.\<close>

definition runs :: "(string \<Rightarrow> bool) \<Rightarrow> string option \<Rightarrow> Config option \<Rightarrow> bool" where
  "runs parse_level getwd decoded =
     (case Run parse_level getwd decoded of RunServer _ _ \<Rightarrow> True | RunClient _ _ \<Rightarrow> True | _ \<Rightarrow> False)"

text \<open>
  \<open>main\<close> up to the wait: the decoded file, the flag of the tuner and the modification time the watcher starts
  with, \<open>None\<close> when it cannot be read. Without an instance or a time the process ends at once.
\<close>

definition main_start :: "(string \<Rightarrow> bool) \<Rightarrow> string option \<Rightarrow> Config option \<Rightarrow> bool \<Rightarrow> int option \<Rightarrow> app" where
  "main_start parse_level getwd decoded tune stat =
     (let ok = runs parse_level getwd decoded
      in \<lparr>autoTune = tune, cur = 0, cancelled = [], instances = (if ok then [0] else []), tuning = (tune \<and> ok),
          lastModTime = (case stat of None \<Rightarrow> 0 | Some m \<Rightarrow> m), reloading = None, watching = True, signalled = False,
          exited = (if ok \<and> stat \<noteq> None then None else Some FatalExit)\<rparr>)"

text \<open>
  The events. \<open>Tick\<close> is the ticker of \<open>hotReload\<close> with the modification time it reads, \<open>Reloaded\<close> the end of
  its three seconds of sleep with the decoded file, \<open>WatchEnds\<close> its other case; \<open>Signal\<close> a signal,
  \<open>ForceTimer\<close> the five seconds after the first one, \<open>MainReturns\<close> the end of \<open>wg.Wait()\<close> in \<open>main\<close>.
\<close>

datatype app_event =
    Tick "int option"
  | Reloaded "Config option"
  | WatchEnds
  | Signal
  | ForceTimer
  | MainReturns

definition hotReload_tick :: "int option \<Rightarrow> app \<Rightarrow> app option" where
  "hotReload_tick stat a =
     (if \<not> watching a \<or> reloading a \<noteq> None then None
      else case stat of
        None \<Rightarrow> Some a
      | Some modTime \<Rightarrow>
          if modTime > lastModTime a
          then Some (a\<lparr>tuning := (if autoTune a then False else tuning a),
                       cancelled := cur a # cancelled a, reloading := Some modTime\<rparr>)
          else Some a)"

definition hotReload_restart ::
    "(string \<Rightarrow> bool) \<Rightarrow> string option \<Rightarrow> Config option \<Rightarrow> app \<Rightarrow> app option" where
  "hotReload_restart parse_level getwd decoded a =
     (case reloading a of
        None \<Rightarrow> None
      | Some modTime \<Rightarrow>
          (let c = cur a + 1; a' = a\<lparr>cur := c, lastModTime := modTime, reloading := None\<rparr>
           in if runs parse_level getwd decoded
              then Some (a'\<lparr>instances := instances a @ [c], tuning := (if autoTune a then True else tuning a)\<rparr>)
              else Some (a'\<lparr>exited := Some FatalExit\<rparr>)))"

definition hotReload_ends :: "app \<Rightarrow> app option" where
  "hotReload_ends a =
     (if watching a \<and> reloading a = None \<and> cur a \<in> set (cancelled a) then Some (a\<lparr>watching := False\<rparr>) else None)"

definition handleShutdown :: "app \<Rightarrow> app" where
  "handleShutdown a =
     (if signalled a then a\<lparr>tuning := (if autoTune a then False else tuning a), exited := Some Forced\<rparr>
      else a\<lparr>signalled := True, cancelled := cur a # cancelled a,
             tuning := (if autoTune a then False else tuning a)\<rparr>)"

definition forceShutdown :: "app \<Rightarrow> app option" where
  "forceShutdown a =
     (if signalled a then Some (a\<lparr>tuning := (if autoTune a then False else tuning a), exited := Some Forced\<rparr>) else None)"

text \<open>The first goroutine waits for the first context, the reloaded ones do not wait.\<close>

definition main_returns :: "app \<Rightarrow> app option" where
  "main_returns a = (if \<not> watching a \<and> 0 \<in> set (cancelled a) then Some (a\<lparr>exited := Some Graceful\<rparr>) else None)"

definition app_step ::
    "(string \<Rightarrow> bool) \<Rightarrow> string option \<Rightarrow> app_event \<Rightarrow> app \<Rightarrow> app option" where
  "app_step parse_level getwd ev a =
     (if exited a \<noteq> None then None
      else case ev of
        Tick stat \<Rightarrow> hotReload_tick stat a
      | Reloaded decoded \<Rightarrow> hotReload_restart parse_level getwd decoded a
      | WatchEnds \<Rightarrow> hotReload_ends a
      | Signal \<Rightarrow> Some (handleShutdown a)
      | ForceTimer \<Rightarrow> forceShutdown a
      | MainReturns \<Rightarrow> main_returns a)"

fun app_run :: "(string \<Rightarrow> bool) \<Rightarrow> string option \<Rightarrow> app_event list \<Rightarrow> app \<Rightarrow> app option" where
  "app_run pl wd [] a = Some a"
| "app_run pl wd (ev # evs) a = (case app_step pl wd ev a of None \<Rightarrow> None | Some a' \<Rightarrow> app_run pl wd evs a')"

definition live_instances :: "app \<Rightarrow> nat list" where
  "live_instances a = filter (\<lambda>i. i \<notin> set (cancelled a)) (instances a)"

lemmas app_defs = app_step_def hotReload_tick_def hotReload_restart_def hotReload_ends_def handleShutdown_def
  forceShutdown_def main_returns_def

section \<open>Invariants\<close>

definition app_inv :: "app \<Rightarrow> bool" where
  "app_inv a \<longleftrightarrow>
     distinct (instances a) \<and> (\<forall>i\<in>set (instances a). i \<le> cur a \<and> (i < cur a \<longrightarrow> i \<in> set (cancelled a))) \<and>
     (\<forall>i\<in>set (cancelled a). i \<le> cur a) \<and> (tuning a \<longrightarrow> autoTune a) \<and>
     (reloading a \<noteq> None \<longrightarrow> cur a \<in> set (cancelled a) \<and> watching a) \<and>
     (\<not> signalled a \<and> watching a \<and> reloading a = None \<and> exited a = None \<longrightarrow>
        cur a \<notin> set (cancelled a) \<and> cur a \<in> set (instances a))"

lemma tick_inv: "hotReload_tick stat a = Some a' \<Longrightarrow> app_inv a \<Longrightarrow> app_inv a'"
  by (cases stat) (auto simp: hotReload_tick_def app_inv_def split: if_splits)

lemma restart_inv: "hotReload_restart pl wd decoded a = Some a' \<Longrightarrow> app_inv a \<Longrightarrow> app_inv a'"
proof -
  assume r: "hotReload_restart pl wd decoded a = Some a'" and i: "app_inv a"
  then obtain m where m: "reloading a = Some m" by (auto simp: hotReload_restart_def split: option.splits)
  have c: "cur a \<in> set (cancelled a)" "watching a" "distinct (instances a)"
    "\<forall>i\<in>set (instances a). i \<le> cur a \<and> (i < cur a \<longrightarrow> i \<in> set (cancelled a))"
    "\<forall>i\<in>set (cancelled a). i \<le> cur a" "tuning a \<longrightarrow> autoTune a"
    using i m by (simp_all add: app_inv_def)
  have new: "cur a + 1 \<notin> set (instances a)" "cur a + 1 \<notin> set (cancelled a)" using c(4,5) by auto
  have old: "\<forall>i\<in>set (instances a). i \<le> cur a + 1 \<and> (i < cur a + 1 \<longrightarrow> i \<in> set (cancelled a))"
  proof
    fix i assume "i \<in> set (instances a)"
    with c(4) have "i \<le> cur a" "i < cur a \<longrightarrow> i \<in> set (cancelled a)" by auto
    with c(1) show "i \<le> cur a + 1 \<and> (i < cur a + 1 \<longrightarrow> i \<in> set (cancelled a))"
      by (cases "i = cur a") simp_all
  qed
  have le: "\<forall>i\<in>set (cancelled a). i \<le> cur a + 1" using c(5) by (simp add: le_SucI)
  show ?thesis
  proof (cases "runs pl wd decoded")
    case True
    with r m have "a' = a\<lparr>cur := cur a + 1, lastModTime := m, reloading := None,
        instances := instances a @ [cur a + 1], tuning := (if autoTune a then True else tuning a)\<rparr>"
      by (simp add: hotReload_restart_def)
    with new old le c show ?thesis by (cases "autoTune a") (simp_all add: app_inv_def)
  next
    case False
    with r m have "a' = a\<lparr>cur := cur a + 1, lastModTime := m, reloading := None, exited := Some FatalExit\<rparr>"
      by (simp add: hotReload_restart_def)
    with old le c show ?thesis by (simp add: app_inv_def)
  qed
qed

lemma ends_inv: "hotReload_ends a = Some a' \<Longrightarrow> app_inv a \<Longrightarrow> app_inv a'"
proof -
  assume "hotReload_ends a = Some a'" and i: "app_inv a"
  then have "a' = a\<lparr>watching := False\<rparr>" "reloading a = None" by (simp_all add: hotReload_ends_def split: if_splits)
  with i show ?thesis by (simp add: app_inv_def)
qed

lemma shutdown_inv: "app_inv a \<Longrightarrow> app_inv (handleShutdown a)"
  by (cases "autoTune a") (simp_all add: handleShutdown_def app_inv_def)

lemma force_inv: "forceShutdown a = Some a' \<Longrightarrow> app_inv a \<Longrightarrow> app_inv a'"
proof -
  assume "forceShutdown a = Some a'" and i: "app_inv a"
  then have "a' = a\<lparr>tuning := (if autoTune a then False else tuning a), exited := Some Forced\<rparr>"
    by (simp add: forceShutdown_def split: if_splits)
  with i show ?thesis by (cases "autoTune a") (simp_all add: app_inv_def)
qed

lemma returns_inv: "main_returns a = Some a' \<Longrightarrow> app_inv a \<Longrightarrow> app_inv a'"
proof -
  assume "main_returns a = Some a'" and i: "app_inv a"
  then have "a' = a\<lparr>exited := Some Graceful\<rparr>" by (simp add: main_returns_def split: if_splits)
  with i show ?thesis by (simp add: app_inv_def)
qed

lemma app_step_cases:
  assumes "app_step pl wd ev a = Some a'"
  obtains (tick) stat where "ev = Tick stat" "hotReload_tick stat a = Some a'"
  | (reloaded) decoded where "ev = Reloaded decoded" "hotReload_restart pl wd decoded a = Some a'"
  | (watch) "ev = WatchEnds" "hotReload_ends a = Some a'"
  | (signal) "ev = Signal" "a' = handleShutdown a"
  | (force) "ev = ForceTimer" "forceShutdown a = Some a'"
  | (returns) "ev = MainReturns" "main_returns a = Some a'"
  using assms by (cases ev) (simp_all add: app_step_def split: if_splits)

lemma app_step_inv: "app_step pl wd ev a = Some a' \<Longrightarrow> app_inv a \<Longrightarrow> app_inv a'"
  by (erule app_step_cases) (auto intro: tick_inv restart_inv ends_inv shutdown_inv force_inv returns_inv)

lemma app_run_inv: "app_run pl wd evs a = Some a' \<Longrightarrow> app_inv a \<Longrightarrow> app_inv a'"
  by (induction evs arbitrary: a) (auto split: option.splits dest: app_step_inv)

lemma app_run_not_exited: "app_run pl wd evs a = Some a' \<Longrightarrow> exited a' = None \<Longrightarrow> exited a = None"
  by (cases evs) (auto simp: app_step_def split: option.splits if_splits)

lemma start_inv: "app_inv (main_start pl wd cfg tune stat)"
  by (auto simp: app_inv_def main_start_def Let_def)

lemma distinct_all_same: "distinct xs \<Longrightarrow> (\<forall>x\<in>set xs. x = c) \<Longrightarrow> length xs \<le> 1"
  by (cases xs; cases "tl xs") auto

text \<open>
  C18. Reloads never overlap: at every moment of every run of the process at most one instance is alive,
  it is the one of the current context, none is alive while a reload waits, and outside of reloads,
  until a signal, exactly one is, with the tuner running only if it was not disabled.
\<close>

theorem one_instance_at_a_time:
  assumes "app_run pl wd evs (main_start pl wd cfg tune stat) = Some a"
  shows "length (live_instances a) \<le> 1 \<and> set (live_instances a) \<subseteq> {cur a} \<and>
         (reloading a \<noteq> None \<longrightarrow> live_instances a = []) \<and>
         (\<not> signalled a \<and> watching a \<and> reloading a = None \<and> exited a = None \<longrightarrow> live_instances a = [cur a]) \<and>
         (tuning a \<longrightarrow> tune)"
proof -
  have inv: "app_inv a" using app_run_inv [OF assms start_inv] .
  have "autoTune a = tune"
  proof -
    have "app_step pl wd ev b = Some b' \<Longrightarrow> autoTune b' = autoTune b" for ev b b'
      by (cases ev) (auto simp: app_defs Let_def split: if_splits option.splits)
    then have "app_run pl wd evs b = Some b' \<Longrightarrow> autoTune b' = autoTune b" for b b'
      by (induction evs arbitrary: b) (auto split: option.splits)
    with assms show ?thesis by (simp add: main_start_def Let_def)
  qed
  then have tune: "tuning a \<longrightarrow> tune" using inv by (simp add: app_inv_def)
  have sub: "\<forall>i\<in>set (live_instances a). i = cur a"
    using inv by (auto simp: app_inv_def live_instances_def)
  have one: "length (live_instances a) \<le> 1"
    using distinct_all_same [OF _ sub] inv by (simp add: app_inv_def live_instances_def)
  have none: "live_instances a = []" if "reloading a \<noteq> None"
  proof -
    have "cur a \<notin> set (live_instances a)" using that inv by (simp add: app_inv_def live_instances_def)
    with sub show ?thesis by (cases "live_instances a") auto
  qed
  have some: "live_instances a = [cur a]"
    if "\<not> signalled a" "watching a" "reloading a = None" "exited a = None"
  proof -
    have "cur a \<in> set (live_instances a)" using that inv by (simp add: app_inv_def live_instances_def)
    with one show ?thesis by (cases "live_instances a"; cases "tl (live_instances a)") auto
  qed
  from tune sub one none some show ?thesis by blast
qed

text \<open>A configuration file that is enough to run a server.\<close>

definition some_server :: Config where
  "some_server = \<lparr>Server = Some (zeroServer\<lparr>s_BindAddr := ''0.0.0.0:3080''\<rparr>), Client = None\<rparr>"

lemma runs_some_server: "runs pl wd (Some some_server)"
  by (simp add: runs_def Run_def loadConfig_def some_server_def applyDefaults_def serverDefaults_def)

theorem one_instance_at_a_time_witness:
  "\<exists>a. app_run (\<lambda>l. l = ''info'') None [Tick (Some 7), Reloaded (Some some_server)] (main_start (\<lambda>l. l = ''info'') None (Some some_server) True (Some 3)) = Some a \<and>
     live_instances a = [1] \<and> length (live_instances a) \<le> 1"
proof -
  obtain a where r: "app_run (\<lambda>l. l = ''info'') None [Tick (Some 7), Reloaded (Some some_server)] (main_start (\<lambda>l. l = ''info'') None (Some some_server) True (Some 3)) = Some a"
    and s: "\<not> signalled a" "watching a" "reloading a = None" "exited a = None" "cur a = 1"
    using runs_some_server [of "\<lambda>l. l = ''info''" None]
    by (simp add: app_step_def hotReload_tick_def hotReload_restart_def main_start_def Let_def)
  from one_instance_at_a_time [OF r] r s show ?thesis by simp
qed

section \<open>Shutting down\<close>

definition doomed :: "app \<Rightarrow> bool" where
  "doomed a \<longleftrightarrow> signalled a \<and> watching a \<and> (reloading a \<noteq> None \<or> cur a \<notin> set (cancelled a)) \<and>
     exited a \<noteq> Some Graceful \<and> app_inv a"

lemma doomed_step: "app_step pl wd ev a = Some a' \<Longrightarrow> doomed a \<Longrightarrow> doomed a'"
proof -
  assume st: "app_step pl wd ev a = Some a'" and d: "doomed a"
  have inv: "app_inv a'" using app_step_inv [OF st] d by (simp add: doomed_def)
  from st show ?thesis
  proof (cases rule: app_step_cases)
    case (tick stat)
    then have "a' = a \<or> (\<exists>m. a' = a\<lparr>tuning := (if autoTune a then False else tuning a),
        cancelled := cur a # cancelled a, reloading := Some m\<rparr>)"
      by (auto simp: hotReload_tick_def split: if_splits option.splits)
    then show ?thesis using d inv by (auto simp: doomed_def)
  next
    case (reloaded decoded)
    then have "signalled a' = signalled a" "watching a' = watching a" "cur a' = cur a + 1" "cancelled a' = cancelled a"
      "exited a' \<noteq> Some Graceful"
      using d by (auto simp: hotReload_restart_def doomed_def Let_def split: option.splits if_splits)
    moreover have "cur a + 1 \<notin> set (cancelled a)" using d by (auto simp: doomed_def app_inv_def)
    ultimately show ?thesis using d inv by (simp add: doomed_def)
  next
    case watch
    then show ?thesis using d by (auto simp: hotReload_ends_def doomed_def split: if_splits)
  next
    case signal
    then show ?thesis using d inv by (simp add: doomed_def handleShutdown_def)
  next
    case force
    then have "a' = a\<lparr>tuning := (if autoTune a then False else tuning a), exited := Some Forced\<rparr>"
      by (simp add: forceShutdown_def split: if_splits)
    then show ?thesis using d inv by (simp add: doomed_def)
  next
    case returns
    then show ?thesis using d by (auto simp: main_returns_def doomed_def split: if_splits)
  qed
qed

lemma doomed_run: "app_run pl wd evs a = Some a' \<Longrightarrow> doomed a \<Longrightarrow> doomed a'"
  by (induction evs arbitrary: a) (auto split: option.splits dest: doomed_step)



text \<open>
  A reload happens exactly when the file is newer than at the last one - putting back an older
  file is not noticed - and reloading a file that names neither a server nor a client, or is no TOML, ends the process although
  an instance was running.
\<close>

theorem reload_decision:
  assumes "exited a = None" "watching a" "reloading a = None"
  shows "(\<exists>a'. app_step pl wd (Tick (Some m)) a = Some a' \<and>
            (reloading a' \<noteq> None \<longleftrightarrow> m > lastModTime a) \<and>
            (m \<le> lastModTime a \<longrightarrow> a' = a) \<and>
            (m > lastModTime a \<and> \<not> runs pl wd decoded \<longrightarrow>
               (\<exists>a2. app_step pl wd (Reloaded decoded) a' = Some a2 \<and> exited a2 = Some FatalExit))) \<and>
         \<not> runs pl wd None \<and> \<not> runs pl wd (Some \<lparr>Server = None, Client = None\<rparr>)"
  using assms
  by (auto simp: app_step_def hotReload_tick_def hotReload_restart_def Let_def runs_def Run_def loadConfig_def
      applyDefaults_def serverDefaults_def clientDefaults_def zeroServer_def zeroClient_def)

theorem reload_decision_witness:
  "\<exists>a'. app_step (\<lambda>l. l = ''info'') None (Tick (Some 9)) (main_start (\<lambda>l. l = ''info'') None (Some some_server) True (Some 3)) = Some a' \<and> reloading a' \<noteq> None"
  using reload_decision [of "main_start (\<lambda>l. l = ''info'') None (Some some_server) True (Some 3)" "\<lambda>l. l = ''info''" None 9 None] runs_some_server [of "\<lambda>l. l = ''info''" None]
  by (auto simp: main_start_def Let_def)

end
