(* ===== verification/Tuner.thy ===== *)
theory Tuner
  imports Config Complex_Main
begin

text \<open>
  The dynamic tuner, \<open>internal/tuning/tuner.go\<close> and the arithmetic of \<open>metrics.go\<close>: what it does to the
  configuration of the process, and how it adapts its interval. The metrics come from outside and are
  arguments; \<open>float64\<close> values are rationals, compared and averaged without rounding. The running transports
  copied their configuration when they were started, so nothing here reaches them.
\<close>

section \<open>Metrics\<close>

text \<open>\<open>GetPacketLossAndThroughput\<close> from two readings of the counters, whose differences wrap at 64 bits.\<close>

record counters =
  BytesSent :: uint64
  BytesRecv :: uint64
  PacketsSent :: uint64
  PacketsRecv :: uint64
  Dropin :: uint64
  Dropout :: uint64

definition GetPacketLossAndThroughput :: "counters \<Rightarrow> counters \<Rightarrow> rat \<times> rat" where
  "GetPacketLossAndThroughput first second =
     (let throughput = of_nat (unat ((BytesSent second + BytesRecv second) - (BytesSent first + BytesRecv first)));
          totalPackets = of_nat (unat ((PacketsSent second + PacketsRecv second) - (PacketsSent first + PacketsRecv first)));
          lostPackets = of_nat (unat ((Dropin second + Dropout second) - (Dropin first + Dropout first)))
      in (if 0 < totalPackets then lostPackets / totalPackets * 100 else 0, throughput))"

text \<open>
  One round of measurements. A failed CPU or memory reading is logged and then used as 0; \<open>latency\<close> is
  \<open>None\<close> when no connection could be made, and its value is then 0 as well.
\<close>

record measures =
  cpuUsage :: "rat option"
  memUsage :: "rat option"
  latency :: "int option"
  traffic :: "(rat \<times> rat) option"

definition or_zero :: "'a::zero option \<Rightarrow> 'a" where
  "or_zero x = (case x of None \<Rightarrow> 0 | Some v \<Rightarrow> v)"

definition adjustDown :: "measures \<Rightarrow> bool" where
  "adjustDown m \<longleftrightarrow>
     or_zero (latency m) > 200 \<or> or_zero (cpuUsage m) > 80 \<or> or_zero (memUsage m) > 80 \<or>
     (case traffic m of None \<Rightarrow> 0 | Some (loss, _) \<Rightarrow> loss) > 2"

definition adjustUp :: "measures \<Rightarrow> bool" where
  "adjustUp m \<longleftrightarrow>
     or_zero (latency m) < 70 \<and> or_zero (cpuUsage m) < 60 \<and> or_zero (memUsage m) < 60 \<and>
     (case traffic m of None \<Rightarrow> 0 | Some (loss, _) \<Rightarrow> loss) < 1 \<and>
     (case traffic m of None \<Rightarrow> 0 | Some (_, throughput) \<Rightarrow> throughput) > 0"

section \<open>Adjusting the parameters\<close>

definition clamp :: "int \<Rightarrow> int \<Rightarrow> int \<Rightarrow> int" where
  "clamp lo hi x = (let y = (if x < lo then lo else x) in if y > hi then hi else y)"

definition target :: "measures \<Rightarrow> int \<Rightarrow> int \<Rightarrow> int \<Rightarrow> int" where
  "target m down up base = (if adjustDown m then down else if adjustUp m then up else base)"

text \<open>A parameter moves to its target only from at least \<open>step\<close> away.\<close>

definition retune :: "int \<Rightarrow> int \<Rightarrow> int \<Rightarrow> int" where
  "retune step goal old = (if \<bar>old - goal\<bar> \<ge> step then goal else old)"

definition adjust_pool :: "measures \<Rightarrow> int \<Rightarrow> int" where
  "adjust_pool m pool =
     (if or_zero (cpuUsage m) > 85 \<or> or_zero (memUsage m) > 85
      then (if pool > 1 then pool - 1 else pool)
      else if or_zero (cpuUsage m) < 50 \<and> or_zero (memUsage m) < 50
      then (if pool < 64 then pool + 1 else pool)
      else pool)"

definition adjust_channel :: "measures \<Rightarrow> int \<Rightarrow> int" where
  "adjust_channel m chsize =
     (if or_zero (memUsage m) > 80 then (if chsize > 256 then go_div chsize 2 else chsize)
      else if or_zero (memUsage m) < 40 then (if chsize < 8192 then chsize * 2 else chsize)
      else chsize)"

definition keepalive_target :: "measures \<Rightarrow> int" where
  "keepalive_target m = clamp 10 180 (target m 10 180 75)"

text \<open>Server and client keepalive: when only one of two moves, the other follows.\<close>

definition adjust_keepalive :: "measures \<Rightarrow> Config \<Rightarrow> Config" where
  "adjust_keepalive m c =
     (let t = keepalive_target m;
          s_moves = (case Server c of None \<Rightarrow> False | Some s \<Rightarrow> \<bar>s_Keepalive s - t\<bar> \<ge> 5);
          c_moves = (case Client c of None \<Rightarrow> False | Some k \<Rightarrow> \<bar>c_Keepalive k - t\<bar> \<ge> 5);
          both = (Server c \<noteq> None \<and> Client c \<noteq> None)
      in c\<lparr>Server := map_option (\<lambda>s. if s_moves \<or> both \<and> c_moves then s\<lparr>s_Keepalive := t\<rparr> else s) (Server c),
           Client := map_option (\<lambda>k. if c_moves \<or> both \<and> s_moves then k\<lparr>c_Keepalive := t\<rparr> else k) (Client c)\<rparr>)"

definition adjust_mux :: "measures \<Rightarrow> ServerConfig \<Rightarrow> ServerConfig" where
  "adjust_mux m s =
     s\<lparr>s_MaxFrameSize := retune 8192 (clamp 16384 131072 (target m 16384 131072 32768)) (s_MaxFrameSize s),
       s_MaxReceiveBuffer :=
         retune 1048576 (clamp 1048576 16777216 (target m 1048576 16777216 4194304)) (s_MaxReceiveBuffer s),
       s_MaxStreamBuffer :=
         retune 65536 (clamp 65536 1048576 (target m 65536 1048576 262144)) (s_MaxStreamBuffer s)\<rparr>"

definition adjust_heartbeat :: "measures \<Rightarrow> ServerConfig \<Rightarrow> ServerConfig" where
  "adjust_heartbeat m s =
     s\<lparr>s_Heartbeat := retune 15 (clamp 10 120 (target m 120 10 40)) (s_Heartbeat s),
       s_MuxCon := retune 2 (clamp 2 32 (target m 2 32 8)) (s_MuxCon s)\<rparr>"

definition map_server :: "(ServerConfig \<Rightarrow> ServerConfig) \<Rightarrow> Config \<Rightarrow> Config" where
  "map_server f c = c\<lparr>Server := map_option f (Server c)\<rparr>"

definition map_client :: "(ClientConfig \<Rightarrow> ClientConfig) \<Rightarrow> Config \<Rightarrow> Config" where
  "map_client f c = c\<lparr>Client := map_option f (Client c)\<rparr>"

definition adjustParameters :: "measures \<Rightarrow> Config \<Rightarrow> Config" where
  "adjustParameters m c =
     (let c1 = map_client (\<lambda>k. k\<lparr>c_ConnectionPool := adjust_pool m (c_ConnectionPool k)\<rparr>) c;
          c2 = map_server (\<lambda>s. s\<lparr>s_ChannelSize := adjust_channel m (s_ChannelSize s)\<rparr>) c1;
          c3 = (if latency m = None then c2 else adjust_keepalive m c2);
          c4 = (if latency m = None then c3 else map_server (adjust_mux m) c3)
      in map_server (adjust_heartbeat m) c4)"

section \<open>Adapting the interval\<close>

definition minute :: int where "minute = 60 * 1000000000"

definition calculateAverage :: "rat list \<Rightarrow> rat" where
  "calculateAverage values = (if values = [] then 0 else sum_list values / of_nat (length values))"

definition calculateVariance :: "rat list \<Rightarrow> rat" where
  "calculateVariance values =
     (if length values < 2 then 0
      else (let avg = calculateAverage values
            in sum_list (map (\<lambda>v. (v - avg) * (v - avg)) values) / of_nat (length values)))"

record tuner_state =
  baseInterval :: int
  currentInterval :: int
  ticker :: int
  latencyHistory :: "rat list"
  historySize :: nat

definition NewTuner :: tuner_state where
  "NewTuner = \<lparr>baseInterval = 10 * minute, currentInterval = 10 * minute, ticker = 0,
     latencyHistory = [], historySize = 10\<rparr>"

definition tuner_Start :: "int \<Rightarrow> tuner_state \<Rightarrow> tuner_state" where
  "tuner_Start interval t = t\<lparr>baseInterval := interval, currentInterval := interval, ticker := interval\<rparr>"

definition newInterval :: "int \<Rightarrow> rat list \<Rightarrow> int" where
  "newInterval base history =
     (let variance = calculateVariance history; avg = calculateAverage history
      in if variance > avg * (3 / 10)
         then (if go_div base 2 < 5 * minute then 5 * minute else go_div base 2)
         else if variance < avg * (1 / 10)
         then (let longer = go_div (base * 3) 2 in if longer > 15 * minute then 15 * minute else longer)
         else base)"

definition adjustInterval :: "int option \<Rightarrow> tuner_state \<Rightarrow> tuner_state" where
  "adjustInterval lat t =
     (case lat of
        None \<Rightarrow> t
      | Some l \<Rightarrow>
          (let h = latencyHistory t @ [of_int l];
               history = (if length h > historySize t then tl h else h);
               t1 = t\<lparr>latencyHistory := history\<rparr>
           in if length history < 3 then t1
              else (let n = newInterval (baseInterval t) history
                    in if \<bar>currentInterval t - n\<bar> > 5 * 1000000000
                       then t1\<lparr>currentInterval := n, ticker := n\<rparr>
                       else t1)))"

text \<open>The first colon ends the host, also in an IPv6 address.\<close>

definition extractHostAndPort :: "string \<Rightarrow> string \<times> string" where
  "extractHostAndPort addr =
     (case split_on (CHR '':'') addr of
        host # rest \<Rightarrow> if rest = [] then (addr, ''8443'') else (host, drop (length host + 1) addr)
      | [] \<Rightarrow> (addr, ''8443''))"

text \<open>\<open>dial\<close> is the measured time of a connection attempt.\<close>

definition getNetworkLatency :: "(string \<Rightarrow> int option) \<Rightarrow> Config \<Rightarrow> int option" where
  "getNetworkLatency dial c =
     (let google = ''8.8.8.8:53'';
          addr = (case Client c of
                    Some k \<Rightarrow>
                      if c_RemoteAddr k \<noteq> ''''
                      then (case extractHostAndPort (c_RemoteAddr k) of (h, p) \<Rightarrow> h @ '':'' @ p)
                      else (case Server c of
                              Some s \<Rightarrow> if s_BindAddr s \<noteq> '''' then ''127.0.0.1:8443'' else google
                            | None \<Rightarrow> google)
                  | None \<Rightarrow> (case Server c of
                               Some s \<Rightarrow> if s_BindAddr s \<noteq> '''' then ''127.0.0.1:8443'' else google
                             | None \<Rightarrow> google))
      in case dial addr of
           Some l \<Rightarrow> Some l
         | None \<Rightarrow> if has_prefix addr ''8.8.8.8:'' then None else dial google)"

section \<open>Reading the metrics\<close>

text \<open>
  The readings of gopsutil as the code takes them: \<open>None\<close> is an error, and an empty list of CPUs or counters counts as 0
  without one. The counters are read twice, one second apart.
\<close>

definition GetCPUUsage :: "rat list option \<Rightarrow> rat option" where
  "GetCPUUsage percentages = (case percentages of None \<Rightarrow> None | Some [] \<Rightarrow> Some 0 | Some (p # _) \<Rightarrow> Some p)"

definition GetMemoryUsage :: "rat option \<Rightarrow> rat option" where
  "GetMemoryUsage usedPercent = (case usedPercent of None \<Rightarrow> None | Some p \<Rightarrow> Some p)"

definition sampled_traffic :: "counters list option \<Rightarrow> counters list option \<Rightarrow> (rat \<times> rat) option" where
  "sampled_traffic before after =
     (case before of
        None \<Rightarrow> None
      | Some [] \<Rightarrow> Some (0, 0)
      | Some (first # _) \<Rightarrow>
          (case after of
             None \<Rightarrow> None
           | Some [] \<Rightarrow> Some (0, 0)
           | Some (second # _) \<Rightarrow> Some (GetPacketLossAndThroughput first second)))"

section \<open>The goroutine\<close>

definition absDuration :: "int \<Rightarrow> int" where
  "absDuration d = (if d < 0 then - d else d)"

definition absInt :: "int \<Rightarrow> int" where
  "absInt x = (if x < 0 then - x else x)"

lemma abs_eq [simp]: "absDuration d = \<bar>d\<bar>" "absInt x = \<bar>x\<bar>"
  by (simp_all add: absDuration_def absInt_def)

text \<open>What \<open>checkKeepaliveSync\<close> reports, if both sections are there.\<close>

datatype sync_report = Synchronized int | Desynchronized int int int

definition checkKeepaliveSync :: "Config \<Rightarrow> sync_report option" where
  "checkKeepaliveSync c =
     (case (Server c, Client c) of
        (Some s, Some k) \<Rightarrow>
          Some (if s_Keepalive s = c_Keepalive k then Synchronized (s_Keepalive s)
                else Desynchronized (s_Keepalive s) (c_Keepalive k) (absInt (s_Keepalive s - c_Keepalive k)))
      | _ \<Rightarrow> None)"

text \<open>
  The loop \<open>Start\<close> runs, and \<open>Stop\<close>, which cancels the context and returns when the loop has ended. A
  tick adjusts the parameters and then measures the latency once more for the interval.
\<close>

record tuner_run =
  tuned :: Config
  tstate :: tuner_state
  looping :: bool
  stopping :: bool

datatype tuner_event = TunerTick measures "int option" | TunerCtxDone

definition tuner_loop :: "tuner_event \<Rightarrow> tuner_run \<Rightarrow> tuner_run option" where
  "tuner_loop ev r =
     (if \<not> looping r then None
      else case ev of
        TunerTick m lat \<Rightarrow> Some (r\<lparr>tuned := adjustParameters m (tuned r), tstate := adjustInterval lat (tstate r)\<rparr>)
      | TunerCtxDone \<Rightarrow> if stopping r then Some (r\<lparr>looping := False\<rparr>) else None)"

definition tuner_Stop :: "tuner_run \<Rightarrow> tuner_run" where
  "tuner_Stop r = r\<lparr>stopping := True\<rparr>"

definition tuner_Stop_returns :: "tuner_run \<Rightarrow> bool" where
  "tuner_Stop_returns r \<longleftrightarrow> stopping r \<and> \<not> looping r"

text \<open>\<open>Stop\<close> can always return once the tick at hand is over, and no tick follows its return.\<close>

lemma tuner_stops:
  "stopping r \<Longrightarrow> looping r \<Longrightarrow> \<exists>r'. tuner_loop TunerCtxDone r = Some r' \<and> tuner_Stop_returns r'"
  "tuner_Stop_returns r \<Longrightarrow> tuner_loop ev r = None"
  by (simp_all add: tuner_loop_def tuner_Stop_returns_def)

section \<open>What the tuner keeps\<close>

lemma adjust_pool_range: "1 \<le> p \<Longrightarrow> p \<le> 64 \<Longrightarrow> 1 \<le> adjust_pool m p \<and> adjust_pool m p \<le> 64"
  by (simp add: adjust_pool_def)

lemma adjust_channel_range:
  "128 \<le> n \<Longrightarrow> n \<le> 16382 \<Longrightarrow> 128 \<le> adjust_channel m n \<and> adjust_channel m n \<le> 16382"
  by (auto simp: adjust_channel_def go_div_nonneg)

definition doublings :: "int set" where
  "doublings = {256, 512, 1024, 2048, 4096, 8192}"

lemma adjust_channel_doublings: "n \<in> doublings \<Longrightarrow> adjust_channel m n \<in> doublings"
  by (auto simp: doublings_def adjust_channel_def go_div_nonneg)

lemma target_clamped:
  "lo \<le> d \<Longrightarrow> d \<le> hi \<Longrightarrow> lo \<le> u \<Longrightarrow> u \<le> hi \<Longrightarrow> lo \<le> b \<Longrightarrow> b \<le> hi \<Longrightarrow>
     clamp lo hi (target m d u b) = target m d u b"
  by (simp add: clamp_def target_def Let_def)

lemma target_cases: "target m d u b \<in> {d, u, b}"
  by (simp add: target_def)

lemma retune_cases: "retune step goal old \<in> {goal, old}"
  by (simp add: retune_def)

text \<open>One round with both sections present, value by value.\<close>

definition adjusted :: "measures \<Rightarrow> ServerConfig \<Rightarrow> ClientConfig \<Rightarrow> ServerConfig \<Rightarrow> ClientConfig \<Rightarrow> bool" where
  "adjusted m s k s' k' \<longleftrightarrow>
     (let t = target m 10 180 75; move = latency m \<noteq> None \<and> (\<bar>s_Keepalive s - t\<bar> \<ge> 5 \<or> \<bar>c_Keepalive k - t\<bar> \<ge> 5);
          known = (latency m \<noteq> None)
      in k' = k\<lparr>c_ConnectionPool := adjust_pool m (c_ConnectionPool k),
                c_Keepalive := (if move then t else c_Keepalive k)\<rparr> \<and>
         s' = s\<lparr>s_ChannelSize := adjust_channel m (s_ChannelSize s),
                s_Keepalive := (if move then t else s_Keepalive s),
                s_MaxFrameSize := (if known then retune 8192 (target m 16384 131072 32768) (s_MaxFrameSize s)
                  else s_MaxFrameSize s),
                s_MaxReceiveBuffer := (if known then retune 1048576 (target m 1048576 16777216 4194304) (s_MaxReceiveBuffer s)
                  else s_MaxReceiveBuffer s),
                s_MaxStreamBuffer := (if known then retune 65536 (target m 65536 1048576 262144) (s_MaxStreamBuffer s)
                  else s_MaxStreamBuffer s),
                s_Heartbeat := retune 15 (target m 120 10 40) (s_Heartbeat s),
                s_MuxCon := retune 2 (target m 2 32 8) (s_MuxCon s)\<rparr>)"

lemma adjusted_round:
  "\<exists>s' k'. adjustParameters m \<lparr>Server = Some s, Client = Some k\<rparr> = \<lparr>Server = Some s', Client = Some k'\<rparr> \<and>
     adjusted m s k s' k'"
  by (simp add: adjusted_def adjustParameters_def map_server_def map_client_def adjust_keepalive_def
      adjust_mux_def adjust_heartbeat_def keepalive_target_def target_clamped Let_def)

text \<open>The tuner's rounds over a run of measurements.\<close>

definition tune :: "measures list \<Rightarrow> Config \<Rightarrow> Config" where
  "tune ms c = fold adjustParameters ms c"

definition tuned_ok :: "ServerConfig \<Rightarrow> ClientConfig \<Rightarrow> Config \<Rightarrow> bool" where
  "tuned_ok s0 k0 c \<longleftrightarrow>
     (\<exists>s k. Server c = Some s \<and> Client c = Some k \<and>
       1 \<le> c_ConnectionPool k \<and> c_ConnectionPool k \<le> 64 \<and>
       128 \<le> s_ChannelSize s \<and> s_ChannelSize s \<le> 16382 \<and>
       (s_ChannelSize s0 \<in> doublings \<longrightarrow> s_ChannelSize s \<in> doublings) \<and>
       s_Keepalive s \<in> {s_Keepalive s0, 10, 75, 180} \<and>
       c_Keepalive k \<in> {c_Keepalive k0, 10, 75, 180} \<and>
       s_Heartbeat s \<in> {s_Heartbeat s0, 10, 40, 120} \<and>
       s_MuxCon s \<in> {s_MuxCon s0, 2, 8, 32} \<and>
       s_MaxFrameSize s \<in> {s_MaxFrameSize s0, 16384, 32768, 131072})"

lemma retune_target:
  assumes "old \<in> A" "{d, u, b} \<subseteq> A"
  shows "retune step (target m d u b) old \<in> A"
proof -
  have "target m d u b \<in> A" using target_cases assms(2) by (rule set_rev_mp)
  with assms(1) show ?thesis by (simp add: retune_def)
qed

lemma tuned_ok_step:
  assumes "tuned_ok s0 k0 c"
  shows "tuned_ok s0 k0 (adjustParameters m c)"
proof -
  from assms obtain s k where sk: "Server c = Some s" "Client c = Some k"
    unfolding tuned_ok_def by blast
  then have c: "c = \<lparr>Server = Some s, Client = Some k\<rparr>" by (cases c) simp
  obtain s' k' where a: "adjustParameters m c = \<lparr>Server = Some s', Client = Some k'\<rparr>" and
    f: "adjusted m s k s' k'"
    using adjusted_round [of m s k] unfolding c by blast
  have t: "target m 10 180 75 \<in> {x, 10, 75, 180}" for x
    using target_cases by (rule set_rev_mp) simp
  have old: "1 \<le> c_ConnectionPool k" "c_ConnectionPool k \<le> 64" "128 \<le> s_ChannelSize s" "s_ChannelSize s \<le> 16382"
    "s_ChannelSize s0 \<in> doublings \<longrightarrow> s_ChannelSize s \<in> doublings"
    "s_Keepalive s \<in> {s_Keepalive s0, 10, 75, 180}" "c_Keepalive k \<in> {c_Keepalive k0, 10, 75, 180}"
    "s_Heartbeat s \<in> {s_Heartbeat s0, 10, 40, 120}" "s_MuxCon s \<in> {s_MuxCon s0, 2, 8, 32}"
    "s_MaxFrameSize s \<in> {s_MaxFrameSize s0, 16384, 32768, 131072}"
    using assms unfolding c tuned_ok_def by simp_all
  have ka: "s_Keepalive s' \<in> {target m 10 180 75, s_Keepalive s}" "c_Keepalive k' \<in> {target m 10 180 75, c_Keepalive k}"
    using f by (simp_all add: adjusted_def Let_def)
  have "s_Keepalive s' \<in> {s_Keepalive s0, 10, 75, 180}"
    using ka(1) old(6) t [of "s_Keepalive s0"] by (metis insertE singletonD)
  moreover have "c_Keepalive k' \<in> {c_Keepalive k0, 10, 75, 180}"
    using ka(2) old(7) t [of "c_Keepalive k0"] by (metis insertE singletonD)
  moreover have "s_Heartbeat s' \<in> {s_Heartbeat s0, 10, 40, 120}"
  proof -
    have "s_Heartbeat s' = retune 15 (target m 120 10 40) (s_Heartbeat s)" using f by (simp add: adjusted_def Let_def)
    moreover have "\<dots> \<in> {s_Heartbeat s0, 10, 40, 120}" by (rule retune_target) (use old in simp_all)
    ultimately show ?thesis by simp
  qed
  moreover have "s_MuxCon s' \<in> {s_MuxCon s0, 2, 8, 32}"
  proof -
    have "s_MuxCon s' = retune 2 (target m 2 32 8) (s_MuxCon s)" using f by (simp add: adjusted_def Let_def)
    moreover have "\<dots> \<in> {s_MuxCon s0, 2, 8, 32}" by (rule retune_target) (use old in simp_all)
    ultimately show ?thesis by simp
  qed
  moreover have "s_MaxFrameSize s' \<in> {s_MaxFrameSize s0, 16384, 32768, 131072}"
  proof -
    have "retune 8192 (target m 16384 131072 32768) (s_MaxFrameSize s) \<in> {s_MaxFrameSize s0, 16384, 32768, 131072}"
      by (rule retune_target) (use old in simp_all)
    then show ?thesis using f old by (simp add: adjusted_def Let_def)
  qed
  moreover have "c_ConnectionPool k' = adjust_pool m (c_ConnectionPool k)"
    "s_ChannelSize s' = adjust_channel m (s_ChannelSize s)"
    using f by (simp_all add: adjusted_def Let_def)
  ultimately show ?thesis
    unfolding a tuned_ok_def
    using old adjust_pool_range [of "c_ConnectionPool k" m] adjust_channel_range [of "s_ChannelSize s" m]
      adjust_channel_doublings [of "s_ChannelSize s" m]
    by simp
qed

lemma tune_ok: "tuned_ok s0 k0 c \<Longrightarrow> tuned_ok s0 k0 (tune ms c)"
  by (induction ms arbitrary: c) (simp_all add: tune_def tuned_ok_step)


definition idle :: measures where
  "idle = \<lparr>cpuUsage = Some 10, memUsage = Some 10, latency = Some 20, traffic = Some (0, 1000)\<rparr>"

definition strained :: measures where
  "strained = \<lparr>cpuUsage = Some 90, memUsage = Some 90, latency = None, traffic = None\<rparr>"

definition busy_config :: Config where
  "busy_config = \<lparr>Server = Some (zeroServer\<lparr>s_ChannelSize := 257\<rparr>), Client = Some (zeroClient\<lparr>c_ConnectionPool := 8\<rparr>)\<rparr>"




text \<open>
  Measurements that fail count as idle. With neither CPU nor memory readable the pool grows and the
  channel doubles up to their limits; with no latency either, but traffic without loss, heartbeat and
  \<open>mux_con\<close> go to the values for an idle system, while keepalive and the multiplexer's sizes stay.
\<close>

theorem failed_metrics_count_as_idle:
  assumes "cpuUsage m = None" "memUsage m = None" "latency m = None" "traffic m = Some (0, thr)" "0 < thr"
    and "adjustParameters m \<lparr>Server = Some s, Client = Some k\<rparr> = \<lparr>Server = Some s1, Client = Some k1\<rparr>"
    and "15 \<le> \<bar>s_Heartbeat s - 10\<bar>" "2 \<le> \<bar>s_MuxCon s - 32\<bar>"
  shows "c_ConnectionPool k1 = (if c_ConnectionPool k < 64 then c_ConnectionPool k + 1 else c_ConnectionPool k) \<and>
         s_ChannelSize s1 = (if s_ChannelSize s < 8192 then s_ChannelSize s * 2 else s_ChannelSize s) \<and>
         s_Heartbeat s1 = 10 \<and> s_MuxCon s1 = 32 \<and>
         s_Keepalive s1 = s_Keepalive s \<and> c_Keepalive k1 = c_Keepalive k \<and> s_MaxFrameSize s1 = s_MaxFrameSize s"
proof -
  have "adjusted m s k s1 k1" using adjusted_round [of m s k] assms(6) by auto
  then show ?thesis
    using assms(1-5,7,8)
    by (simp add: adjusted_def Let_def adjust_pool_def adjust_channel_def or_zero_def target_def adjustDown_def
        adjustUp_def retune_def)
qed

theorem failed_metrics_count_as_idle_witness:
  "\<exists>s1 k1. adjustParameters \<lparr>cpuUsage = None, memUsage = None, latency = None, traffic = Some (0, 1)\<rparr>
       \<lparr>Server = Some (zeroServer\<lparr>s_Heartbeat := 40\<rparr>), Client = Some zeroClient\<rparr> =
       \<lparr>Server = Some s1, Client = Some k1\<rparr> \<and> s_Heartbeat s1 = 10 \<and> s_MuxCon s1 = 32"
proof -
  let ?m = "\<lparr>cpuUsage = None, memUsage = None, latency = None, traffic = Some (0, 1)\<rparr>"
  let ?s = "zeroServer\<lparr>s_Heartbeat := 40\<rparr>"
  obtain s1 k1 where a: "adjustParameters ?m \<lparr>Server = Some ?s, Client = Some zeroClient\<rparr> =
      \<lparr>Server = Some s1, Client = Some k1\<rparr>"
    using adjusted_round by blast
  from failed_metrics_count_as_idle [OF _ _ _ _ _ a, of 1] a show ?thesis by (simp add: zeroServer_def)
qed

section \<open>What the interval does\<close>

lemma sum_list_squares: "0 \<le> sum_list (map (\<lambda>v. (v - a) * (v - a)) vs)" for a :: rat
  by (induction vs) simp_all

lemma variance_nonneg: "0 \<le> calculateVariance vs"
  by (simp add: calculateVariance_def Let_def sum_list_squares)

lemma newInterval_between:
  "5 * minute \<le> base \<Longrightarrow> base \<le> 15 * minute \<Longrightarrow>
     5 * minute \<le> newInterval base h \<and> newInterval base h \<le> 15 * minute"
  by (auto simp: newInterval_def Let_def go_div_nonneg minute_def)

lemma adjustInterval_inv:
  assumes "5 * minute \<le> baseInterval t" "baseInterval t \<le> 15 * minute"
    and "5 * minute \<le> currentInterval t" "currentInterval t \<le> 15 * minute" "ticker t = currentInterval t"
    and "length (latencyHistory t) \<le> historySize t" "t' = adjustInterval l t"
  shows "baseInterval t' = baseInterval t \<and> historySize t' = historySize t \<and>
     5 * minute \<le> currentInterval t' \<and> currentInterval t' \<le> 15 * minute \<and> ticker t' = currentInterval t' \<and>
     length (latencyHistory t') \<le> historySize t'"
  using assms newInterval_between [OF assms(1,2)]
  by (simp add: adjustInterval_def Let_def split: option.split)

text \<open>
  The interval of the tuner. With a base between 5 and 15 minutes (10 is the default) the ticker always runs at
  the current interval, which stays within 5 and 15 minutes whatever is measured, over a history of at
  most ten latencies. With a base above half an hour the two bounds cross: an unstable network is
  tuned less often than a stable one.
\<close>

theorem tuning_interval_bounds:
  assumes "5 * minute \<le> base" "base \<le> 15 * minute"
    and "30 * minute + 1 < long"
    and "calculateVariance u > calculateAverage u * (3 / 10)" "calculateVariance v < calculateAverage v * (1 / 10)"
  shows "(let t = fold adjustInterval ls (tuner_Start base NewTuner)
          in ticker t = currentInterval t \<and> 5 * minute \<le> currentInterval t \<and> currentInterval t \<le> 15 * minute \<and>
             length (latencyHistory t) \<le> 10) \<and>
         newInterval long v < newInterval long u"
proof -
  have inv: "let t' = fold adjustInterval ls t
     in ticker t' = currentInterval t' \<and> 5 * minute \<le> currentInterval t' \<and> currentInterval t' \<le> 15 * minute \<and>
        length (latencyHistory t') \<le> 10"
    if "baseInterval t = base" "historySize t = 10" "5 * minute \<le> currentInterval t"
      "currentInterval t \<le> 15 * minute" "ticker t = currentInterval t" "length (latencyHistory t) \<le> 10" for t
    using that
  proof (induction ls arbitrary: t)
    case (Cons l ls)
    from adjustInterval_inv [of t "adjustInterval l t" l] Cons.prems assms(1,2)
    have "baseInterval (adjustInterval l t) = base" "historySize (adjustInterval l t) = 10"
      "5 * minute \<le> currentInterval (adjustInterval l t)" "currentInterval (adjustInterval l t) \<le> 15 * minute"
      "ticker (adjustInterval l t) = currentInterval (adjustInterval l t)"
      "length (latencyHistory (adjustInterval l t)) \<le> 10"
      by simp_all
    then show ?case using Cons.IH by simp
  qed simp
  have "newInterval long u = long div 2"
    using assms(4) assms(3) by (simp add: newInterval_def Let_def go_div_nonneg minute_def)
  moreover have "newInterval long v = 15 * minute"
    using assms(3,5) variance_nonneg [of v]
    by (simp add: newInterval_def Let_def go_div_nonneg minute_def)
  moreover have "15 * minute < long div 2" using assms(3) by (simp add: minute_def)
  ultimately have "newInterval long v < newInterval long u" by simp
  with inv [of "tuner_Start base NewTuner"] assms(1,2) show ?thesis
    by (simp add: tuner_Start_def NewTuner_def)
qed

theorem tuning_interval_bounds_witness:
  "newInterval (60 * minute) [50, 50, 50] < newInterval (60 * minute) [10, 100, 10] \<and>
   currentInterval (fold adjustInterval [Some 10, Some 100, Some 10] (tuner_Start (10 * minute) NewTuner)) \<le> 15 * minute"
  using tuning_interval_bounds [of "10 * minute" "60 * minute" "[10, 100, 10]" "[50, 50, 50]"
      "[Some 10, Some 100, Some 10]"]
  by (simp add: calculateVariance_def calculateAverage_def minute_def Let_def)

end
