(* ===== verification/UdpFrame.thy ===== *)
theory UdpFrame
  imports Net
begin

text \<open>
  UDP over a TCP tunnel: the four loops of \<open>internal/server/transport/accept_udp.go\<close> (\<open>srv_\<close>) and
  \<open>internal/client/transport/accept_udp.go\<close> (\<open>cli_\<close>). Towards the client a datagram goes with a 2-byte
  length, towards the server with the sender's clock and a 2-byte length. The loops that write the rest
  of a packet make one pass, since a \<open>Write\<close> of a \<open>net.Conn\<close> that takes less reports an error.
\<close>

section \<open>The packets\<close>

definition BufferSize :: nat where "BufferSize = 16 * 1024"

definition srv_packet :: "bytes \<Rightarrow> bytes" where
  "srv_packet data = put_uint16 (of_nat (length data)) @ data"

definition window :: int where "window = 10 * 60 * 1000"

definition cli_packet :: "int \<Rightarrow> bytes \<Rightarrow> bytes" where
  "cli_packet now data =
     put_uint32 (of_int (now mod window)) @ put_uint16 (of_nat (length data)) @ data"

section \<open>Server to client\<close>

text \<open>
  One turn of the server's \<open>udpToTCP\<close>: whether it goes on, the bytes put on the tunnel, the traffic
  counted. The wait for a payload ends after 60 seconds.
\<close>

datatype payload_event = Payload bytes write_result | PayloadClosed | IdleTimeout

definition srv_udpToTCP :: "bool \<Rightarrow> payload_event \<Rightarrow> bool \<times> bytes \<times> nat" where
  "srv_udpToTCP sniffer ev =
     (case ev of
        PayloadClosed \<Rightarrow> (False, [], 0)
      | IdleTimeout \<Rightarrow> (False, [], 0)
      | Payload data w \<Rightarrow>
          if 65535 < length data then (True, [], 0)
          else (case do_write w (srv_packet data) of
                  (Some _, bs) \<Rightarrow> (False, bs, 0)
                | (None, bs) \<Rightarrow> (True, bs, if sniffer then length bs else 0)))"

text \<open>
  One turn of the client's \<open>tcpToUDP\<close>: the datagram it takes off the tunnel (\<open>None\<close>: it ends), what it
  writes to the UDP socket. The write loop does not run for an empty datagram.
\<close>

definition cli_read_packet :: "stream \<Rightarrow> (bytes \<times> stream) option" where
  "cli_read_packet st =
     (case read_full 2 st of
        (Inl _, _) \<Rightarrow> None
      | (Inr lenBuf, st1) \<Rightarrow>
          (let packetSize = unat (get_uint16 lenBuf)
           in if BufferSize < packetSize then None
              else (case read_full packetSize st1 of
                      (Inl _, _) \<Rightarrow> None
                    | (Inr data, st2) \<Rightarrow> Some (data, st2))))"

definition cli_tcpToUDP :: "bool \<Rightarrow> bool \<Rightarrow> stream \<Rightarrow> (bool \<times> bytes list \<times> nat \<times> stream)" where
  "cli_tcpToUDP sniffer write_ok st =
     (case cli_read_packet st of
        None \<Rightarrow> (False, [], 0, st)
      | Some (data, st') \<Rightarrow>
          if data = [] then (True, [], 0, st')
          else if \<not> write_ok then (False, [], 0, st')
          else (True, [data], if sniffer then length data else 0, st'))"

section \<open>Client to server\<close>

text \<open>A read into the buffer of \<open>BufferSize - 6\<close> bytes drops the rest of a longer datagram.\<close>

definition cli_udpToTCP :: "bool \<Rightarrow> int \<Rightarrow> bytes option \<Rightarrow> write_result \<Rightarrow> bool \<times> bytes \<times> nat" where
  "cli_udpToTCP sniffer now datagram w =
     (case datagram of
        None \<Rightarrow> (False, [], 0)
      | Some d \<Rightarrow>
          (let data = take (BufferSize - 6) d
           in if 65535 < length data then (True, [], 0)
              else (case do_write w (cli_packet now data) of
                      (Some _, bs) \<Rightarrow> (False, bs, 0)
                    | (None, bs) \<Rightarrow> (True, bs, if sniffer then length bs else 0))))"

text \<open>
  One turn of the server's \<open>tcpToUDP\<close>: whether it goes on, the congestion flag (set as soon as the
  timestamp is read), the datagrams for the user and the traffic. \<open>rtt\<close> is that of the control channel, 0 replaced by 100.
\<close>

definition effective_rtt :: "int \<Rightarrow> int" where
  "effective_rtt rtt = (if rtt = 0 then 100 else rtt)"

definition packetAge :: "int \<Rightarrow> uint32 \<Rightarrow> int" where
  "packetAge now ts = now mod window - uint ts"

definition srv_tcpToUDP ::
    "bool \<Rightarrow> int \<Rightarrow> int \<Rightarrow> bool \<Rightarrow> bool \<Rightarrow> stream \<Rightarrow> bool \<times> bool \<times> bytes list \<times> nat \<times> stream" where
  "srv_tcpToUDP sniffer rtt now write_ok congested st =
     (case read_full 4 st of
        (Inl _, st1) \<Rightarrow> (False, congested, [], 0, st1)
      | (Inr timestampBuf, st1) \<Rightarrow>
          (let congested' = (congested \<or> packetAge now (get_uint32 timestampBuf) > 3 * rtt)
           in case read_full 2 st1 of
                (Inl _, st2) \<Rightarrow> (False, congested', [], 0, st2)
              | (Inr lenBuf, st2) \<Rightarrow>
                  (let packetSize = unat (get_uint16 lenBuf)
                   in if BufferSize < packetSize then (False, congested', [], 0, st2)
                      else (case read_full packetSize st2 of
                              (Inl _, st3) \<Rightarrow> (False, congested', [], 0, st3)
                            | (Inr data, st3) \<Rightarrow>
                                if data = [] then (True, congested', [], 0, st3)
                                else if \<not> write_ok then (False, congested', [], 0, st3)
                                else (True, congested', [data], if sniffer then length data else 0, st3)))))"

text \<open>
  The client's \<open>UDPDialer\<close>: an address that does not resolve, or a failing dial, ends the process. The
  goroutine it waits for starts \<open>tcpToUDP\<close> with another \<open>go\<close> and signals at once, so it returns when
  \<open>udpToTCP\<close> does; it closes the UDP socket \<open>u\<close> and not the tunnel connection.
\<close>

definition UDPDialer :: "bool \<Rightarrow> bool \<Rightarrow> nat \<Rightarrow> effect list" where
  "UDPDialer resolves dials u = (if \<not> resolves then [Fatal] else if \<not> dials then [Fatal] else [Close u])"

section \<open>The framings as codecs\<close>

lemma uint16_len: "n \<le> BufferSize \<Longrightarrow> unat (of_nat n :: uint16) = n"
  by (simp add: BufferSize_def unat_of_nat)

interpretation server_packets: frame_codec srv_packet cli_read_packet "\<lambda>d. length d \<le> BufferSize"
proof
  show "cli_read_packet (st\<lparr>pending := srv_packet m @ rest\<rparr>) = Some (m, st\<lparr>pending := rest\<rparr>)"
    if "length m \<le> BufferSize" for m st rest
    using that
    by (simp add: cli_read_packet_def srv_packet_def read_full_exact [where bs = "put_uint16 (of_nat (length m))"]
        read_full_exact [where bs = m] uint16_len Let_def)
  show "length m \<le> BufferSize \<and> pending st = srv_packet m @ pending st' \<and> st' = st\<lparr>pending := pending st'\<rparr>"
    if dec: "cli_read_packet st = Some (m, st')" for st m st'
  proof -
    obtain lenBuf st1 where r1: "read_full 2 st = (Inr lenBuf, st1)"
      and r2: "read_full (unat (get_uint16 lenBuf)) st1 = (Inr m, st')"
      and le: "unat (get_uint16 lenBuf) \<le> BufferSize"
      using dec
      by (auto simp: cli_read_packet_def Let_def split: prod.splits sum.splits if_splits)
    from r1 have 1: "length lenBuf = 2" "pending st = lenBuf @ pending st1" "st1 = st\<lparr>pending := pending st1\<rparr>"
      by (simp_all add: read_full_Inr_iff)
    from r2 have 2: "length m = unat (get_uint16 lenBuf)" "pending st1 = m @ pending st'"
      "st' = st1\<lparr>pending := pending st'\<rparr>"
      by (simp_all add: read_full_Inr_iff)
    have "put_uint16 (of_nat (length m)) = lenBuf"
      using 2(1) put_get_uint16 [OF 1(1)] by simp
    moreover have "st' = st\<lparr>pending := pending st'\<rparr>"
      using 1(3) 2(3) by (cases st, cases st1, cases st') simp
    ultimately show ?thesis using le 1 2 by (simp add: srv_packet_def)
  qed
  show "srv_packet m \<noteq> []" for m by (simp add: srv_packet_def put_uint16_def)
qed

text \<open>The client's loop over what is on the tunnel: at most \<open>n\<close> turns.\<close>

fun cli_forward :: "nat \<Rightarrow> stream \<Rightarrow> bytes list \<times> stream" where
  "cli_forward 0 st = ([], st)"
| "cli_forward (Suc n) st =
     (case cli_tcpToUDP False True st of
        (False, ds, _, st') \<Rightarrow> (ds, st')
      | (True, ds, _, st') \<Rightarrow> (case cli_forward n st' of (es, st'') \<Rightarrow> (ds @ es, st'')))"

lemma cli_forward_packets:
  "list_all (\<lambda>d. length d \<le> BufferSize) ds \<Longrightarrow>
     cli_forward (length ds) (st\<lparr>pending := concat (map srv_packet ds) @ rest\<rparr>) =
       (filter (\<lambda>d. d \<noteq> []) ds, st\<lparr>pending := rest\<rparr>)"
proof (induction ds)
  case (Cons d ds)
  then show ?case by (simp add: cli_tcpToUDP_def server_packets.dec_enc)
qed simp

text \<open>The server's loop over the payloads of a user.\<close>

definition srv_send_all :: "bytes list \<Rightarrow> bytes" where
  "srv_send_all ds = concat (map (\<lambda>d. fst (snd (srv_udpToTCP False (Payload d WriteOk)))) ds)"

text \<open>
  C20. UDP through the tunnel towards the client: the datagrams of a user, of up to 16 KB each (the
  listener reads no longer ones), come out of the client's loop one by one, whole and in order, with
  nothing of the later traffic consumed; only empty datagrams are left out.
\<close>

theorem udp_datagrams_reach_the_client:
  assumes "list_all (\<lambda>d. length d \<le> BufferSize) ds"
  shows "cli_forward (length ds) (st\<lparr>pending := srv_send_all ds @ rest\<rparr>) =
           (filter (\<lambda>d. d \<noteq> []) ds, st\<lparr>pending := rest\<rparr>)"
proof -
  have "srv_send_all ds = concat (map srv_packet ds)"
    using assms
    by (induction ds) (simp_all add: srv_send_all_def srv_udpToTCP_def do_write_def BufferSize_def)
  with cli_forward_packets [OF assms] show ?thesis by simp
qed

theorem udp_datagrams_reach_the_client_witness:
  "cli_forward 3 \<lparr>pending = srv_send_all [[1, 2], [], [3]] @ [9], fault = EOF\<rparr> =
     ([[1, 2], [3]], \<lparr>pending = [9], fault = EOF\<rparr>)"
  using udp_datagrams_reach_the_client 
    [where ds = "[[1, 2], [], [3]]" and st = "\<lparr>pending = [], fault = EOF\<rparr>" and rest = "[9]"]
  by (simp add: BufferSize_def numeral_3_eq_3)

text \<open>
  C21. UDP through the tunnel towards the server: a datagram of up to 16378 bytes sent at \<open>t1\<close> and read
  at \<open>t2\<close> (both clocks in milliseconds) reaches the user whole, and the connection is marked congested
  exactly if it was already or the two clock readings within their ten-minute windows differ by more
  than three times the round trip; a datagram that crosses a window boundary is never late.
\<close>

theorem udp_datagram_reaches_the_user:
  assumes "d \<noteq> []" "length d \<le> BufferSize - 6" "t1 \<le> t2" "t2 < t1 + window" "0 < rtt"
  shows "srv_tcpToUDP sniffer rtt t2 True congested
           (st\<lparr>pending := fst (snd (cli_udpToTCP False t1 (Some d) WriteOk)) @ rest\<rparr>) =
         (True,
          congested \<or> t1 div window = t2 div window \<and> t2 - t1 > 3 * rtt,
          [d], if sniffer then length d else 0, st\<lparr>pending := rest\<rparr>)"
proof -
  have w: "0 < window" by (simp add: window_def)
  have range: "0 \<le> t1 mod window" "t1 mod window < 2 ^ 32"
  proof -
    show "0 \<le> t1 mod window" using w by simp
    have "t1 mod window < window" using w by (rule pos_mod_bound)
    then show "t1 mod window < 2 ^ 32" by (simp add: window_def)
  qed
  then have ts: "uint (of_int (t1 mod window) :: uint32) = t1 mod window"
    by (simp add: uint_word_of_int_eq take_bit_int_eq_self)
  have len: "unat (of_nat (length d) :: uint16) = length d"
    using assms(2) by (simp add: BufferSize_def unat_of_nat)
  have age: "t2 mod window - t1 mod window > 3 * rtt \<longleftrightarrow>
      t1 div window = t2 div window \<and> t2 - t1 > 3 * rtt"
  proof (cases "t1 div window = t2 div window")
    case True
    then have "t2 mod window - t1 mod window = t2 - t1"
      by (simp add: minus_div_mult_eq_mod [symmetric])
    with True show ?thesis by simp
  next
    case False
    have "t1 div window \<le> t2 div window" using assms(3) w by (simp add: zdiv_mono1)
    moreover have "t2 div window \<le> t1 div window + 1"
      using assms(4) w zdiv_mono1 [of t2 "t1 + window" window] div_add_self2 [of window t1]
      by simp
    ultimately have "t2 div window = t1 div window + 1" using False by linarith
    then have "t2 mod window - t1 mod window = t2 - t1 - window"
      by (simp add: minus_div_mult_eq_mod [symmetric] algebra_simps)
    with False assms show ?thesis by simp
  qed
  have take: "take (BufferSize - 6) d = d" using assms(2) by simp
  show ?thesis
    using assms(1,2)
    by (simp add: srv_tcpToUDP_def cli_udpToTCP_def cli_packet_def do_write_def take
        read_full_exact [where bs = "put_uint32 (of_int (t1 mod window))"]
        read_full_exact [where bs = "put_uint16 (of_nat (length d))"]
        read_full_exact [where bs = d] len ts packetAge_def age BufferSize_def)
qed

theorem udp_datagram_reaches_the_user_witness:
  "srv_tcpToUDP True 100 1500 True False
     \<lparr>pending = fst (snd (cli_udpToTCP False 1000 (Some [7]) WriteOk)) @ [], fault = EOF\<rparr> =
   (True, True, [[7]], 1, \<lparr>pending = [], fault = EOF\<rparr>)"
  using udp_datagram_reaches_the_user 
    [where d = "[7]" and ?t1.0 = 1000 and ?t2.0 = 1500 and rtt = 100 and sniffer = True and congested = False
      and st = "\<lparr>pending = [], fault = EOF\<rparr>" and rest = "[]"]
  by (simp add: BufferSize_def window_def)

end
