(* ===== verification/Logger.thy ===== *)
theory Logger
  imports GoStrings
begin

text \<open>
  \<open>internal/utils/logger.go\<close>: the formatter of the log lines. The levels are those of logrus in its order,
  most severe first, with whatever other number a \<open>logrus.Level\<close> can hold; their names and the time stamp are arguments.
\<close>

section \<open>Levels\<close>

datatype level =
    PanicLevel
  | FatalLevel
  | ErrorLevel
  | WarnLevel
  | InfoLevel
  | DebugLevel
  | TraceLevel
  | OtherLevel nat

definition rank :: "level \<Rightarrow> nat" where
  "rank l =
     (case l of PanicLevel \<Rightarrow> 0 | FatalLevel \<Rightarrow> 1 | ErrorLevel \<Rightarrow> 2 | WarnLevel \<Rightarrow> 3 | InfoLevel \<Rightarrow> 4
      | DebugLevel \<Rightarrow> 5 | TraceLevel \<Rightarrow> 6 | OtherLevel n \<Rightarrow> n + 7)"

lemma rank_inj: "rank l = rank m \<longleftrightarrow> l = m"
  by (simp add: rank_def split: level.split)

instantiation level :: linorder
begin

definition less_eq_level :: "level \<Rightarrow> level \<Rightarrow> bool" where
  "less_eq_level l m \<longleftrightarrow> rank l \<le> rank m"

definition less_level :: "level \<Rightarrow> level \<Rightarrow> bool" where
  "less_level l m \<longleftrightarrow> rank l < rank m"

instance
  by standard (auto simp: less_eq_level_def less_level_def rank_inj)

end

text \<open>What a logger at level \<open>m\<close> prints.\<close>

definition printed :: "level \<Rightarrow> level \<Rightarrow> bool" where
  "printed m l \<longleftrightarrow> l \<le> m"

lemma printed_simps [simp]:
  "printed FatalLevel l \<longleftrightarrow> l = PanicLevel \<or> l = FatalLevel"
  "l \<le> m \<Longrightarrow> printed m l" "printed l l"
  by (auto simp: printed_def less_eq_level_def rank_def split: level.splits)

section \<open>Formatting\<close>

definition esc :: string where "esc = [char_of (27 :: nat)]"

definition reset :: string where "reset = esc @ ''[0m''"

definition colorize :: "level \<Rightarrow> string \<Rightarrow> string" where
  "colorize l txt =
     (case l of
        PanicLevel \<Rightarrow> esc @ ''[1;31m'' @ txt @ reset
      | FatalLevel \<Rightarrow> esc @ ''[1;31m'' @ txt @ reset
      | ErrorLevel \<Rightarrow> esc @ ''[31m'' @ txt @ reset
      | WarnLevel \<Rightarrow> esc @ ''[33m'' @ txt @ reset
      | InfoLevel \<Rightarrow> esc @ ''[32m'' @ txt @ reset
      | DebugLevel \<Rightarrow> esc @ ''[34m'' @ txt @ reset
      | TraceLevel \<Rightarrow> esc @ ''[36m'' @ txt @ reset
      | OtherLevel _ \<Rightarrow> txt)"

definition upper :: "string \<Rightarrow> string" where
  "upper s = map (\<lambda>c. if 97 \<le> (of_char c :: nat) \<and> (of_char c :: nat) \<le> 122 then char_of (of_char c - 32 :: nat) else c) s"

definition Format :: "string \<Rightarrow> string \<Rightarrow> level \<Rightarrow> string \<Rightarrow> string" where
  "Format timestamp level_name l message =
     timestamp @ '' ['' @ colorize l (upper level_name) @ ''] '' @ message @ [char_of (10 :: nat)]"

text \<open>\<open>NewLogger\<close> drops the error of \<open>ParseLevel\<close>, whose zero value is the panic level.\<close>

definition NewLogger :: "(string \<Rightarrow> level option) \<Rightarrow> string \<Rightarrow> level" where
  "NewLogger parse logLevel = (case parse logLevel of None \<Rightarrow> PanicLevel | Some l \<Rightarrow> l)"

text \<open>The colours tell the levels apart, except panic from fatal.\<close>

lemma colors_distinguish:
  "rank l < 7 \<Longrightarrow> rank m < 7 \<Longrightarrow> colorize l txt = colorize m txt \<Longrightarrow>
     l = m \<or> {l, m} = {PanicLevel, FatalLevel}"
  by (cases l; cases m) (auto simp: colorize_def rank_def)

end
