(* ===== verification/Spec2Isabelle.thy ===== *)
theory Spec2Isabelle
  imports TcpDials SrvListen Panel SysTuning Diagnostics Disguise Launch CliStub Tls App Tuner Usage UdpFrame Logger
begin

text \<open>
  \<^bold>\<open>Backhaul-Pro: a model of the program and what makes it correct.\<close>

  The program is a reverse tunnel in two roles. The server (\<open>internal/server\<close>) listens on the ports of a
  public machine; the client (\<open>internal/client\<close>) runs where the services are and dials the server. One connection
  is the control channel, on which the server asks for tunnels and both ends send heartbeats; every other one is a tunnel,
  alone or under a multiplexer. A user's connection to the server is paired with a tunnel, the server
  writes the target on it, the client dials the target, and both copy bytes until one side ends. There are six
  transports (TCP, TCPMux, WebSocket, WSMux, UDP, QUIC), a web panel with usage statistics, a tuner of the
  configuration, and a process that reloads its configuration file.

  \<^bold>\<open>How the code is modelled.\<close> A struct is a record, with the fields the code reads. A method is a definition
  on that record that returns it updated together with its effects (closing, writing, handing two
  connections to a copying goroutine, starting a goroutine, sleeping: \<open>effect\<close> of \<open>Net\<close>) in the order of the code. A
  goroutine that loops is given as one pass of its loop, or one case of its \<open>select\<close>, as a function of an event;
  \<open>None\<close> says that the event cannot happen there, because a channel is empty or a goroutine waits elsewhere.
  What the network, the file system or a library answers is part of the event or an argument. Where goroutines
  share state an inductive relation lets them take their steps in any order. Go's \<open>int\<close> values that are only compared are
  \<open>int\<close>; what wraps is a word (lengths, ports and time stamps on the wire, usage counts) or goes through \<open>int32\<close>.

  \<^bold>\<open>The theories\<close>, bottom up:

  \<^item> \<open>Prelude\<close>: machine integers, results, lemmas on lists. \<open>GoStrings\<close>: \<open>strings.Split\<close>, \<open>TrimSpace\<close>,
    \<open>strconv.Atoi\<close>, \<open>Itoa\<close>, \<open>net.SplitHostPort\<close>. \<open>Chan\<close>: buffered channels, with the locale \<open>bounded_fifo\<close> of a bounded queue.
  \<^item> \<open>Wire\<close>: \<open>internal/utils/binary.go\<close>, \<open>signals.go\<close>; the locale \<open>frame_codec\<close> says that a framing can be read back
    from a stream without ambiguity, and is interpreted by each message format. \<open>UdpFrame\<close>: the packets and loops
    of UDP inside a TCP tunnel, the two files \<open>accept_udp.go\<close>, a further interpretation.
  \<^item> \<open>PortMap\<close>: the parsers of the ports list in the six servers. \<open>Config\<close>: \<open>internal/config\<close>, \<open>cmd/defaults.go\<close>,
    \<open>cmd/cmd.go\<close>. \<open>Logger\<close>: \<open>internal/utils/logger.go\<close>. \<open>Tls\<close>: \<open>internal/utils/tls.go\<close>.
  \<^item> \<open>Net\<close>: connections and effects. \<open>Control\<close>: the reader of a control channel, the handshake, the locale
    \<open>restartable\<close> of the guarded \<open>Restart\<close>, interpreted by every transport.
  \<^item> The servers, \<open>internal/server/transport\<close>: \<open>SrvTcp\<close> (\<open>tcp.go\<close>) with its interleavings in \<open>TcpWorld\<close>;
    \<open>SrvAcceptUdp\<close> (\<open>accept_udp.go\<close>); \<open>MuxServer\<close>, what \<open>SrvTcpMux\<close> (\<open>tcpmux.go\<close>) and \<open>SrvWsMux\<close> (\<open>wsmux.go\<close>) share;
    \<open>WsServer\<close>, what \<open>SrvWs\<close> (\<open>ws.go\<close>) and \<open>SrvWsMux\<close> share; \<open>SrvUdp\<close> (\<open>udp.go\<close>); \<open>SrvQuic\<close> (\<open>quic.go\<close>).
    \<open>SrvListen\<close>: how all of them open their sockets, with certificates, and the life of those over restarts, under the locale \<open>listening\<close>.
  \<^item> The clients, \<open>internal/client/transport\<close>: \<open>CliShared\<close> (\<open>shared.go\<close> and the fields the transports share),
    \<open>CliStub\<close> (\<open>shared_stub.go\<close>), \<open>CliPool\<close> (the pool maintainer), \<open>CliTcp\<close>, \<open>CliTcpMux\<close>, \<open>CliWsShared\<close>, \<open>CliWs\<close>,
    \<open>CliWsMux\<close>, \<open>CliUdp\<close>, \<open>CliQuic\<close>. \<open>Disguise\<close>: the user agents and TLS settings of \<open>shared.go\<close>.
  \<^item> Both ends of the TCP transport as one system: \<open>TcpSystem\<close> composes the labelled steps of \<open>TcpWorld\<close> with the goroutines of
    \<open>CliTcp\<close> and \<open>CliPool\<close> over connections that carry bytes and that anyone may open; \<open>TcpEffects\<close> and \<open>TcpSignals\<close> say what
    one server step writes, hands over and asks for; \<open>TcpDials\<close> counts signals and dials.
  \<^item> \<open>Copying\<close>: the copying loops of \<open>tcpConnHandler.go\<close>, \<open>quicConnHandler.go\<close>, \<open>wsConnHandler.go\<close> under the locale
    \<open>relay\<close>. \<open>Usage\<close>: the usage store of \<open>internal/web/sniffer.go\<close>; \<open>Panel\<close>: its pages, statistics and saving goroutine.
    \<open>WebConfig\<close>: its configuration endpoint and the loops of \<open>client.go\<close> that read it. \<open>Tuner\<close>: \<open>internal/tuning\<close>. \<open>Launch\<close>:
    \<open>server.go\<close> and \<open>client.go\<close>. \<open>App\<close>: \<open>main.go\<close>. \<open>SysTuning\<close>: \<open>cmd/optimization*.go\<close>. \<open>Diagnostics\<close>: \<open>runtime.go\<close>, \<open>httpserver.go\<close>.
  \<^item> This theory: properties of several components together.

  \<^bold>\<open>What is shown.\<close>

  \<^item> End to end, over every interleaving of a TCP server and its client with other peers, failing writes and failing dials: no user
    is led to another user's service, and the client dials no more tunnels than its pool and the users ask for.
  \<^item> Safety of the concurrent parts, as invariants over every interleaving: connections of the TCP server are in exactly one
    place and its queues bounded; the counters of the multiplexing servers count what is in flight; the UDP listener never
    uses a closed channel; the client pool keeps its size; one QUIC session takes connections at a time; one instance
    of the process is alive at a time; usage counts are conserved; listeners do not collide with those of before a restart.
  \<^item> Function: frames and datagrams are read back; the documented port mappings start the documented
    listeners; which requests and connections each server admits; the relays deliver in order and end together; a user's
    connection is led to the mapped port; the two ends agree on their signals and on the disguised requests; builds for
    other systems dial alike; the tuner stays in its limits and settles; dialling backs off and ends; what the panel shows and
    what the start of the process does to the system.
  \<^item> Error behaviour, also where the code does not do what it means to: sessions that lose their slots,
    datagrams of a user that go nowhere for good, a client that panics at its first transfer, a transport that never starts,
    traffic that overlapping saves lose.

  \<^bold>\<open>Bounds and termination.\<close> The definitions are total. The retry loop of the dialler is a recursion on the tries left and
    the loops that may run forever are step functions, so there is no fuel; \<open>cli_forward n\<close> and \<open>recv_n n\<close> are \<open>n\<close> turns of a loop, as many
    as there are messages in the statements that use them.

  \<^bold>\<open>Not modelled.\<close> Sockets, DNS, TLS, HTTP, the WebSocket, smux and QUIC libraries, JSON, TOML, templates, gopsutil and the calls of the
  operating system are arguments or answers. Socket options, logging and the tunnel status shown in the panel change nothing the code
  reads back (the status is kept as a field). \<open>float64\<close> values in the tuner are rationals. The system of both ends leaves out the restarts of
  the client, after which it is a new client with other connections. The page of the panel and \<open>installer.sh\<close> are not Go.
\<close>

section \<open>From a user's connection to the mapped port\<close>

text \<open>
  C2. A user's connection over the TCP transport ends at the mapped port of the client's machine. With the
  ports list \<open>[p]\<close> the server listens on \<open>:p\<close>; a connection accepted there is queued, taken by an idle
  handle loop and, within its three seconds, paired with the next tunnel: the loop writes a frame on the tunnel
  and hands both connections to the copying. Whatever follows in the tunnel, the client that reads the frame at its
  end gives the tunnel out of its pool and dials \<open>127.0.0.1:p\<close> over TCP.
\<close>

theorem tcp_user_reaches_mapped_port:
  assumes "valid_port p" "is_tcp u" "\<not> AcceptUDP (TcpServer.config s)"
    and "buf (TcpServer.localChannel s) = []" "0 < cap (TcpServer.localChannel s)"
    and "take_chan (TcpServer.tunnelChannel s) = Some (t, rest)" "now' - now \<le> 3000"
  shows "tcp_parsePortMappings (AcceptUDP (TcpServer.config s)) [itoa p] =
       ([TcpListener (colon_port p) (itoa p)], None) \<and>
     (\<exists>s1 s2 s3 l bs.
        tcp_acceptLocalConn (itoa p) now (Accepted u) s = (s1, []) \<and>
        tcp_handleLoop SrvTcp.LoopTakeLocal (s1, SrvTcp.Idle) = Some ((s2, SrvTcp.AtCheck l), []) \<and>
        tcp_handleLoop (SrvTcp.LoopCheck now') (s2, SrvTcp.AtCheck l) = Some ((s2, SrvTcp.AtSelect l), []) \<and>
        tcp_handleLoop (SrvTcp.LoopTakeTunnel WriteOk) (s2, SrvTcp.AtSelect l) =
          Some ((s3, SrvTcp.Idle),
                [Wrote (cid t) bs, Piped (cid u) (cid t) (local_port u) (TcpConfig.Sniffer (TcpServer.config s))]) \<and>
        (\<forall>te later c. pending (input te) = bs @ later \<longrightarrow>
           tcpc_tunnelDialer_received te c =
             (add_pool (- 1) c, DialTCP (''127.0.0.1:'' @ itoa p) p, [])))"
proof -
  let ?l = "\<lparr>lconn = u, remoteAddr = itoa p, timeCreated = now\<rparr>"
  let ?s1 = "s\<lparr>TcpServer.localChannel := (TcpServer.localChannel s)\<lparr>buf := [?l]\<rparr>,
      TcpServer.reqNewConnChan := fst (offer () (TcpServer.reqNewConnChan s))\<rparr>"
  let ?s2 = "?s1\<lparr>TcpServer.localChannel := (TcpServer.localChannel s)\<lparr>buf := []\<rparr>\<rparr>"
  let ?bs = "snd (SendBinaryTransportString NetConn WriteOk (itoa p) SG_TCP)"
  have "tcp_acceptLocalConn (itoa p) now (Accepted u) s = (?s1, [])"
    using assms(2,4,5) by (simp add: tcp_acceptLocalConn_def offer_empty)
  moreover have "tcp_handleLoop SrvTcp.LoopTakeLocal (?s1, SrvTcp.Idle) = Some ((?s2, SrvTcp.AtCheck ?l), [])"
    by (simp add: tcp_handleLoop_def take_chan_def)
  moreover have "tcp_handleLoop (SrvTcp.LoopCheck now') (?s2, SrvTcp.AtCheck ?l) = Some ((?s2, SrvTcp.AtSelect ?l), [])"
    using assms(7) by (simp add: tcp_handleLoop_def)
  moreover have "tcp_handleLoop (SrvTcp.LoopTakeTunnel WriteOk) (?s2, SrvTcp.AtSelect ?l) =
      Some ((?s2\<lparr>TcpServer.tunnelChannel := rest\<rparr>, SrvTcp.Idle),
        [Wrote (cid t) ?bs, Piped (cid u) (cid t) (local_port u) (TcpConfig.Sniffer (TcpServer.config s))])"
    using assms(6) by (simp add: tcp_handleLoop_def send_transport_cases)
  moreover have "tcpc_tunnelDialer_received te c = (add_pool (- 1) c, DialTCP (''127.0.0.1:'' @ itoa p) p, [])"
    if "pending (input te) = ?bs @ later" for te later c
    using received_frame [OF that length_itoa_port [OF assms(1)]] assms(1)
    by (simp add: tcpc_tunnelDialer_received_def Let_def resolve_port valid_port_int64 valid_port_def)
  moreover have "tcp_parsePortMappings (AcceptUDP (TcpServer.config s)) [itoa p] = ([TcpListener (colon_port p) (itoa p)], None)"
    using assms(1,3) by (simp add: tcp_parsePortMappings_def start_all_single parse_mapping_port tcp_startListeners_def)
  ultimately show ?thesis by metis
qed

theorem tcp_user_reaches_mapped_port_witness:
  "\<exists>s1 s2 s3 l bs.
     tcp_acceptLocalConn (itoa 443) 0 (Accepted (sample_conn 3 ''198.51.100.7'' []))
       ((NewTCPServer sample_config)\<lparr>TcpServer.tunnelChannel :=
          \<lparr>buf = [sample_conn 9 ''10.0.0.1'' []], cap = 2, is_closed = False\<rparr>\<rparr>) = (s1, []) \<and>
     tcp_handleLoop SrvTcp.LoopTakeLocal (s1, SrvTcp.Idle) = Some ((s2, SrvTcp.AtCheck l), []) \<and>
     tcp_handleLoop (SrvTcp.LoopTakeTunnel WriteOk) (s2, SrvTcp.AtSelect l) =
       Some ((s3, SrvTcp.Idle), [Wrote 9 bs, Piped 3 9 443 False]) \<and>
     tcpc_tunnelDialer_received (sample_conn 4 ''10.0.0.9'' bs) (NewTCPClient ''10.0.0.1:3080'' ''musix'' 3 8 True False True None) =
       (add_pool (- 1) (NewTCPClient ''10.0.0.1:3080'' ''musix'' 3 8 True False True None), DialTCP (''127.0.0.1:'' @ itoa 443) 443, [])"
proof -
  let ?c = "NewTCPClient ''10.0.0.1:3080'' ''musix'' 3 8 True False True None"
  let ?s = "(NewTCPServer sample_config)\<lparr>TcpServer.tunnelChannel :=
          \<lparr>buf = [sample_conn 9 ''10.0.0.1'' []], cap = 2, is_closed = False\<rparr>\<rparr>"
  have 1: "valid_port 443" "is_tcp (sample_conn 3 ''198.51.100.7'' [])" "\<not> AcceptUDP (TcpServer.config ?s)"
    "buf (TcpServer.localChannel ?s) = []" "0 < cap (TcpServer.localChannel ?s)"
    by (simp_all add: valid_port_def sample_conn_def NewTCPServer_def sample_config_def)
  have 2: "take_chan (TcpServer.tunnelChannel ?s) =
      Some (sample_conn 9 ''10.0.0.1'' [], \<lparr>buf = [], cap = 2, is_closed = False\<rparr>)"
    by (simp add: take_chan_def)
  have 3: "(5 :: int) - 0 \<le> 3000" by simp
  obtain s1 s2 s3 l bs where r:
    "tcp_acceptLocalConn (itoa 443) 0 (Accepted (sample_conn 3 ''198.51.100.7'' [])) ?s = (s1, [])"
    "tcp_handleLoop SrvTcp.LoopTakeLocal (s1, SrvTcp.Idle) = Some ((s2, SrvTcp.AtCheck l), [])"
    "tcp_handleLoop (SrvTcp.LoopTakeTunnel WriteOk) (s2, SrvTcp.AtSelect l) =
       Some ((s3, SrvTcp.Idle), [Wrote 9 bs, Piped 3 9 443 False])"
    and d: "\<forall>te later c. pending (input te) = bs @ later \<longrightarrow>
           tcpc_tunnelDialer_received te c = (add_pool (- 1) c, DialTCP (''127.0.0.1:'' @ itoa 443) 443, [])"
    using tcp_user_reaches_mapped_port [OF 1 2 3]
    by (auto simp: sample_conn_def NewTCPServer_def sample_config_def)
  have "tcpc_tunnelDialer_received (sample_conn 4 ''10.0.0.9'' bs) ?c =
      (add_pool (- 1) ?c, DialTCP (''127.0.0.1:'' @ itoa 443) 443, [])"
    using d [rule_format, of "sample_conn 4 ''10.0.0.9'' bs" "[]" ?c] by (simp add: sample_conn_def)
  with r show ?thesis by blast
qed

section \<open>The targets of the other transports\<close>



section \<open>The signals of the control channel\<close>

lemma tcp_handler_writes:
  "tcp_channelHandler ev (s, k) = Some (sk, es) \<Longrightarrow> Wrote n bs \<in> set es \<Longrightarrow>
     bs \<in> {[], [SG_Closed], [SG_Chan], [SG_HB]}"
  by (cases ev) (auto simp: tcp_channelHandler_def dest: written_signal send_signal_es reader_writes_nothing
    split: option.splits if_splits prod.splits bool.splits)

lemma tcp_begin_writes:
  "tcp_channelHandler_begin w now s = Some (k, es) \<Longrightarrow> Wrote n bs \<in> set es \<Longrightarrow> bs \<in> {[], [SG_RTT]}"
  by (auto simp: tcp_channelHandler_begin_def dest: send_signal_es split: option.splits prod.splits bool.splits)

text \<open>
  C7. The two ends of a TCP control channel agree on its signals. Every byte the server's control handler
  writes - at its start or in any step of its loop - is one the client's handler knows: \<open>SG_Closed\<close>, and only that,
  ends it with a restart; \<open>SG_Chan\<close>, and only that, counts a unit of load; \<open>SG_RTT\<close>, and only that,
  is answered, with itself.
\<close>

theorem control_signals_understood:
  assumes "tcp_channelHandler ev (s, k) = Some (sk, es) \<or> tcp_channelHandler_begin w now s = Some (k', es)"
    and "Wrote n [b] \<in> set es"
    and "TcpClient.controlChannel c = Some cc" "cli_ctl.main_running m" "take_chan (msgChan m) = Some (b, ch)"
  shows "\<exists>c' m' fs. tcpc_channelHandler (CMainMessage WriteOk) (c, m) = Some ((c', m'), fs) \<and>
     (cli_ctl.main_running m' \<longleftrightarrow> b \<noteq> SG_Closed) \<and>
     (Go GRestart \<in> set fs \<longleftrightarrow> b = SG_Closed) \<and>
     cli_core.loadConnections c' = (if b = SG_Chan then int32 (cli_core.loadConnections c + 1) else cli_core.loadConnections c) \<and>
     {x. \<exists>i. Wrote i x \<in> set fs} = (if b = SG_RTT then {[SG_RTT]} else {})"
proof -
  have "b \<in> {SG_Closed, SG_Chan, SG_HB, SG_RTT}"
    using tcp_handler_writes tcp_begin_writes assms(1,2) by fastforce
  then show ?thesis
    using assms(3-5)
    by (elim insertE emptyE)
       (auto simp: tcpc_channelHandler_def Let_def on_chan_signal_def add_load_def signal_defs split: option.splits)
qed

theorem control_signals_understood_witness:
  "\<exists>c' m' fs. tcpc_channelHandler (CMainMessage WriteOk)
      ((NewTCPClient ''10.0.0.1:3080'' ''musix'' 3 8 True False True None)\<lparr>TcpClient.controlChannel := Some (sample_conn 8 ''10.0.0.9'' [])\<rparr>,
       new_cli_ctl\<lparr>msgChan := \<lparr>buf = [SG_HB], cap = 1000, is_closed = False\<rparr>\<rparr>) = Some ((c', m'), fs) \<and>
     cli_ctl.main_running m' \<and> Go GRestart \<notin> set fs"
proof -
  let ?s = "(NewTCPServer sample_config)\<lparr>TcpServer.controlChannel := Some (sample_conn 7 ''10.0.0.1'' [])\<rparr>"
  let ?c = "(NewTCPClient ''10.0.0.1:3080'' ''musix'' 3 8 True False True None)\<lparr>TcpClient.controlChannel := Some (sample_conn 8 ''10.0.0.9'' [])\<rparr>"
  let ?m = "new_cli_ctl\<lparr>msgChan := \<lparr>buf = [SG_HB], cap = 1000, is_closed = False\<rparr>\<rparr>"
  have s: "tcp_channelHandler (MainTick WriteOk) (?s, new_ctl 1) = Some ((?s, new_ctl 1), [Wrote 7 [SG_HB]]) \<or>
      tcp_channelHandler_begin WriteOk 0 ?s = Some (new_ctl 1, [Wrote 7 [SG_HB]])"
    by (simp add: tcp_channelHandler_def new_ctl_def sample_conn_def)
  have m: "cli_ctl.main_running ?m" "take_chan (msgChan ?m) = Some (SG_HB, \<lparr>buf = [], cap = 1000, is_closed = False\<rparr>)"
    by (simp_all add: new_cli_ctl_def take_chan_def)
  have "SG_HB \<noteq> SG_Closed" by (simp add: signal_defs)
  then show ?thesis
    using control_signals_understood [OF s _ _ m, of 7 ?c "sample_conn 8 ''10.0.0.9'' []"] by auto
qed

section \<open>The requests of the WebSocket client\<close>

text \<open>The client's list of realistic paths is the server's list of obfuscated ones.\<close>

lemma realistic_is_obfuscated: "realisticPaths = obfuscatedPaths"
  by (simp add: realisticPaths_def obfuscatedPaths_def)

lemma control_path: "rnd < length realisticPaths \<Longrightarrow> classify (generateObfuscatedPath rnd ''/channel'' uid) = ControlPath"
proof -
  assume r: "rnd < length realisticPaths"
  let ?p = "realisticPaths ! rnd @ ''/'' @ itoa uid"
  have "\<exists>o1\<in>set obfuscatedPaths. has_prefix ?p o1"
    using r by (metis has_prefix_append nth_mem realistic_is_obfuscated)
  then show ?thesis by (simp add: classify_def generateObfuscatedPath_def isObfuscatedControl_iff)
qed

lemma tunnel_path: "classify (generateObfuscatedPath rnd ''/tunnel'' uid) = TunnelPath"
proof -
  have "\<not> isObfuscatedControl (''/tunnel/'' @ itoa uid)"
    by (simp add: isObfuscatedControl_iff obfuscatedPaths_def has_prefix_def)
  then show ?thesis by (simp add: classify_def generateObfuscatedPath_def has_prefix_def)
qed

text \<open>
  C8. A WebSocket server admits the disguised requests of a client with its token: whichever path and
  user id the client draws, its channel request becomes the control channel of a server that has none and starts
  the handlers, and its tunnel request after that is queued as a tunnel with a ping goroutine, if there is room.
\<close>

theorem ws_client_is_admitted:
  assumes "cli_core.Token c = WsConfig.Token (WsServer.config s)" "rnd < length realisticPaths"
    and "wsc_channel_request rnd uid agent c = Some q" "wsc_tunnel_request rnd' uid' agent' c = Some q'"
    and "WsServer.controlChannel s = None"
    and "length (buf (WsServer.tunnelChannel s)) < cap (WsServer.tunnelChannel s)"
  shows "\<exists>auth s1 es1 s2 es2.
     map_of (headers q) ''Authorization'' = Some auth \<and> map_of (headers q') ''Authorization'' = Some auth \<and>
     ws_serve cpus auth (request_path q) (Some m) s = (s1, Upgraded, es1) \<and>
     WsServer.controlChannel s1 = Some m \<and> Go GChannelHandler \<in> set es1 \<and>
     ws_serve cpus auth (request_path q') (Some n) s1 = (s2, Upgraded, es2) \<and>
     buf (WsServer.tunnelChannel s2) =
       buf (WsServer.tunnelChannel s) @ [\<lparr>tconn = n, ping_closed = False, mu_locked = False\<rparr>] \<and>
     es2 = [Go (GKeepAlive n)]"
proof -
  let ?auth = "''Bearer '' @ cli_core.Token c"
  have q: "request_path q = generateObfuscatedPath rnd ''/channel'' uid"
    "map_of (headers q) ''Authorization'' = Some ?auth"
    using request_fields assms(3) unfolding wsc_channel_request_def by blast+
  have q': "request_path q' = generateObfuscatedPath rnd' ''/tunnel'' uid'"
    "map_of (headers q') ''Authorization'' = Some ?auth"
    using request_fields assms(4) unfolding wsc_tunnel_request_def by blast+
  show ?thesis
    using assms(1,5,6) q(2) q'(2)
    by (simp add: ws_serve_def q(1) q'(1) control_path [OF assms(2)] tunnel_path ws_set_status_def authorized_def offer_def send_def)
qed

theorem ws_client_is_admitted_witness:
  "\<exists>q q' s1 es1 s2.
     wsc_channel_request 3 77 ''curl'' (NewWSClient '''' ''ws'' ''10.0.0.1:8080'' ''musix'' 3 8 True False True None) = Some q \<and>
     wsc_tunnel_request 4 78 ''curl'' (NewWSClient '''' ''ws'' ''10.0.0.1:8080'' ''musix'' 3 8 True False True None) = Some q' \<and>
     ws_serve 2 ''Bearer musix'' (request_path q) (Some 5)
       (NewWSServer \<lparr>WsConfig.BindAddr = '':8080'', SnifferLog = '''', TLSCertFile = '''', TLSKeyFile = '''',
          TunnelStatus = '''', Token = ''musix'', Ports = [''443''], Nodelay = True, wSniffer = False,
          KeepAlive = 75, Heartbeat = 40, ChannelSize = 2, WebPort = 0, Mode = ''ws''\<rparr>) = (s1, Upgraded, es1) \<and>
     ws_serve 2 ''Bearer musix'' (request_path q') (Some 6) s1 = (s2, Upgraded, [Go (GKeepAlive 6)]) \<and>
     WsServer.controlChannel s1 = Some 5"
proof -
  let ?c = "NewWSClient '''' ''ws'' ''10.0.0.1:8080'' ''musix'' 3 8 True False True None"
  let ?s = "NewWSServer \<lparr>WsConfig.BindAddr = '':8080'', SnifferLog = '''', TLSCertFile = '''', TLSKeyFile = '''',
          TunnelStatus = '''', Token = ''musix'', Ports = [''443''], Nodelay = True, wSniffer = False,
          KeepAlive = 75, Heartbeat = 40, ChannelSize = 2, WebPort = 0, Mode = ''ws''\<rparr>"
  have 1: "cli_core.Token ?c = WsConfig.Token (WsServer.config ?s)" "3 < length realisticPaths"
    by (simp_all add: NewWSClient_def NewWSServer_def realisticPaths_def)
  obtain q where q: "wsc_channel_request 3 77 ''curl'' ?c = Some q"
    by (simp add: wsc_channel_request_def attemptDialWebSocket_def NewWSClient_def transport_defs Let_def)
  obtain q' where q': "wsc_tunnel_request 4 78 ''curl'' ?c = Some q'"
    by (simp add: wsc_tunnel_request_def attemptDialWebSocket_def NewWSClient_def transport_defs Let_def)
  have 2: "WsServer.controlChannel ?s = None"
    "length (buf (WsServer.tunnelChannel ?s)) < cap (WsServer.tunnelChannel ?s)"
    by (simp_all add: NewWSServer_def)
  obtain s1 es1 s2 es2 auth where r: "map_of (headers q) ''Authorization'' = Some auth"
    "ws_serve 2 auth (request_path q) (Some 5) ?s = (s1, Upgraded, es1)"
    "WsServer.controlChannel s1 = Some 5"
    "ws_serve 2 auth (request_path q') (Some 6) s1 = (s2, Upgraded, es2)" "es2 = [Go (GKeepAlive 6)]"
    using ws_client_is_admitted [OF 1 q q' 2, of 2 5 6] by blast
  moreover have "auth = ''Bearer musix''"
    using request_fields [OF q [unfolded wsc_channel_request_def]] r(1) by (simp add: NewWSClient_def)
  ultimately show ?thesis using q q' by blast
qed

text \<open>
  A build for another system than Linux is no different to the server: addresses resolve and dials retry
  exactly as on Linux, and its plain WebSocket request is made when the disguised one is, goes to the same
  address with the same encryption and the same \<open>Authorization\<close>, and its path is of the same kind, for the
  control channel and for a tunnel.
\<close>

theorem stub_builds_agree:
  assumes "stub_attemptDialWebSocket uid agent addr edge path token mode = Some p"
    and "attemptDialWebSocket rnd uid agent addr edge path token mode = Some q"
    and "path \<in> {''/channel'', ''/tunnel''}" "rnd < length realisticPaths"
  shows "stub_ResolveRemoteAddr = ResolveRemoteAddr \<and> stub_TcpDialer = TcpDialer \<and>
     stub_WebSocketDialer = WebSocketDialer \<and>
     dial_address p = dial_address q \<and> use_tls p = use_tls q \<and>
     map_of (headers p) ''Authorization'' = map_of (headers q) ''Authorization'' \<and>
     classify (request_path p) = classify (request_path q) \<and> classify (request_path p) \<noteq> OtherPath \<and>
     (stub_attemptDialWebSocket uid' agent' addr' edge' path' token' mode' = None \<longleftrightarrow>
        attemptDialWebSocket rnd' uid' agent' addr' edge' path' token' mode' = None)"
proof -
  have q: "request_path q = generateObfuscatedPath rnd path uid" using request_fields [OF assms(2)] by simp
  note same = stub_request_Some [OF assms(1,2)]
  have "classify ''/channel'' = ControlPath" by (simp add: classify_def)
  then have c: "classify (request_path p) = classify (request_path q)" "classify (request_path p) \<noteq> OtherPath"
    using assms(3) same q control_path [OF assms(4), of uid] tunnel_path [of rnd uid] by auto
  have "stub_attemptDialWebSocket uid' agent' addr' edge' path' token' mode' = None \<longleftrightarrow>
      attemptDialWebSocket rnd' uid' agent' addr' edge' path' token' mode' = None"
    by (rule stub_request_None)
  with c same stub_resolves stub_dials show ?thesis by blast
qed

theorem stub_builds_agree_witness:
  "\<exists>p q. stub_attemptDialWebSocket 77 ''curl'' ''10.0.0.1:8080'' '''' ''/channel'' ''musix'' ''ws'' = Some p \<and>
     attemptDialWebSocket 3 77 ''curl'' ''10.0.0.1:8080'' '''' ''/channel'' ''musix'' ''ws'' = Some q \<and>
     classify (request_path p) = classify (request_path q)"
proof -
  obtain p where p: "stub_attemptDialWebSocket 77 ''curl'' ''10.0.0.1:8080'' '''' ''/channel'' ''musix'' ''ws'' = Some p"
    by (simp add: stub_attemptDialWebSocket_def transport_defs Let_def)
  obtain q where q: "attemptDialWebSocket 3 77 ''curl'' ''10.0.0.1:8080'' '''' ''/channel'' ''musix'' ''ws'' = Some q"
    by (simp add: attemptDialWebSocket_def transport_defs Let_def)
  show ?thesis using stub_builds_agree [OF p q] p q by (simp add: realisticPaths_def)
qed

section \<open>The default client\<close>

lemma Run_RunClient: "Run parse_level wd (Some f) = RunClient c cfg \<Longrightarrow> c = clientDefaults parse_level (the_client f)"
  by (simp add: Run_Some Let_def split: if_split_asm)

lemma tcp_client_without_panel:
  assumes "c_WebPort k = 0" "c_Sniffer k = None" "c_Transport k = TCP"
  shows "\<exists>t. client_Start (fst (NewClient (clientDefaults parse_level k))) (clientDefaults parse_level k) = ClientTCP t \<and>
           TcpClient.Sniffer t \<and> cli_core.usageMonitor t = None"
proof -
  let ?c = "clientDefaults parse_level k"
  have c: "c_WebPort ?c = 0" "c_Sniffer ?c = Some True" "c_Transport ?c = TCP"
    using assms by (simp_all add: clientDefaults_def)
  show ?thesis by (simp add: NewClient_def client_Start_def Let_def c sniffs_def NewTCPClient_def)
qed

text \<open>
  C36. A TCP client configured without \<open>sniffer\<close> and \<open>web_port\<close> panics on its first transfer: the defaults turn
  the sniffer on, \<open>NewClient\<close> makes the usage store only with a web port, and the copying of
  the first chunk calls \<open>AddOrUpdatePort\<close> on the nil store once the chunk is written.
\<close>

theorem default_client_panics:
  assumes "Run parse_level getwd (Some f) = RunClient c cfg"
    and "c_WebPort (the_client f) = 0" "c_Sniffer (the_client f) = None" "c_Transport (the_client f) = TCP"
    and "bs \<noteq> []"
  shows "\<exists>t d. client_Start (fst (NewClient c)) c = ClientTCP t \<and>
     Option.bind (transferData (TcpClient.Sniffer t) (cli_core.usageMonitor t \<noteq> None) (Copying.ReadOk bs) new_dir)
       (transferData (TcpClient.Sniffer t) (cli_core.usageMonitor t \<noteq> None) (WriteSome (length bs))) = Some d \<and>
     phase d = Panicked"
proof -
  obtain t where t: "client_Start (fst (NewClient c)) c = ClientTCP t" "TcpClient.Sniffer t" "cli_core.usageMonitor t = None"
    using tcp_client_without_panel [OF assms(2-4)] Run_RunClient [OF assms(1)] by blast
  then show ?thesis
    using assms(5) by (simp add: transferData_def new_dir_def chunk_done_def)
qed

theorem default_client_panics_witness:
  "\<exists>c cfg t d. Run (\<lambda>l. l = ''info'') None
      (Some \<lparr>Server = None, Client = Some (zeroClient\<lparr>c_RemoteAddr := ''10.0.0.1:3080'', c_Transport := TCP\<rparr>)\<rparr>) = RunClient c cfg \<and>
     client_Start (fst (NewClient c)) c = ClientTCP t \<and>
     Option.bind (transferData (TcpClient.Sniffer t) (cli_core.usageMonitor t \<noteq> None) (Copying.ReadOk [7]) new_dir)
       (transferData (TcpClient.Sniffer t) (cli_core.usageMonitor t \<noteq> None) (WriteSome 1)) = Some d \<and>
     phase d = Panicked"
proof -
  let ?f = "\<lparr>Server = None, Client = Some (zeroClient\<lparr>c_RemoteAddr := ''10.0.0.1:3080'', c_Transport := TCP\<rparr>)\<rparr>"
  obtain c cfg where r: "Run (\<lambda>l. l = ''info'') None (Some ?f) = RunClient c cfg"
    by (simp add: Run_Some Let_def the_server_def the_client_def zeroServer_def)
  show ?thesis
    using default_client_panics [OF r, of "[7]"] r
    by (simp add: the_client_def zeroClient_def)
qed

end
